theory Spec2Isabelle
  imports Main "HOL-Library.Word"
begin

unbundle bit_operations_syntax

section \<open>Data model of the server (server.go)\<close>

text \<open>
  Bytes are 8-bit words, a connection ID is an opaque byte string, a version number is
  Go's \<open>uint32\<close>. Durations and points in time are nanosecond counts (Go's
  \<open>time.Duration\<close> is an \<open>int64\<close>); Go's \<open>int\<close> is modelled
  by \<open>int\<close>, only ever compared with constants here.
\<close>

type_synonym byte = "8 word"
type_synonym bytes = "byte list"
type_synonym ConnectionID = "byte list"
type_synonym VersionNumber = "32 word"
type_synonym Duration = int
type_synonym Time = int

text \<open>
  Go's \<open>error\<close> values are identified by their message. A panic is an error
  result of its own kind.
\<close>

datatype error = Error string | Panic string

text \<open>
  \<open>net.Addr\<close>: the code distinguishes \<open>*net.UDPAddr\<close> (IP in text form,
  port) from every other implementation (its \<open>String()\<close>).
\<close>

datatype net_addr = UDPAddr string nat | OtherAddr string

text \<open>The \<open>Token\<close> handed to \<open>Config.AcceptToken\<close>.\<close>

record Token =
  IsRetryToken :: bool
  RemoteAddr :: string
  SentTime :: Time

text \<open>
  \<open>Config.AcceptToken\<close> has Go type \<open>func(net.Addr, *Token) bool\<close>.
  The default implementation reads the wall clock, so the model passes the clock reading
  at the time of the call as a first argument.
\<close>

type_synonym accept_token_fn = "Time \<Rightarrow> net_addr \<Rightarrow> Token option \<Rightarrow> bool"

record Config =
  Versions :: "VersionNumber list"
  HandshakeTimeout :: Duration
  MaxIdleTimeout :: Duration
  AcceptToken :: "accept_token_fn option"
  KeepAlive :: bool
  MaxReceiveStreamFlowControlWindow :: nat
  MaxReceiveConnectionFlowControlWindow :: nat
  MaxIncomingStreams :: int
  MaxIncomingUniStreams :: int
  ConnectionIDLength :: int
  StatelessResetKey :: bytes
  TokenStore :: "nat option"
  QuicTracer :: "nat option"

text \<open>The zero value \<open>Config{}\<close>.\<close>

definition zeroConfig :: Config where
  "zeroConfig = \<lparr> Versions = [], HandshakeTimeout = 0, MaxIdleTimeout = 0,
     AcceptToken = None, KeepAlive = False,
     MaxReceiveStreamFlowControlWindow = 0, MaxReceiveConnectionFlowControlWindow = 0,
     MaxIncomingStreams = 0, MaxIncomingUniStreams = 0, ConnectionIDLength = 0,
     StatelessResetKey = [], TokenStore = None, QuicTracer = None \<rparr>"

subsection \<open>Constants of package protocol\<close>

text \<open>
  Package \<open>protocol\<close> is not part of the sources. The constants the specification
  fixes are defined from it; those it leaves open (``impl default'') are the fields of a
  parameter record.
\<close>

text \<open>Modelled from the spec: \<open>MinInitialPacketSize\<close> (1200 bytes), constant of the absent package protocol.\<close>
definition MinInitialPacketSize :: nat where
  "MinInitialPacketSize = 1200"

text \<open>Modelled from the spec: \<open>MinConnectionIDLenInitial\<close> (8), constant of the absent package protocol.\<close>
definition MinConnectionIDLenInitial :: nat where
  "MinConnectionIDLenInitial = 8"

text \<open>Modelled from the spec: \<open>MaxAcceptQueueSize\<close> (default 32), constant of the absent package protocol.\<close>
definition MaxAcceptQueueSize :: "32 word" where
  "MaxAcceptQueueSize = 32"

text \<open>Modelled from the spec: \<open>DefaultHandshakeTimeout\<close> (10 s), constant of the absent package protocol.\<close>
definition DefaultHandshakeTimeout :: Duration where
  "DefaultHandshakeTimeout = 10 * 1000000000"

text \<open>Modelled from the spec: \<open>DefaultIdleTimeout\<close> (30 s), constant of the absent package protocol.\<close>
definition DefaultIdleTimeout :: Duration where
  "DefaultIdleTimeout = 30 * 1000000000"

text \<open>Modelled from the spec: \<open>DefaultConnectionIDLength\<close> (4), constant of the absent package protocol.\<close>
definition DefaultConnectionIDLength :: int where
  "DefaultConnectionIDLength = 4"

text \<open>Modelled from the spec: \<open>TokenValidity\<close> (24 h), constant of the absent package protocol.\<close>
definition TokenValidity :: Duration where
  "TokenValidity = 24 * 3600 * 1000000000"

text \<open>Modelled from the spec: \<open>RetryTokenValidity\<close> (5 s), constant of the absent package protocol.\<close>
definition RetryTokenValidity :: Duration where
  "RetryTokenValidity = 5 * 1000000000"

record protocol_defaults =
  SupportedVersions :: "VersionNumber list"
  DefaultMaxReceiveStreamFlowControlWindow :: nat
  DefaultMaxReceiveConnectionFlowControlWindow :: nat
  DefaultMaxIncomingStreams :: int
  DefaultMaxIncomingUniStreams :: int

subsection \<open>defaultAcceptToken\<close>

definition defaultAcceptToken :: accept_token_fn where
  "defaultAcceptToken now clientAddr token =
     (case token of
        None \<Rightarrow> False
      | Some t \<Rightarrow>
          (let validity = (if IsRetryToken t then RetryTokenValidity else TokenValidity) in
           if now > SentTime t + validity then False
           else
             (let sourceAddr = (case clientAddr of UDPAddr ip port \<Rightarrow> ip | OtherAddr str \<Rightarrow> str)
              in sourceAddr = RemoteAddr t)))"

subsection \<open>populateConfig and populateServerConfig\<close>

text \<open>
  Both functions take and return \<open>*Config\<close>. The claim about them concerns
  mutation through that pointer, so configs live in an explicit store: a list of cells,
  an address is an index, \<open>nil\<close> is \<open>None\<close>, and \<open>&Config{...}\<close>
  allocates a new cell at the end.
\<close>

type_synonym config_ptr = nat
type_synonym config_store = "Config list"

definition alloc :: "config_store \<Rightarrow> Config \<Rightarrow> config_store \<times> config_ptr" where
  "alloc h c = (h @ [c], length h)"

text \<open>
  The body of \<open>populateConfig\<close> after the \<open>nil\<close> check: the locals
  computed from the fields of \<open>*config\<close>, and the struct literal returned.
\<close>

definition populateConfig_literal :: "protocol_defaults \<Rightarrow> Config \<Rightarrow> Config" where
  "populateConfig_literal pd c =
     (let versions = (if length (Versions c) = 0 then SupportedVersions pd else Versions c);
          handshakeTimeout =
            (if HandshakeTimeout c \<noteq> 0 then HandshakeTimeout c else DefaultHandshakeTimeout);
          idleTimeout = (if MaxIdleTimeout c \<noteq> 0 then MaxIdleTimeout c else DefaultIdleTimeout);
          maxReceiveStreamFlowControlWindow =
            (if MaxReceiveStreamFlowControlWindow c = 0
             then DefaultMaxReceiveStreamFlowControlWindow pd
             else MaxReceiveStreamFlowControlWindow c);
          maxReceiveConnectionFlowControlWindow =
            (if MaxReceiveConnectionFlowControlWindow c = 0
             then DefaultMaxReceiveConnectionFlowControlWindow pd
             else MaxReceiveConnectionFlowControlWindow c);
          maxIncomingStreams =
            (if MaxIncomingStreams c = 0 then DefaultMaxIncomingStreams pd
             else if MaxIncomingStreams c < 0 then 0
             else MaxIncomingStreams c);
          maxIncomingUniStreams =
            (if MaxIncomingUniStreams c = 0 then DefaultMaxIncomingUniStreams pd
             else if MaxIncomingUniStreams c < 0 then 0
             else MaxIncomingUniStreams c)
      in \<lparr> Versions = versions,
           HandshakeTimeout = handshakeTimeout,
           MaxIdleTimeout = idleTimeout,
           AcceptToken = AcceptToken c,
           KeepAlive = KeepAlive c,
           MaxReceiveStreamFlowControlWindow = maxReceiveStreamFlowControlWindow,
           MaxReceiveConnectionFlowControlWindow = maxReceiveConnectionFlowControlWindow,
           MaxIncomingStreams = maxIncomingStreams,
           MaxIncomingUniStreams = maxIncomingUniStreams,
           ConnectionIDLength = ConnectionIDLength c,
           StatelessResetKey = StatelessResetKey c,
           TokenStore = TokenStore c,
           QuicTracer = QuicTracer c \<rparr>)"

definition populateConfig ::
  "protocol_defaults \<Rightarrow> config_store \<Rightarrow> config_ptr option \<Rightarrow> config_store \<times> config_ptr" where
  "populateConfig pd h config0 =
     (let (h1, config) = (case config0 of None \<Rightarrow> alloc h zeroConfig | Some p \<Rightarrow> (h, p))
      in alloc h1 (populateConfig_literal pd (h1 ! config)))"

definition populateServerConfig ::
  "protocol_defaults \<Rightarrow> config_store \<Rightarrow> config_ptr option \<Rightarrow> config_store \<times> config_ptr" where
  "populateServerConfig pd h config0 =
     (let (h1, config) = populateConfig pd h config0;
          h2 = (if ConnectionIDLength (h1 ! config) = 0
                then h1[config := (h1 ! config)\<lparr>ConnectionIDLength := DefaultConnectionIDLength\<rparr>]
                else h1);
          h3 = (if AcceptToken (h2 ! config) = None
                then h2[config := (h2 ! config)\<lparr>AcceptToken := Some defaultAcceptToken\<rparr>]
                else h2)
      in (h3, config))"

text \<open>The config a caller's pointer denotes: the zero value behind \<open>nil\<close>.\<close>

definition config_at :: "config_store \<Rightarrow> config_ptr option \<Rightarrow> Config" where
  "config_at h p = (case p of None \<Rightarrow> zeroConfig | Some a \<Rightarrow> h ! a)"

text \<open>A pointer of the caller is \<open>nil\<close> or the address of an allocated cell.\<close>

definition valid_ptr :: "config_store \<Rightarrow> config_ptr option \<Rightarrow> bool" where
  "valid_ptr h p = (case p of None \<Rightarrow> True | Some a \<Rightarrow> a < length h)"

text \<open>
  What \<open>populateServerConfig\<close> does to the struct that \<open>populateConfig\<close>
  returned, as a function of that struct's value.
\<close>

definition serverDefaults :: "Config \<Rightarrow> Config" where
  "serverDefaults l =
     (let l1 = (if ConnectionIDLength l = 0 then l\<lparr>ConnectionIDLength := DefaultConnectionIDLength\<rparr> else l)
      in if AcceptToken l1 = None then l1\<lparr>AcceptToken := Some defaultAcceptToken\<rparr> else l1)"

section \<open>Packets, headers and the collaborators of the server\<close>

datatype PacketType = PacketTypeInitial | PacketTypeRetry | PacketTypeHandshake | PacketType0RTT

datatype Perspective = PerspectiveServer | PerspectiveClient

text \<open>
  \<open>wire.Header\<close> and \<open>wire.ExtendedHeader\<close>, with the fields the server reads or
  sets. The extended header embeds the header, as in the source.
\<close>

record Header =
  IsLongHeader :: bool
  Type :: PacketType
  Version :: VersionNumber
  SrcConnectionID :: ConnectionID
  DestConnectionID :: ConnectionID
  Length :: nat
  Token :: bytes

record ExtendedHeader = Header +
  PacketNumberLen :: nat
  PacketNumber :: nat

record receivedPacket =
  remoteAddr :: net_addr
  rcvTime :: Time
  data :: bytes
  buffer :: nat

text \<open>The token as \<open>handshake.TokenGenerator.DecodeToken\<close> returns it.\<close>

record handshake_Token =
  tok_IsRetryToken :: bool
  tok_RemoteAddr :: string
  tok_SentTime :: Time
  OriginalDestConnectionID :: ConnectionID

text \<open>Go's \<open>[16]byte\<close>: byte strings of length 16.\<close>

typedef bytes16 = "{xs :: byte list. length xs = 16}"
  by (rule exI [of _ "replicate 16 0"]) simp

datatype ErrorCode = ServerBusy | OtherErrorCode nat

record ConnectionCloseFrame =
  ErrorCode :: ErrorCode

text \<open>
  The sealer that \<open>handshake.NewInitialAEAD\<close> returns (interface
  \<open>LongHeaderSealer\<close>). \<open>Seal\<close> takes the plaintext, the packet number and the
  associated data and yields what it appends to its destination slice;
  \<open>EncryptHeader\<close> takes the sample, the first byte and the packet number bytes and
  yields the new first byte and the new packet number bytes, which the implementation
  writes in place.
\<close>

record LongHeaderSealer =
  Seal :: "bytes \<Rightarrow> nat \<Rightarrow> bytes \<Rightarrow> bytes"
  EncryptHeader :: "bytes \<Rightarrow> byte \<Rightarrow> bytes \<Rightarrow> byte \<times> bytes"
  Overhead :: nat

text \<open>
  A session is what \<open>newSession\<close> (a member of \<open>baseServer\<close>, replaceable in
  tests) was called with, by the parameter names of \<open>createNewSession\<close>, and a
  number that stands for the identity of the object. The remaining arguments of
  \<open>newSession\<close> are the server's own fields.
\<close>

record quicSession =
  sessID :: nat
  currentAddr :: net_addr
  origDestConnID :: ConnectionID
  clientDestConnID :: ConnectionID
  destConnID :: ConnectionID
  srcConnID :: ConnectionID
  statelessResetToken :: bytes16
  enable0RTT :: bool
  version :: VersionNumber

text \<open>
  The functions of packages \<open>wire\<close>, \<open>handshake\<close> and \<open>protocol\<close>, of the
  multiplexer and of the socket that the server calls and that are not part of the
  sources: parameters of the model.
\<close>

record externals =
  ParsePacket :: "bytes \<Rightarrow> int \<Rightarrow> error + Header"
  IsValidVersion :: "VersionNumber \<Rightarrow> bool"
  VersionString :: "VersionNumber \<Rightarrow> string"
  DecodeToken :: "bytes \<Rightarrow> error + handshake_Token"
  NewRetryToken :: "net_addr \<Rightarrow> ConnectionID \<Rightarrow> error + bytes"
  NewTokenGenerator :: "error option"
  WriteHeader :: "ExtendedHeader \<Rightarrow> VersionNumber \<Rightarrow> error + bytes"
  GetRetryIntegrityTag :: "bytes \<Rightarrow> ConnectionID \<Rightarrow> bytes16"
  GetStatelessResetToken :: "ConnectionID \<Rightarrow> bytes16"
  NewInitialAEAD :: "ConnectionID \<Rightarrow> Perspective \<Rightarrow> LongHeaderSealer"
  ccf_Length :: "ConnectionCloseFrame \<Rightarrow> VersionNumber \<Rightarrow> nat"
  ccf_Write :: "ConnectionCloseFrame \<Rightarrow> VersionNumber \<Rightarrow> error + bytes"
  AddConn :: "int \<Rightarrow> bytes \<Rightarrow> error + (ConnectionID \<rightharpoonup> quicSession)"
  sessionHandler_Destroy :: "error option"
  WriteTo :: "bytes \<Rightarrow> net_addr \<Rightarrow> error option"

text \<open>Modelled from the spec: \<open>protocol.IsSupportedVersion\<close>, ``version in the configured
  supported set''; the function is not part of the sources.\<close>
definition IsSupportedVersion :: "VersionNumber list \<Rightarrow> VersionNumber \<Rightarrow> bool" where
  "IsSupportedVersion supported v = (v \<in> set supported)"

section \<open>The server\<close>

text \<open>
  What the goroutines started with \<open>go\<close> are to run, and the observable steps of
  the server in the order it takes them.
\<close>

datatype task =
    RunLoop
  | RunSession quicSession
  | HandleNewSession quicSession
  | SendRetry net_addr Header
  | SendServerBusy net_addr Header
  | SendVersionNegotiationPacket receivedPacket Header

datatype event =
    NewSession quicSession
  | Add ConnectionID quicSession bool
  | Go task
  | HandlePacket quicSession receivedPacket
  | Release nat
  | SetServer
  | CloseServer
  | Destroy

record TLSConfig =
  NextProtos :: "string list"

text \<open>
  \<open>baseServer\<close>: the fields of the struct that the modelled functions use, followed
  by the state of its collaborators: the connection ID registry of the multiplexer
  (\<open>sessionHandler\<close>), the bytes that \<open>crypto/rand\<close> will deliver, the wall clock,
  the datagrams written to the socket, the number of the next session object, and the
  trace of events.
\<close>

record baseServer =
  acceptEarlySessions :: bool
  tlsConf :: TLSConfig
  config :: Config
  createdPacketConn :: bool
  serverError :: "error option"
  errorChan_closed :: bool
  closed :: bool
  sessionQueueLen :: "32 word"
  handlers :: "ConnectionID \<rightharpoonup> quicSession"
  entropy :: bytes
  clock :: Time
  written :: "(bytes \<times> net_addr) list"
  nextSession :: nat
  trace :: "event list"

definition emit :: "event list \<Rightarrow> baseServer \<Rightarrow> baseServer" where
  "emit es s = s\<lparr>trace := trace s @ es\<rparr>"

text \<open>Modelled from the spec: \<open>add(cid, session)\<close> of the session demultiplexer, ``registers
  a CID; returns false if CID already present''; the multiplexer is not part of the sources.\<close>
definition sessionHandler_Add ::
  "ConnectionID \<Rightarrow> quicSession \<Rightarrow> baseServer \<Rightarrow> bool \<times> baseServer" where
  "sessionHandler_Add cid sess s =
     (case handlers s cid of
        Some other \<Rightarrow> (False, emit [Add cid sess False] s)
      | None \<Rightarrow> (True, emit [Add cid sess True] (s\<lparr>handlers := (handlers s)(cid \<mapsto> sess)\<rparr>)))"

text \<open>Modelled from the spec: \<open>protocol.GenerateConnectionID\<close>, ``generate a fresh server
  SCID of configured length''; the function is not part of the sources. It reads that
  many bytes from the random source, fails when the source does, and a negative length
  makes Go's \<open>make\<close> panic.\<close>
definition GenerateConnectionID :: "int \<Rightarrow> baseServer \<Rightarrow> (error + ConnectionID) \<times> baseServer" where
  "GenerateConnectionID len s =
     (if len < 0 then (Inl (Panic ''makeslice: len out of range''), s)
      else if length (entropy s) < nat len then (Inl (Error ''rand: read failed''), s)
      else (Inr (take (nat len) (entropy s)), s\<lparr>entropy := drop (nat len) (entropy s)\<rparr>))"

definition conn_WriteTo :: "externals \<Rightarrow> bytes \<Rightarrow> net_addr \<Rightarrow> baseServer \<Rightarrow> error option \<times> baseServer" where
  "conn_WriteTo ext b addr s =
     (case WriteTo ext b addr of
        Some err \<Rightarrow> (Some err, s)
      | None \<Rightarrow> (None, s\<lparr>written := written s @ [(b, addr)]\<rparr>))"

subsection \<open>createNewSession\<close>

text \<open>
  The call \<open>s.newSession(...)\<close>: the session object built from the arguments of
  \<open>createNewSession\<close> and the fields of the server.
\<close>

definition newSession ::
  "externals \<Rightarrow> baseServer \<Rightarrow> net_addr \<Rightarrow> ConnectionID \<Rightarrow> ConnectionID \<Rightarrow> ConnectionID \<Rightarrow>
     ConnectionID \<Rightarrow> VersionNumber \<Rightarrow> quicSession" where
  "newSession ext s remote origDest clientDest dest src ver =
     \<lparr> sessID = nextSession s, currentAddr = remote, origDestConnID = origDest,
       clientDestConnID = clientDest, destConnID = dest, srcConnID = src,
       statelessResetToken = GetStatelessResetToken ext src,
       enable0RTT = acceptEarlySessions s, version = ver \<rparr>"

definition createNewSession ::
  "externals \<Rightarrow> baseServer \<Rightarrow> net_addr \<Rightarrow> ConnectionID \<Rightarrow> ConnectionID \<Rightarrow> ConnectionID \<Rightarrow>
     ConnectionID \<Rightarrow> VersionNumber \<Rightarrow> quicSession option \<times> baseServer" where
  "createNewSession ext s remote origDest clientDest dest src ver =
     (let sess = newSession ext s remote origDest clientDest dest src ver;
          s1 = emit [NewSession sess] (s\<lparr>nextSession := Suc (nextSession s)\<rparr>);
          (added, s2) = sessionHandler_Add clientDest sess s1
      in if \<not> added then (None, s2)
         else
           (let (added2, s3) = sessionHandler_Add src sess s2
            in (Some sess, emit [Go (RunSession sess), Go (HandleNewSession sess)] s3)))"

subsection \<open>handleInitialImpl and handlePacketImpl\<close>

text \<open>
  The result of \<open>handleInitialImpl\<close> is Go's pair \<open>(quicSession, error)\<close>:
  \<open>Inl\<close> an error (or a panic, which is not a return), \<open>Inr None\<close> for
  \<open>(nil, nil)\<close>.
\<close>

definition decodedToken :: "externals \<Rightarrow> Header \<Rightarrow> Token option \<times> ConnectionID" where
  "decodedToken ext hdr =
     (if length (Token hdr) > 0
      then (case DecodeToken ext (Token hdr) of
              Inr c \<Rightarrow> (Some \<lparr> IsRetryToken = tok_IsRetryToken c, RemoteAddr = tok_RemoteAddr c,
                                SentTime = tok_SentTime c \<rparr>,
                         OriginalDestConnectionID c)
            | Inl err \<Rightarrow> (None, []))
      else (None, []))"

definition handleInitialImpl ::
  "externals \<Rightarrow> baseServer \<Rightarrow> receivedPacket \<Rightarrow> Header \<Rightarrow> (error + quicSession option) \<times> baseServer" where
  "handleInitialImpl ext s p hdr =
     (if length (Token hdr) = 0 \<and> length (DestConnectionID hdr) < MinConnectionIDLenInitial
      then (Inl (Error ''too short connection ID''), s)
      else
        (let (token, origDestConnectionID) = decodedToken ext hdr in
         case AcceptToken (config s) of
           None \<Rightarrow> (Inl (Panic ''nil pointer dereference''), s)
         | Some acceptToken \<Rightarrow>
             if \<not> acceptToken (clock s) (remoteAddr p) token
             then (Inr None, emit [Go (SendRetry (remoteAddr p) hdr)] s)
             else if MaxAcceptQueueSize \<le>s sessionQueueLen s
             then (Inr None, emit [Go (SendServerBusy (remoteAddr p) hdr)] s)
             else
               (case GenerateConnectionID (ConnectionIDLength (config s)) s of
                  (Inl err, s1) \<Rightarrow> (Inl err, s1)
                | (Inr connID, s1) \<Rightarrow>
                    (case createNewSession ext s1 (remoteAddr p) origDestConnectionID
                            (DestConnectionID hdr) (SrcConnectionID hdr) connID (Version hdr) of
                       (None, s2) \<Rightarrow> (Inr None, s2)
                     | (Some sess, s2) \<Rightarrow> (Inr (Some sess), emit [HandlePacket sess p] s2)))))"

text \<open>
  \<open>handlePacketImpl\<close> returns whether the packet was passed on to a session;
  \<open>Inl\<close> stands for a panic raised below it.
\<close>

definition handlePacketImpl ::
  "externals \<Rightarrow> baseServer \<Rightarrow> receivedPacket \<Rightarrow> (error + bool) \<times> baseServer" where
  "handlePacketImpl ext s p =
     (if length (data p) < MinInitialPacketSize then (Inr False, s)
      else
        (case ParsePacket ext (data p) (ConnectionIDLength (config s)) of
           Inl err \<Rightarrow> (Inr False, s)
         | Inr hdr \<Rightarrow>
             if \<not> IsLongHeader hdr then (Inr False, s)
             else if \<not> IsSupportedVersion (Versions (config s)) (Version hdr)
             then (Inr False, emit [Go (SendVersionNegotiationPacket p hdr)] s)
             else if IsLongHeader hdr \<and> Type hdr \<noteq> PacketTypeInitial then (Inr False, s)
             else
               (case handleInitialImpl ext s p hdr of
                  (Inl (Panic msg), s1) \<Rightarrow> (Inl (Panic msg), s1)
                | (Inl (Error msg), s1) \<Rightarrow> (Inr False, s1)
                | (Inr None, s1) \<Rightarrow> (Inr False, s1)
                | (Inr (Some sess), s1) \<Rightarrow> (Inr True, s1))))"

subsection \<open>run\<close>

text \<open>
  One turn of the loop of \<open>run\<close> with packet \<open>p\<close> received from
  \<open>receivedPackets\<close>, and the loop over the packets the channel delivers. The loop
  ends when the error channel is closed; a panic ends the goroutine.
\<close>

definition run_packet :: "externals \<Rightarrow> baseServer \<Rightarrow> receivedPacket \<Rightarrow> (error + unit) \<times> baseServer" where
  "run_packet ext s p =
     (case handlePacketImpl ext s p of
        (Inl err, s1) \<Rightarrow> (Inl err, s1)
      | (Inr shouldReleaseBuffer, s1) \<Rightarrow>
          if \<not> shouldReleaseBuffer then (Inr (), emit [Release (buffer p)] s1) else (Inr (), s1))"

fun run :: "externals \<Rightarrow> baseServer \<Rightarrow> receivedPacket list \<Rightarrow> (error + unit) \<times> baseServer" where
  "run ext s [] = (Inr (), s)"
| "run ext s (p # ps) =
     (if errorChan_closed s then (Inr (), s)
      else (case run_packet ext s p of
              (Inl err, s1) \<Rightarrow> (Inl err, s1)
            | (Inr u, s1) \<Rightarrow> run ext s1 ps))"

subsection \<open>sendRetry\<close>

text \<open>
  The reply functions run in goroutines of their own. Each returns Go's \<open>error\<close>
  (\<open>None\<close> for \<open>nil\<close>) and the state, in which \<open>written\<close> has grown by the
  datagram handed to \<open>conn.WriteTo\<close>.
\<close>

definition retryHeader :: "Header \<Rightarrow> ConnectionID \<Rightarrow> bytes \<Rightarrow> ExtendedHeader" where
  "retryHeader hdr connID token =
     \<lparr> IsLongHeader = True, Type = PacketTypeRetry, Version = Version hdr,
       SrcConnectionID = connID, DestConnectionID = SrcConnectionID hdr,
       Length = 0, Token = token, PacketNumberLen = 0, PacketNumber = 0 \<rparr>"

definition sendRetry ::
  "externals \<Rightarrow> baseServer \<Rightarrow> net_addr \<Rightarrow> Header \<Rightarrow> error option \<times> baseServer" where
  "sendRetry ext s remote hdr =
     (case NewRetryToken ext remote (DestConnectionID hdr) of
        Inl err \<Rightarrow> (Some err, s)
      | Inr token \<Rightarrow>
          (case GenerateConnectionID (ConnectionIDLength (config s)) s of
             (Inl err, s1) \<Rightarrow> (Some err, s1)
           | (Inr connID, s1) \<Rightarrow>
               (let replyHdr = retryHeader hdr connID token in
                case WriteHeader ext replyHdr (Version hdr) of
                  Inl err \<Rightarrow> (Some err, s1)
                | Inr buf \<Rightarrow>
                    (let tag = GetRetryIntegrityTag ext buf (DestConnectionID hdr)
                     in conn_WriteTo ext (buf @ Rep_bytes16 tag) remote s1))))"

subsection \<open>sendServerBusy\<close>

text \<open>
  The packet is built in one pooled buffer, large enough for it; \<open>Seal\<close> and
  \<open>EncryptHeader\<close> write into that buffer. \<open>write_at arr off new\<close> is the array
  after \<open>new\<close> has been written from index \<open>off\<close> on.
\<close>

definition write_at :: "bytes \<Rightarrow> nat \<Rightarrow> bytes \<Rightarrow> bytes" where
  "write_at arr off new = take off arr @ new @ drop (off + length new) arr"

definition busyHeader :: "externals \<Rightarrow> Header \<Rightarrow> ConnectionCloseFrame \<Rightarrow> LongHeaderSealer \<Rightarrow> ExtendedHeader" where
  "busyHeader ext hdr ccf sealer =
     \<lparr> IsLongHeader = True, Type = PacketTypeInitial, Version = Version hdr,
       SrcConnectionID = DestConnectionID hdr, DestConnectionID = SrcConnectionID hdr,
       Length = 4 + ccf_Length ext ccf (Version hdr) + Overhead sealer,
       Token = [], PacketNumberLen = 4, PacketNumber = 0 \<rparr>"

definition sendServerBusy ::
  "externals \<Rightarrow> baseServer \<Rightarrow> net_addr \<Rightarrow> Header \<Rightarrow> error option \<times> baseServer" where
  "sendServerBusy ext s remote hdr =
     (let sealer = NewInitialAEAD ext (DestConnectionID hdr) PerspectiveServer;
          ccf = \<lparr> ErrorCode = ServerBusy \<rparr>;
          replyHdr = busyHeader ext hdr ccf sealer
      in case WriteHeader ext replyHdr (Version hdr) of
           Inl err \<Rightarrow> (Some err, s)
         | Inr hdrBytes \<Rightarrow>
             (let payloadOffset = length hdrBytes in
              case ccf_Write ext ccf (Version hdr) of
                Inl err \<Rightarrow> (Some err, s)
              | Inr frameBytes \<Rightarrow>
                  (let buf = hdrBytes @ frameBytes;
                       sealed = Seal sealer (drop payloadOffset buf) (PacketNumber replyHdr)
                                  (take payloadOffset buf);
                       raw = take (length buf + Overhead sealer) (write_at buf payloadOffset sealed)
                   in if payloadOffset < PacketNumberLen replyHdr
                      then (Some (Panic ''slice bounds out of range''), s)
                      else
                        (let pnOffset = payloadOffset - PacketNumberLen replyHdr;
                             sample = take 16 (drop (pnOffset + 4) raw);
                             pnBytes = take (payloadOffset - pnOffset) (drop pnOffset raw);
                             (firstByte, pn) = EncryptHeader sealer sample (raw ! 0) pnBytes;
                             raw1 = write_at (raw[0 := firstByte]) pnOffset (take (length pnBytes) pn)
                         in conn_WriteTo ext raw1 remote s))))"

subsection \<open>sendVersionNegotiationPacket\<close>

text \<open>\<open>utils.BigEndian.WriteUint32\<close>: the four bytes of a 32-bit number, the highest first.\<close>

definition WriteUint32 :: "32 word \<Rightarrow> bytes" where
  "WriteUint32 v = [ucast (drop_bit 24 v), ucast (drop_bit 16 v), ucast (drop_bit 8 v), ucast v]"

text \<open>Modelled from the spec: \<open>wire.ComposeVersionNegotiation\<close>, which is not part of the
  sources. The spec gives the packet as ``long-header, version=0, SCID=client's DCID,
  DCID=client's SCID, body=list of supported version u32s in the server's preference
  order'', bit-exact with RFC 9000: a first byte with the long-header bit, the version 0,
  the destination connection ID and the source connection ID, each after a byte that holds
  its length, and the versions, four bytes each. The first argument is the destination
  connection ID of the datagram, the second its source connection ID.\<close>
definition ComposeVersionNegotiation ::
  "ConnectionID \<Rightarrow> ConnectionID \<Rightarrow> VersionNumber list \<Rightarrow> error + bytes" where
  "ComposeVersionNegotiation dcid scid versions =
     Inr ([0x80] @ WriteUint32 0 @
          [of_nat (length dcid)] @ dcid @
          [of_nat (length scid)] @ scid @
          concat (map WriteUint32 versions))"





definition sendVersionNegotiationPacket ::
  "externals \<Rightarrow> baseServer \<Rightarrow> receivedPacket \<Rightarrow> Header \<Rightarrow> baseServer" where
  "sendVersionNegotiationPacket ext s p hdr =
     (case ComposeVersionNegotiation (SrcConnectionID hdr) (DestConnectionID hdr)
             (Versions (config s)) of
        Inl err \<Rightarrow> s
      | Inr dgram \<Rightarrow> snd (conn_WriteTo ext dgram (remoteAddr p) s))"

text \<open>The body of the goroutine started for a reply task.\<close>

definition run_task :: "externals \<Rightarrow> baseServer \<Rightarrow> task \<Rightarrow> baseServer" where
  "run_task ext s t =
     (case t of
        SendRetry remote hdr \<Rightarrow> snd (sendRetry ext s remote hdr)
      | SendServerBusy remote hdr \<Rightarrow> snd (sendServerBusy ext s remote hdr)
      | SendVersionNegotiationPacket p hdr \<Rightarrow> sendVersionNegotiationPacket ext s p hdr
      | other \<Rightarrow> s)"

subsection \<open>listen, Close and setCloseError\<close>

text \<open>
  \<open>listen\<close> receives the store of configs with the caller's pointer, and the random
  bytes and clock the new server will see. The packet connection is represented by the
  registry that \<open>AddConn\<close> returns for it and by \<open>WriteTo\<close>.
\<close>

definition listen ::
  "externals \<Rightarrow> protocol_defaults \<Rightarrow> config_store \<Rightarrow> bytes \<Rightarrow> Time \<Rightarrow> TLSConfig option \<Rightarrow>
     config_ptr option \<Rightarrow> bool \<Rightarrow> error + (config_store \<times> baseServer)" where
  "listen ext pd h rnd now tlsConf0 config0 acceptEarly =
     (case tlsConf0 of
        None \<Rightarrow> Inl (Error ''quic: tls.Config not set'')
      | Some tc \<Rightarrow>
          (let (h1, cp) = populateServerConfig pd h config0;
               cfg = h1 ! cp
           in case find (\<lambda>v. \<not> IsValidVersion ext v) (Versions cfg) of
                Some v \<Rightarrow> Inl (Error (VersionString ext v @ '' is not a valid QUIC version''))
              | None \<Rightarrow>
                  (case AddConn ext (ConnectionIDLength cfg) (StatelessResetKey cfg) of
                     Inl err \<Rightarrow> Inl err
                   | Inr sessionHandler \<Rightarrow>
                       (case NewTokenGenerator ext of
                          Some err \<Rightarrow> Inl err
                        | None \<Rightarrow>
                            Inr (h1,
                              \<lparr> acceptEarlySessions = acceptEarly, tlsConf = tc, config = cfg,
                                createdPacketConn = False, serverError = None,
                                errorChan_closed = False, closed = False, sessionQueueLen = 0,
                                handlers = sessionHandler, entropy = rnd, clock = now,
                                written = [], nextSession = 0,
                                trace = [Go RunLoop, SetServer] \<rparr>)))))"

definition Close :: "externals \<Rightarrow> baseServer \<Rightarrow> error option \<times> baseServer" where
  "Close ext s =
     (if closed s then (None, s)
      else
        (let s1 = emit [CloseServer] s;
             s2 = (if serverError s1 = None
                   then s1\<lparr>serverError := Some (Error ''server closed'')\<rparr> else s1);
             (err, s3) = (if createdPacketConn s2
                          then (sessionHandler_Destroy ext, emit [Destroy] s2) else (None, s2))
         in (err, s3\<lparr>closed := True, errorChan_closed := True\<rparr>)))"

definition setCloseError :: "error option \<Rightarrow> baseServer \<Rightarrow> baseServer" where
  "setCloseError e s =
     (if closed s then s
      else s\<lparr>closed := True, serverError := e, errorChan_closed := True\<rparr>)"

text \<open>
  The versions that the loop of \<open>listen\<close> checks: the \<open>Versions\<close> of the config
  that \<open>populateServerConfig\<close> returned, in terms of the caller's config.
\<close>

definition listen_versions :: "protocol_defaults \<Rightarrow> config_store \<Rightarrow> config_ptr option \<Rightarrow> VersionNumber list" where
  "listen_versions pd h config0 =
     (if Versions (config_at h config0) = [] then SupportedVersions pd
      else Versions (config_at h config0))"

section \<open>The client session cache (internal/handshake/client_session_cache.go)\<close>

definition clientSessionStateRevision :: "32 word" where
  "clientSessionStateRevision = 1"

record nonceField =
  Nonce :: bytes
  AppData :: bytes
  RTT :: Duration

text \<open>
  \<open>tls.ClientSessionState\<close>, \<open>qtls.ClientSessionState\<close> and the package's own
  \<open>clientSessionState\<close> are the same struct (the source copies one onto the other
  byte by byte): one record, with the \<open>nonce\<close> the cache rewrites and the rest of the
  fields as one opaque value.
\<close>

record ClientSessionState =
  nonce :: bytes
  otherFields :: bytes

text \<open>
  \<open>encoding/asn1\<close> of Go's standard library: \<open>Marshal\<close> of a \<open>nonceField\<close>,
  and \<open>Unmarshal\<close> into one, which returns the value and the bytes left over.
\<close>

record asn1 =
  Marshal :: "nonceField \<Rightarrow> error + bytes"
  Unmarshal :: "bytes \<Rightarrow> error + (nonceField \<times> bytes)"

text \<open>
  The cache wraps a \<open>tls.ClientSessionCache\<close>, here what its \<open>Get\<close> answers for
  each key. Then the state of the collaborators: the RTT statistics, what the callback
  \<open>getAppData\<close> returns, and the values handed to the callback \<open>setAppData\<close>.
\<close>

record clientSessionCache =
  ClientSessionCache :: "string \<Rightarrow> ClientSessionState option \<times> bool"
  smoothedRTT :: Duration
  getAppData :: bytes
  setAppData :: "bytes list"

text \<open>Modelled from the spec: \<open>Put\<close> of the wrapped \<open>tls.ClientSessionCache\<close> stores the
  session under the key, and removes the entry when called with nil; the wrapped cache is
  not part of the sources.\<close>
definition inner_Put ::
  "string \<Rightarrow> ClientSessionState option \<Rightarrow> clientSessionCache \<Rightarrow> clientSessionCache" where
  "inner_Put sessionKey cs c =
     c\<lparr>ClientSessionCache := (ClientSessionCache c)(sessionKey := (cs, cs \<noteq> None))\<rparr>"

text \<open>Modelled from the spec: \<open>RTTStats.SetInitialRTT\<close> ``sets the initial RTT'', after
  which \<open>SmoothedRTT\<close> returns it (so the test of the cache expects); package congestion
  is not part of the sources.\<close>
definition SetInitialRTT :: "Duration \<Rightarrow> clientSessionCache \<Rightarrow> clientSessionCache" where
  "SetInitialRTT t c = c\<lparr>smoothedRTT := t\<rparr>"

text \<open>\<open>binary.BigEndian.PutUint32\<close> and \<open>binary.BigEndian.Uint32\<close>.\<close>

definition PutUint32 :: "32 word \<Rightarrow> bytes" where
  "PutUint32 v = [ucast (drop_bit 24 v), ucast (drop_bit 16 v), ucast (drop_bit 8 v), ucast v]"

definition Uint32 :: "bytes \<Rightarrow> 32 word" where
  "Uint32 b = push_bit 24 (ucast (b ! 0)) OR push_bit 16 (ucast (b ! 1)) OR
              push_bit 8 (ucast (b ! 2)) OR ucast (b ! 3)"

text \<open>
  \<open>Put\<close>. The result is \<open>Some\<close> of the panic when marshalling fails. The deferred
  check of \<open>err\<close> comes after the nonce has been built, as in the source.
\<close>

definition Put ::
  "asn1 \<Rightarrow> string \<Rightarrow> ClientSessionState option \<Rightarrow> clientSessionCache \<Rightarrow>
     error option \<times> clientSessionCache" where
  "Put a sessionKey cs c =
     (case cs of
        None \<Rightarrow> (None, inner_Put sessionKey None c)
      | Some session \<Rightarrow>
          (let r = Marshal a \<lparr> Nonce = nonce session, AppData = getAppData c, RTT = smoothedRTT c \<rparr>;
               dat = (case r of Inl err \<Rightarrow> [] | Inr d \<Rightarrow> d);
               nonce1 = PutUint32 clientSessionStateRevision @ dat
           in case r of
                Inl err \<Rightarrow> (Some (Panic ''asn1: marshal failed''), c)
              | Inr d \<Rightarrow> (None, inner_Put sessionKey (Some (session\<lparr>nonce := nonce1\<rparr>)) c)))"

text \<open>\<open>Get\<close> returns the pair \<open>(*qtls.ClientSessionState, bool)\<close> and the state.\<close>

definition Get ::
  "asn1 \<Rightarrow> string \<Rightarrow> clientSessionCache \<Rightarrow> (ClientSessionState option \<times> bool) \<times> clientSessionCache" where
  "Get a sessionKey c =
     (case ClientSessionCache c sessionKey of
        (None, ok) \<Rightarrow> ((None, ok), c)
      | (Some session, ok) \<Rightarrow>
          if length (nonce session) < 4 then ((None, False), c)
          else if Uint32 (take 4 (nonce session)) \<noteq> clientSessionStateRevision
          then ((None, False), c)
          else
            (case Unmarshal a (drop 4 (nonce session)) of
               Inl err \<Rightarrow> ((None, False), c)
             | Inr (nf, rest) \<Rightarrow>
                 if length rest \<noteq> 0 then ((None, False), c)
                 else
                   (let c1 = c\<lparr>setAppData := setAppData c @ [AppData nf]\<rparr>;
                        session1 = session\<lparr>nonce := Nonce nf\<rparr>;
                        c2 = SetInitialRTT (RTT nf) c1
                    in ((Some session1, ok), c2))))"

section \<open>The accept queue and the goroutines around it\<close>

text \<open>
  The server runs as several goroutines: the packet loop \<open>run\<close>, one
  \<open>handleNewSession\<close> per created session, and the callers of \<open>accept\<close>,
  \<open>Close\<close> and \<open>setCloseError\<close>. Each goroutine is a small machine whose program
  counter names the statement it is about to execute; one step of the system is one
  atomic statement of one goroutine: a \<open>select\<close> taking one of its ready cases, an
  \<open>atomic.AddInt32\<close>, a whole call of \<open>handlePacketImpl\<close> (the only goroutine that
  calls it is \<open>run\<close>, and it reads the counter with a single atomic load), or a whole
  call of \<open>Close\<close> or \<open>setCloseError\<close> (both hold the mutex throughout).
\<close>

subsection \<open>handleNewSession\<close>

text \<open>
  Where a \<open>handleNewSession\<close> goroutine stands: in its first \<open>select\<close>, before
  \<open>atomic.AddInt32(&s.sessionQueueLen, 1)\<close>, in its second \<open>select\<close> (offering the
  session on \<open>sessionQueue\<close>), before \<open>atomic.AddInt32(&s.sessionQueueLen, -1)\<close>,
  or returned.
\<close>

datatype handleNewSession_pc = AwaitReady | BeforeAdd | Offering | BeforeWithdraw | Finished

text \<open>
  The steps it takes on its own: \<open>Ready\<close> is the case
  \<open>sess.earlySessionReady()\<close> or \<open>sess.HandshakeComplete().Done()\<close> of the first
  \<open>select\<close>, \<open>SessionDone\<close> the case \<open>sessCtx.Done()\<close> of either \<open>select\<close>,
  \<open>AddInt32\<close> the atomic addition it stands before. The send case of the second
  \<open>select\<close> needs a receiver and is a step of the system.
\<close>

datatype handleNewSession_step = Ready | SessionDone | AddInt32

fun handleNewSession ::
  "handleNewSession_step \<Rightarrow> handleNewSession_pc \<Rightarrow> baseServer \<Rightarrow> (handleNewSession_pc \<times> baseServer) option" where
  "handleNewSession Ready AwaitReady s = Some (BeforeAdd, s)"
| "handleNewSession SessionDone AwaitReady s = Some (Finished, s)"
| "handleNewSession AddInt32 BeforeAdd s =
     Some (Offering, s\<lparr>sessionQueueLen := sessionQueueLen s + 1\<rparr>)"
| "handleNewSession SessionDone Offering s = Some (BeforeWithdraw, s)"
| "handleNewSession AddInt32 BeforeWithdraw s =
     Some (Finished, s\<lparr>sessionQueueLen := sessionQueueLen s - 1\<rparr>)"
| "handleNewSession a pc s = None"

subsection \<open>accept\<close>

text \<open>
  What a call of \<open>accept\<close> returns: \<open>(sess, nil)\<close>, \<open>(nil, s.serverError)\<close> with
  the value that field holds, or \<open>(nil, ctx.Err())\<close>.
\<close>

datatype accept_result =
    Session quicSession
  | ServerError "error option"
  | ContextError

text \<open>
  Where a call of \<open>accept\<close> stands: in its \<open>select\<close>, before
  \<open>atomic.AddInt32(&s.sessionQueueLen, -1)\<close> with the session it received, or returned.
\<close>

datatype accept_pc = InSelect | BeforeSub quicSession | Returned accept_result

text \<open>
  The steps it takes on its own: the case \<open>ctx.Done()\<close>, the case \<open>s.errorChan\<close>
  (ready once the channel is closed), and the atomic subtraction. The receive case needs
  a sender and is a step of the system.
\<close>

datatype accept_step = CtxDone | ErrorChan | SubInt32

fun accept :: "accept_step \<Rightarrow> accept_pc \<Rightarrow> baseServer \<Rightarrow> (accept_pc \<times> baseServer) option" where
  "accept CtxDone InSelect s = Some (Returned ContextError, s)"
| "accept ErrorChan InSelect s =
     (if errorChan_closed s then Some (Returned (ServerError (serverError s)), s) else None)"
| "accept SubInt32 (BeforeSub sess) s =
     Some (Returned (Session sess), s\<lparr>sessionQueueLen := sessionQueueLen s - 1\<rparr>)"
| "accept a pc s = None"

subsection \<open>The system\<close>

text \<open>
  Where the goroutine \<open>run\<close> stands: in the first \<open>select\<close> of its loop (the one
  with \<open>default\<close>), in the second, returned, or ended by a panic (which ends the
  program).
\<close>

datatype run_pc = FirstSelect | SecondSelect | Exited | Panicked

record system =
  server :: baseServer
  intake :: run_pc
  handoffs :: "(quicSession \<times> handleNewSession_pc) list"
  calls :: "accept_pc list"

text \<open>The state that \<open>listen\<close> leaves: \<open>go s.run()\<close> has been started, nothing else.\<close>

definition start :: "baseServer \<Rightarrow> system" where
  "start s = \<lparr> server = s, intake = FirstSelect, handoffs = [], calls = [] \<rparr>"

text \<open>The sessions for which a list of events starts \<open>handleNewSession\<close>.\<close>

fun started :: "event list \<Rightarrow> quicSession list" where
  "started [] = []"
| "started (Go (HandleNewSession sess) # es) = sess # started es"
| "started (e # es) = started es"

text \<open>
  The steps of the system. \<open>Poll\<close> is the first \<open>select\<close> of \<open>run\<close>,
  \<open>Receive p\<close> the case of the second that receives \<open>p\<close> from
  \<open>receivedPackets\<close> and handles it, \<open>Quit\<close> its case \<open>s.errorChan\<close>;
  \<open>Handoff i a\<close> and \<open>Accept j a\<close> are steps of the \<open>i\<close>-th
  \<open>handleNewSession\<close> and the \<open>j\<close>-th call of \<open>accept\<close>; \<open>Call\<close> is a
  new call of \<open>accept\<close>; \<open>Deliver i j\<close> is the rendezvous on \<open>sessionQueue\<close>
  between the send of the \<open>i\<close>-th \<open>handleNewSession\<close> and the receive of the
  \<open>j\<close>-th \<open>accept\<close>; \<open>CallClose\<close> and \<open>CallSetCloseError e\<close> are calls of
  \<open>Close\<close> and \<open>setCloseError\<close>.
\<close>

datatype action =
    Poll
  | Receive receivedPacket
  | Quit
  | Handoff nat handleNewSession_step
  | Call
  | Accept nat accept_step
  | Deliver nat nat
  | CallClose
  | CallSetCloseError "error option"

text \<open>\<open>step\<close> is \<open>None\<close> for a step that the state does not allow.\<close>

definition step :: "externals \<Rightarrow> action \<Rightarrow> system \<Rightarrow> system option" where
  "step ext a st =
     (if intake st = Panicked then None
      else case a of
        Poll \<Rightarrow>
          if intake st = FirstSelect
          then Some (st\<lparr>intake := (if errorChan_closed (server st) then Exited else SecondSelect)\<rparr>)
          else None
      | Receive p \<Rightarrow>
          if intake st = SecondSelect
          then (case run_packet ext (server st) p of
                  (Inl err, s1) \<Rightarrow> Some (st\<lparr>server := s1, intake := Panicked\<rparr>)
                | (Inr u, s1) \<Rightarrow>
                    Some (st\<lparr>server := s1, intake := FirstSelect,
                            handoffs := handoffs st @
                              map (\<lambda>sess. (sess, AwaitReady))
                                (started (drop (length (trace (server st))) (trace s1)))\<rparr>))
          else None
      | Quit \<Rightarrow>
          if intake st = SecondSelect \<and> errorChan_closed (server st)
          then Some (st\<lparr>intake := Exited\<rparr>)
          else None
      | Handoff i b \<Rightarrow>
          if i < length (handoffs st)
          then (case handleNewSession b (snd (handoffs st ! i)) (server st) of
                  None \<Rightarrow> None
                | Some (pc, s1) \<Rightarrow>
                    Some (st\<lparr>server := s1,
                            handoffs := (handoffs st)[i := (fst (handoffs st ! i), pc)]\<rparr>))
          else None
      | Call \<Rightarrow> Some (st\<lparr>calls := calls st @ [InSelect]\<rparr>)
      | Accept j b \<Rightarrow>
          if j < length (calls st)
          then (case accept b (calls st ! j) (server st) of
                  None \<Rightarrow> None
                | Some (pc, s1) \<Rightarrow> Some (st\<lparr>server := s1, calls := (calls st)[j := pc]\<rparr>))
          else None
      | Deliver i j \<Rightarrow>
          if i < length (handoffs st) \<and> snd (handoffs st ! i) = Offering \<and>
             j < length (calls st) \<and> calls st ! j = InSelect
          then Some (st\<lparr>handoffs := (handoffs st)[i := (fst (handoffs st ! i), Finished)],
                        calls := (calls st)[j := BeforeSub (fst (handoffs st ! i))]\<rparr>)
          else None
      | CallClose \<Rightarrow> Some (st\<lparr>server := snd (Close ext (server st))\<rparr>)
      | CallSetCloseError e \<Rightarrow> Some (st\<lparr>server := setCloseError e (server st)\<rparr>))"

text \<open>A run of the system: the steps of a list taken in order.\<close>

fun exec :: "externals \<Rightarrow> action list \<Rightarrow> system \<Rightarrow> system option" where
  "exec ext [] st = Some st"
| "exec ext (a # as) st = (case step ext a st of None \<Rightarrow> None | Some st1 \<Rightarrow> exec ext as st1)"

text \<open>
  The sessions for which the counter has been incremented and the matching decrement
  has not been executed yet: those on offer, those withdrawn whose
  \<open>handleNewSession\<close> stands before its decrement, and those received by a call of
  \<open>accept\<close> that stands before its decrement.
\<close>

definition counted_handoff :: "quicSession \<times> handleNewSession_pc \<Rightarrow> bool" where
  "counted_handoff h = (snd h = Offering \<or> snd h = BeforeWithdraw)"

fun counted_call :: "accept_pc \<Rightarrow> bool" where
  "counted_call (BeforeSub sess) = True"
| "counted_call pc = False"

definition counted :: "system \<Rightarrow> nat" where
  "counted st = length (filter counted_handoff (handoffs st)) + length (filter counted_call (calls st))"

text \<open>The sessions on offer: what a receive from \<open>sessionQueue\<close> can take.\<close>

definition offered :: "system \<Rightarrow> quicSession list" where
  "offered st = map fst (filter (\<lambda>h. snd h = Offering) (handoffs st))"

text \<open>
  The decrements that are due: goroutines that stand after a withdrawal or a receive and
  before the \<open>atomic.AddInt32(&s.sessionQueueLen, -1)\<close> that follows it.
\<close>

definition pending :: "system \<Rightarrow> nat" where
  "pending st = length (filter (\<lambda>h. snd h = BeforeWithdraw) (handoffs st)) +
                length (filter counted_call (calls st))"

section \<open>Concrete inputs used by the witnesses\<close>

definition demo_defaults :: protocol_defaults where
  "demo_defaults = \<lparr> SupportedVersions = [0xff00001b],
     DefaultMaxReceiveStreamFlowControlWindow = 524288,
     DefaultMaxReceiveConnectionFlowControlWindow = 786432,
     DefaultMaxIncomingStreams = 100,
     DefaultMaxIncomingUniStreams = 100 \<rparr>"

definition demo_config :: Config where
  "demo_config = zeroConfig \<lparr> MaxIncomingStreams := - 5, HandshakeTimeout := 7 \<rparr>"

definition demo_hdr :: Header where
  "demo_hdr = \<lparr> IsLongHeader = True, Type = PacketTypeInitial, Version = 0xff00001b,
     SrcConnectionID = [1, 2, 3, 4], DestConnectionID = [8, 7, 6, 5, 4, 3, 2, 1],
     Length = 1100, Token = [] \<rparr>"

definition demo_tag :: bytes16 where
  "demo_tag = Abs_bytes16 (replicate 16 0)"

definition demo_sealer :: LongHeaderSealer where
  "demo_sealer = \<lparr> Seal = (\<lambda>src pn ad. map (\<lambda>b. b + 1) src @ replicate 16 170),
     EncryptHeader = (\<lambda>sample firstByte pn. (firstByte XOR 1, map (\<lambda>b. b XOR 85) pn)),
     Overhead = 16 \<rparr>"

definition demo_ext :: externals where
  "demo_ext = \<lparr> ParsePacket = (\<lambda>d n. Inr demo_hdr),
     IsValidVersion = (\<lambda>v. v = 0xff00001b),
     VersionString = (\<lambda>v. ''draft''),
     DecodeToken = (\<lambda>b. Inl (Error ''invalid token'')),
     NewRetryToken = (\<lambda>a c. Inr (c @ [9])),
     NewTokenGenerator = None,
     WriteHeader = (\<lambda>h v. Inr ([192, 0] @ DestConnectionID h @ SrcConnectionID h @ Token h)),
     GetRetryIntegrityTag = (\<lambda>b c. demo_tag),
     GetStatelessResetToken = (\<lambda>c. demo_tag),
     NewInitialAEAD = (\<lambda>c p. demo_sealer),
     ccf_Length = (\<lambda>f v. 3),
     ccf_Write = (\<lambda>f v. Inr [28, 2, 0]),
     AddConn = (\<lambda>n k. Inr Map.empty),
     sessionHandler_Destroy = None,
     WriteTo = (\<lambda>b a. None) \<rparr>"

definition demo_server :: baseServer where
  "demo_server = \<lparr> acceptEarlySessions = False, tlsConf = \<lparr> NextProtos = [''h3''] \<rparr>,
     config = serverDefaults (populateConfig_literal demo_defaults zeroConfig),
     createdPacketConn = False, serverError = None, errorChan_closed = False, closed = False,
     sessionQueueLen = 0, handlers = Map.empty, entropy = [11, 12, 13, 14, 15, 16, 17, 18],
     clock = 1000, written = [], nextSession = 0, trace = [] \<rparr>"

definition demo_packet :: receivedPacket where
  "demo_packet = \<lparr> remoteAddr = UDPAddr ''192.0.2.1'' 4433, rcvTime = 990,
     data = replicate 1200 0, buffer = 7 \<rparr>"

definition demo_open_server :: baseServer where
  "demo_open_server = demo_server\<lparr>config := (config demo_server)\<lparr>AcceptToken := Some (\<lambda>now a t. True)\<rparr>\<rparr>"


text \<open>
  A server whose registry already holds, for another session, the connection ID that the
  random source will deliver next.
\<close>

definition demo_other_session :: quicSession where
  "demo_other_session = \<lparr> sessID = 41, currentAddr = UDPAddr ''198.51.100.7'' 50000,
     origDestConnID = [], clientDestConnID = [9, 9, 9, 9, 9, 9, 9, 9], destConnID = [5, 5, 5, 5],
     srcConnID = [11, 12, 13, 14], statelessResetToken = demo_tag, enable0RTT = False,
     version = 0xff00001b \<rparr>"

definition demo_taken_server :: baseServer where
  "demo_taken_server =
     demo_open_server\<lparr>handlers := [[11, 12, 13, 14] \<mapsto> demo_other_session], nextSession := 42\<rparr>"

text \<open>
  A DER codec for \<open>nonceField\<close> values whose parts are shorter than 128 bytes and whose
  RTT is below 128, enough to run the cache on concrete sessions.
\<close>

definition der_octets :: "bytes \<Rightarrow> bytes" where
  "der_octets xs = 4 # of_nat (length xs) # xs"

definition der_marshal :: "nonceField \<Rightarrow> error + bytes" where
  "der_marshal nf =
     (let body = der_octets (Nonce nf) @ der_octets (AppData nf) @ [2, 1, of_int (RTT nf)]
      in if length (Nonce nf) < 128 \<and> length (AppData nf) < 128 \<and> 0 \<le> RTT nf \<and> RTT nf < 128 \<and>
            length body < 128
         then Inr (48 # of_nat (length body) # body)
         else Inl (Error ''asn1: structure too large for this codec''))"

definition der_take_octets :: "bytes \<Rightarrow> (bytes \<times> bytes) option" where
  "der_take_octets b =
     (case b of
        t # l # r \<Rightarrow> if t = 4 \<and> unat l < 128 \<and> unat l \<le> length r
                     then Some (take (unat l) r, drop (unat l) r) else None
      | other \<Rightarrow> None)"

definition der_unmarshal :: "bytes \<Rightarrow> error + (nonceField \<times> bytes)" where
  "der_unmarshal b =
     (case b of
        t # l # r \<Rightarrow>
          if t = 48 \<and> unat l < 128 \<and> unat l \<le> length r
          then (case der_take_octets (take (unat l) r) of
                  None \<Rightarrow> Inl (Error ''asn1: structure error'')
                | Some (n, r1) \<Rightarrow>
                    (case der_take_octets r1 of
                       None \<Rightarrow> Inl (Error ''asn1: structure error'')
                     | Some (ad, r2) \<Rightarrow>
                         (case r2 of
                            [t2, l2, v] \<Rightarrow>
                              if t2 = 2 \<and> l2 = 1 \<and> unat v < 128
                              then Inr (\<lparr> Nonce = n, AppData = ad, RTT = uint v \<rparr>, drop (unat l) r)
                              else Inl (Error ''asn1: structure error'')
                          | other \<Rightarrow> Inl (Error ''asn1: structure error''))))
          else Inl (Error ''asn1: syntax error'')
      | other \<Rightarrow> Inl (Error ''asn1: syntax error''))"

definition demo_asn1 :: asn1 where
  "demo_asn1 = \<lparr> Marshal = der_marshal, Unmarshal = der_unmarshal \<rparr>"

definition demo_session_state :: ClientSessionState where
  "demo_session_state = \<lparr> nonce = [7, 7, 7], otherFields = [1, 2] \<rparr>"

definition demo_cache :: clientSessionCache where
  "demo_cache = \<lparr> ClientSessionCache = (\<lambda>k. (None, False)), smoothedRTT = 10,
     getAppData = [102, 111, 111], setAppData = [] \<rparr>"

text \<open>
  A burst of Initials: packet \<open>i\<close> carries the destination connection ID made of
  eight bytes \<open>i\<close>; the parser reads it from the datagram. \<open>flood n\<close> lets \<open>n\<close>
  of them arrive, and then lets the \<open>n\<close> sessions become ready one after the other.
\<close>


definition flood_packet :: "nat \<Rightarrow> receivedPacket" where
  "flood_packet i = \<lparr> remoteAddr = UDPAddr ''192.0.2.1'' (4433 + i), rcvTime = 990,
     data = replicate 1200 (of_nat i), buffer = i \<rparr>"

definition flood_ext :: externals where
  "flood_ext = demo_ext\<lparr>ParsePacket := (\<lambda>d n. Inr (demo_hdr\<lparr>DestConnectionID := take 8 d\<rparr>))\<rparr>"

definition flood_server :: baseServer where
  "flood_server = demo_open_server\<lparr>entropy := concat (map (\<lambda>i. [0, 0, 1, of_nat i]) [0..<33])\<rparr>"

fun arrivals :: "nat \<Rightarrow> action list" where
  "arrivals 0 = []"
| "arrivals (Suc n) = arrivals n @ [Poll, Receive (flood_packet n)]"

fun completions :: "nat \<Rightarrow> action list" where
  "completions 0 = []"
| "completions (Suc n) = completions n @ [Handoff n Ready, Handoff n AddInt32]"

definition flood :: "nat \<Rightarrow> action list" where
  "flood n = arrivals n @ completions n"

text \<open>The session that the server creates for the first packet of the burst.\<close>


definition flood_session :: quicSession where
  "flood_session = \<lparr> sessID = 0, currentAddr = UDPAddr ''192.0.2.1'' 4433, origDestConnID = [],
     clientDestConnID = [0, 0, 0, 0, 0, 0, 0, 0], destConnID = [1, 2, 3, 4],
     srcConnID = [0, 0, 1, 0], statelessResetToken = demo_tag, enable0RTT = False,
     version = 0xff00001b \<rparr>"


section \<open>Defaulting of the configuration\<close>

lemma populateConfig_result:
  assumes "valid_ptr h p"
  shows "populateConfig pd h p =
     ((case p of None \<Rightarrow> h @ [zeroConfig] | Some a \<Rightarrow> h) @ [populateConfig_literal pd (config_at h p)],
      length (case p of None \<Rightarrow> h @ [zeroConfig] | Some a \<Rightarrow> h))"
  using assms
  by (cases p) (simp_all add: populateConfig_def alloc_def config_at_def valid_ptr_def)

lemma literal_ConnectionIDLength:
  "ConnectionIDLength (populateConfig_literal pd c) = ConnectionIDLength c"
  by (simp add: populateConfig_literal_def)

lemma literal_AcceptToken:
  "AcceptToken (populateConfig_literal pd c) = AcceptToken c"
  by (simp add: populateConfig_literal_def)

lemma populateServerConfig_result:
  assumes "valid_ptr h p"
  shows "populateServerConfig pd h p =
     ((case p of None \<Rightarrow> h @ [zeroConfig] | Some a \<Rightarrow> h) @
        [serverDefaults (populateConfig_literal pd (config_at h p))],
      length (case p of None \<Rightarrow> h @ [zeroConfig] | Some a \<Rightarrow> h))"
  unfolding populateServerConfig_def populateConfig_result [OF assms] serverDefaults_def
  by (simp add: Let_def)

lemma serverDefaults_fields:
  "Versions (serverDefaults l) = Versions l"
  "HandshakeTimeout (serverDefaults l) = HandshakeTimeout l"
  "MaxIdleTimeout (serverDefaults l) = MaxIdleTimeout l"
  "MaxReceiveStreamFlowControlWindow (serverDefaults l) = MaxReceiveStreamFlowControlWindow l"
  "MaxReceiveConnectionFlowControlWindow (serverDefaults l) = MaxReceiveConnectionFlowControlWindow l"
  "MaxIncomingStreams (serverDefaults l) = MaxIncomingStreams l"
  "MaxIncomingUniStreams (serverDefaults l) = MaxIncomingUniStreams l"
  "KeepAlive (serverDefaults l) = KeepAlive l"
  "StatelessResetKey (serverDefaults l) = StatelessResetKey l"
  "TokenStore (serverDefaults l) = TokenStore l"
  "QuicTracer (serverDefaults l) = QuicTracer l"
  "ConnectionIDLength (serverDefaults l) =
     (if ConnectionIDLength l = 0 then DefaultConnectionIDLength else ConnectionIDLength l)"
  "AcceptToken (serverDefaults l) =
     (if AcceptToken l = None then Some defaultAcceptToken else AcceptToken l)"
  by (simp_all add: serverDefaults_def Let_def)

lemma literal_fields:
  "Versions (populateConfig_literal pd c) = (if Versions c = [] then SupportedVersions pd else Versions c)"
  "HandshakeTimeout (populateConfig_literal pd c) =
     (if HandshakeTimeout c = 0 then DefaultHandshakeTimeout else HandshakeTimeout c)"
  "MaxIdleTimeout (populateConfig_literal pd c) =
     (if MaxIdleTimeout c = 0 then DefaultIdleTimeout else MaxIdleTimeout c)"
  "MaxReceiveStreamFlowControlWindow (populateConfig_literal pd c) =
     (if MaxReceiveStreamFlowControlWindow c = 0 then DefaultMaxReceiveStreamFlowControlWindow pd
      else MaxReceiveStreamFlowControlWindow c)"
  "MaxReceiveConnectionFlowControlWindow (populateConfig_literal pd c) =
     (if MaxReceiveConnectionFlowControlWindow c = 0 then DefaultMaxReceiveConnectionFlowControlWindow pd
      else MaxReceiveConnectionFlowControlWindow c)"
  "MaxIncomingStreams (populateConfig_literal pd c) =
     (if MaxIncomingStreams c = 0 then DefaultMaxIncomingStreams pd
      else if MaxIncomingStreams c < 0 then 0 else MaxIncomingStreams c)"
  "MaxIncomingUniStreams (populateConfig_literal pd c) =
     (if MaxIncomingUniStreams c = 0 then DefaultMaxIncomingUniStreams pd
      else if MaxIncomingUniStreams c < 0 then 0 else MaxIncomingUniStreams c)"
  "KeepAlive (populateConfig_literal pd c) = KeepAlive c"
  "StatelessResetKey (populateConfig_literal pd c) = StatelessResetKey c"
  "TokenStore (populateConfig_literal pd c) = TokenStore c"
  "QuicTracer (populateConfig_literal pd c) = QuicTracer c"
  "ConnectionIDLength (populateConfig_literal pd c) = ConnectionIDLength c"
  "AcceptToken (populateConfig_literal pd c) = AcceptToken c"
  by (simp_all add: populateConfig_literal_def)

lemma populateServerConfig_frame:
  assumes "valid_ptr h p"
  shows "take (length h) (fst (populateServerConfig pd h p)) = h"
  unfolding populateServerConfig_result [OF assms]
  by (simp split: option.split)

text \<open>
  Claim C9. \<open>populateServerConfig\<close> never writes to a cell the caller can reach: the
  store it returns extends the caller's store (so the caller's config, if any, is
  unchanged) and the result is a freshly allocated cell. In that cell an empty version
  list has become the built-in list, zero timeouts and flow-control windows their
  defaults, a zero connection ID length the default length, a nil \<open>AcceptToken\<close> the
  function \<open>defaultAcceptToken\<close>, a zero stream limit its default and a negative one 0;
  all other fields are copied. A nil argument stands for the zero config.
\<close>

theorem populateServerConfig_defaults:
  assumes "valid_ptr h p" and "populateServerConfig pd h p = (h', q)"
  shows "take (length h) h' = h \<and> length h \<le> q \<and> q < length h' \<and>
    Versions (h' ! q) = (if Versions (config_at h p) = [] then SupportedVersions pd else Versions (config_at h p)) \<and>
    HandshakeTimeout (h' ! q) = (if HandshakeTimeout (config_at h p) = 0 then DefaultHandshakeTimeout else HandshakeTimeout (config_at h p)) \<and>
    MaxIdleTimeout (h' ! q) = (if MaxIdleTimeout (config_at h p) = 0 then DefaultIdleTimeout else MaxIdleTimeout (config_at h p)) \<and>
    MaxReceiveStreamFlowControlWindow (h' ! q) = (if MaxReceiveStreamFlowControlWindow (config_at h p) = 0
         then DefaultMaxReceiveStreamFlowControlWindow pd else MaxReceiveStreamFlowControlWindow (config_at h p)) \<and>
    MaxReceiveConnectionFlowControlWindow (h' ! q) = (if MaxReceiveConnectionFlowControlWindow (config_at h p) = 0
         then DefaultMaxReceiveConnectionFlowControlWindow pd else MaxReceiveConnectionFlowControlWindow (config_at h p)) \<and>
    MaxIncomingStreams (h' ! q) = (if MaxIncomingStreams (config_at h p) = 0 then DefaultMaxIncomingStreams pd
         else if MaxIncomingStreams (config_at h p) < 0 then 0 else MaxIncomingStreams (config_at h p)) \<and>
    MaxIncomingUniStreams (h' ! q) = (if MaxIncomingUniStreams (config_at h p) = 0 then DefaultMaxIncomingUniStreams pd
         else if MaxIncomingUniStreams (config_at h p) < 0 then 0 else MaxIncomingUniStreams (config_at h p)) \<and>
    ConnectionIDLength (h' ! q) = (if ConnectionIDLength (config_at h p) = 0 then DefaultConnectionIDLength
         else ConnectionIDLength (config_at h p)) \<and>
    AcceptToken (h' ! q) = (if AcceptToken (config_at h p) = None then Some defaultAcceptToken
         else AcceptToken (config_at h p)) \<and>
    KeepAlive (h' ! q) = KeepAlive (config_at h p) \<and>
    StatelessResetKey (h' ! q) = StatelessResetKey (config_at h p) \<and>
    TokenStore (h' ! q) = TokenStore (config_at h p) \<and>
    QuicTracer (h' ! q) = QuicTracer (config_at h p)"
proof -
  define h1 where "h1 = (case p of None \<Rightarrow> h @ [zeroConfig] | Some a \<Rightarrow> h)"
  define r where "r = serverDefaults (populateConfig_literal pd (config_at h p))"
  have res: "h' = h1 @ [r]" "q = length h1"
    using assms(2) unfolding populateServerConfig_result [OF assms(1)] h1_def r_def by simp_all
  have cell: "h' ! q = r" by (simp add: res)
  have len: "length h \<le> length h1" and pre: "take (length h) h1 = h"
    by (simp_all add: h1_def split: option.split)
  have frame: "take (length h) h' = h"
    using len pre by (simp add: res)
  have fresh: "length h \<le> q \<and> q < length h'"
    using len by (simp add: res)
  show ?thesis
    unfolding cell r_def serverDefaults_fields literal_fields
    using frame fresh by simp
qed


theorem populateServerConfig_defaults_witness:
  "valid_ptr [demo_config] (Some 0) \<and>
   fst (populateServerConfig demo_defaults [demo_config] (Some 0)) ! 0 = demo_config \<and>
   0 < snd (populateServerConfig demo_defaults [demo_config] (Some 0)) \<and>
   MaxIncomingStreams (fst (populateServerConfig demo_defaults [demo_config] (Some 0)) !
      snd (populateServerConfig demo_defaults [demo_config] (Some 0))) = 0 \<and>
   MaxIncomingUniStreams (fst (populateServerConfig demo_defaults [demo_config] (Some 0)) !
      snd (populateServerConfig demo_defaults [demo_config] (Some 0))) = 100 \<and>
   HandshakeTimeout (fst (populateServerConfig demo_defaults [demo_config] (Some 0)) !
      snd (populateServerConfig demo_defaults [demo_config] (Some 0))) = 7 \<and>
   ConnectionIDLength (fst (populateServerConfig demo_defaults [demo_config] (Some 0)) !
      snd (populateServerConfig demo_defaults [demo_config] (Some 0))) = 4 \<and>
   Versions (fst (populateServerConfig demo_defaults [demo_config] (Some 0)) !
      snd (populateServerConfig demo_defaults [demo_config] (Some 0))) = [0xff00001b]"
proof -
  have v: "valid_ptr [demo_config] (Some 0)"
    by (simp add: valid_ptr_def)
  obtain h' q where r: "populateServerConfig demo_defaults [demo_config] (Some 0) = (h', q)"
    by (cases "populateServerConfig demo_defaults [demo_config] (Some 0)") simp
  note d = populateServerConfig_defaults [OF v r]
  have c: "config_at [demo_config] (Some 0) = demo_config"
    by (simp add: config_at_def)
  from d have "take 1 h' = [demo_config]" by simp
  then have "h' ! 0 = demo_config"
    by (cases h') simp_all
  moreover from d have "0 < q" by simp
  moreover from d have "MaxIncomingStreams (h' ! q) = 0"
    unfolding c by (simp add: demo_config_def zeroConfig_def)
  moreover from d have "MaxIncomingUniStreams (h' ! q) = 100"
    unfolding c by (simp add: demo_config_def zeroConfig_def demo_defaults_def)
  moreover from d have "HandshakeTimeout (h' ! q) = 7"
    unfolding c by (simp add: demo_config_def zeroConfig_def)
  moreover from d have "ConnectionIDLength (h' ! q) = 4"
    unfolding c by (simp add: demo_config_def zeroConfig_def DefaultConnectionIDLength_def)
  moreover from d have "Versions (h' ! q) = [0xff00001b]"
    unfolding c by (simp add: demo_config_def zeroConfig_def demo_defaults_def)
  ultimately show ?thesis
    using v by (simp add: r)
qed


section \<open>The intake path\<close>

lemma conn_WriteTo_ok:
  "WriteTo ext b a = None \<Longrightarrow> conn_WriteTo ext b a s = (None, s\<lparr>written := written s @ [(b, a)]\<rparr>)"
  by (simp add: conn_WriteTo_def)

lemma GenerateConnectionID_length:
  assumes "GenerateConnectionID len s = (Inr connID, s1)"
  shows "int (length connID) = len"
  using assms by (auto simp: GenerateConnectionID_def split: if_splits)

lemma GenerateConnectionID_frame:
  assumes "GenerateConnectionID len s = (r, s1)"
  shows "handlers s1 = handlers s \<and> trace s1 = trace s \<and> nextSession s1 = nextSession s \<and>
         acceptEarlySessions s1 = acceptEarlySessions s \<and> config s1 = config s \<and>
         written s1 = written s \<and> sessionQueueLen s1 = sessionQueueLen s"
  using assms by (auto simp: GenerateConnectionID_def split: if_splits)

lemma newSession_cong:
  "nextSession s1 = nextSession s \<Longrightarrow> acceptEarlySessions s1 = acceptEarlySessions s \<Longrightarrow>
   newSession ext s1 remote origDest clientDest dest src ver =
   newSession ext s remote origDest clientDest dest src ver"
  by (simp add: newSession_def)

lemma createNewSession_refused:
  assumes "handlers s clientDest = Some other"
  shows "fst (createNewSession ext s remote origDest clientDest dest src ver) = None"
    and "trace (snd (createNewSession ext s remote origDest clientDest dest src ver)) =
           trace s @ [NewSession (newSession ext s remote origDest clientDest dest src ver),
                      Add clientDest (newSession ext s remote origDest clientDest dest src ver) False]"
    and "handlers (snd (createNewSession ext s remote origDest clientDest dest src ver)) = handlers s"
  using assms by (simp_all add: createNewSession_def sessionHandler_Add_def emit_def Let_def)

lemma createNewSession_added:
  assumes "handlers s clientDest = None"
  shows "fst (createNewSession ext s remote origDest clientDest dest src ver) =
           Some (newSession ext s remote origDest clientDest dest src ver)"
    and "trace (snd (createNewSession ext s remote origDest clientDest dest src ver)) =
           trace s @ [NewSession (newSession ext s remote origDest clientDest dest src ver),
                      Add clientDest (newSession ext s remote origDest clientDest dest src ver) True,
                      Add src (newSession ext s remote origDest clientDest dest src ver)
                         (src \<noteq> clientDest \<and> handlers s src = None),
                      Go (RunSession (newSession ext s remote origDest clientDest dest src ver)),
                      Go (HandleNewSession (newSession ext s remote origDest clientDest dest src ver))]"
    and "handlers (snd (createNewSession ext s remote origDest clientDest dest src ver)) clientDest =
           Some (newSession ext s remote origDest clientDest dest src ver)"
    and "handlers s src = None \<Longrightarrow>
         handlers (snd (createNewSession ext s remote origDest clientDest dest src ver)) src =
           Some (newSession ext s remote origDest clientDest dest src ver)"
  using assms
  by (auto simp: createNewSession_def sessionHandler_Add_def emit_def Let_def split: option.splits)


lemma createNewSession_second_Add:
  assumes "handlers s clientDest = None"
  shows "handlers (snd (createNewSession ext s remote origDest clientDest dest src ver)) src =
           (if src = clientDest \<or> handlers s src = None
            then Some (newSession ext s remote origDest clientDest dest src ver)
            else handlers s src)"
  using assms
  by (auto simp: createNewSession_def sessionHandler_Add_def emit_def Let_def split: option.splits)

lemma handleInitialImpl_admitted:
  assumes pass: "\<not> (length (Token hdr) = 0 \<and> length (DestConnectionID hdr) < MinConnectionIDLenInitial)"
      and acc: "AcceptToken (config s) = Some acceptToken"
               "acceptToken (clock s) (remoteAddr p) (fst (decodedToken ext hdr))"
      and queue: "\<not> MaxAcceptQueueSize \<le>s sessionQueueLen s"
      and gen: "GenerateConnectionID (ConnectionIDLength (config s)) s = (Inr connID, s1)"
      and cns: "createNewSession ext s1 (remoteAddr p) (snd (decodedToken ext hdr))
             (DestConnectionID hdr) (SrcConnectionID hdr) connID (Version hdr) = (r, s2)"
  shows "handleInitialImpl ext s p hdr =
     (Inr r, case r of None \<Rightarrow> s2 | Some sess \<Rightarrow> emit [HandlePacket sess p] s2)"
proof -
  obtain tok od where dt: "decodedToken ext hdr = (tok, od)"
    by (cases "decodedToken ext hdr") simp
  show ?thesis
    using assms by (cases r) (simp_all add: handleInitialImpl_def dt)
qed

lemma handleInitialImpl_registered:
  assumes "handlers s (DestConnectionID hdr) = Some other"
  shows "(\<forall>sess. fst (handleInitialImpl ext s p hdr) \<noteq> Inr (Some sess)) \<and>
         handlers (snd (handleInitialImpl ext s p hdr)) = handlers s"
proof -
  obtain tok od where dt: "decodedToken ext hdr = (tok, od)"
    by (cases "decodedToken ext hdr") simp
  obtain r s1 where gen: "GenerateConnectionID (ConnectionIDLength (config s)) s = (r, s1)"
    by (cases "GenerateConnectionID (ConnectionIDLength (config s)) s") simp
  note fr = GenerateConnectionID_frame [OF gen]
  show ?thesis
  proof (cases r)
    case (Inl err)
    then show ?thesis
      using gen fr by (simp add: handleInitialImpl_def dt emit_def split: option.splits)
  next
    case (Inr connID)
    have h1: "handlers s1 (DestConnectionID hdr) = Some other"
      using assms fr by simp
    obtain r2 s2 where cns: "createNewSession ext s1 (remoteAddr p) od
             (DestConnectionID hdr) (SrcConnectionID hdr) connID (Version hdr) = (r2, s2)"
      by (cases "createNewSession ext s1 (remoteAddr p) od
             (DestConnectionID hdr) (SrcConnectionID hdr) connID (Version hdr)") simp
    have r2: "r2 = None" and h2: "handlers s2 = handlers s"
      using createNewSession_refused(1,3) [OF h1, where ext = ext and remote = "remoteAddr p"
                 and origDest = od and dest = "SrcConnectionID hdr"
                 and src = connID and ver = "Version hdr"]
        cns fr by simp_all
    show ?thesis
      using gen Inr cns r2 h2
      by (simp add: handleInitialImpl_def dt emit_def split: option.splits)
  qed
qed



lemma demo_tag_bytes: "Rep_bytes16 demo_tag = replicate 16 0"
  unfolding demo_tag_def by (rule Abs_bytes16_inverse) simp

lemma demo_server_config:
  "ConnectionIDLength (config demo_server) = 4"
  "AcceptToken (config demo_server) = Some defaultAcceptToken"
  "Versions (config demo_server) = [0xff00001b]"
  by (simp_all add: demo_server_def serverDefaults_def populateConfig_literal_def zeroConfig_def
        DefaultConnectionIDLength_def demo_defaults_def)


text \<open>
  Claim C5. A datagram shorter than \<open>MinInitialPacketSize\<close>, one whose header does
  not parse, and one with a short header are dropped by \<open>handlePacketImpl\<close>: it
  returns false and leaves the server as it was (no goroutine for a reply is started, no
  session is made, the registry is unchanged), so that the loop of \<open>run\<close> releases
  the buffer of the packet and goes on. For a short datagram this is so whatever the
  parser would answer: the parser is not consulted.
\<close>

theorem handlePacketImpl_drops:
  assumes "length (data p) < MinInitialPacketSize \<or>
           (case ParsePacket ext (data p) (ConnectionIDLength (config s)) of
              Inl err \<Rightarrow> True | Inr hdr \<Rightarrow> \<not> IsLongHeader hdr)"
  shows "handlePacketImpl ext s p = (Inr False, s) \<and>
         run_packet ext s p = (Inr (), emit [Release (buffer p)] s) \<and>
         (\<not> errorChan_closed s \<longrightarrow> run ext s [p] = (Inr (), emit [Release (buffer p)] s)) \<and>
         (length (data p) < MinInitialPacketSize \<longrightarrow>
            (\<forall>ext'. handlePacketImpl ext' s p = (Inr False, s)))"
proof -
  have h: "handlePacketImpl ext s p = (Inr False, s)"
    using assms by (auto simp: handlePacketImpl_def split: sum.splits)
  then have r: "run_packet ext s p = (Inr (), emit [Release (buffer p)] s)"
    by (simp add: run_packet_def)
  have e: "handlePacketImpl ext' s p = (Inr False, s)"
    if "length (data p) < MinInitialPacketSize" for ext'
    using that by (simp add: handlePacketImpl_def)
  from h r e show ?thesis by simp
qed

theorem handlePacketImpl_drops_witness:
  "length (data (demo_packet\<lparr>data := replicate 1199 0\<rparr>)) < MinInitialPacketSize \<and>
   handlePacketImpl demo_ext demo_server (demo_packet\<lparr>data := replicate 1199 0\<rparr>) = (Inr False, demo_server) \<and>
   run demo_ext demo_server [demo_packet\<lparr>data := replicate 1199 0\<rparr>] = (Inr (), emit [Release 7] demo_server)"
proof -
  have a: "length (data (demo_packet\<lparr>data := replicate 1199 0\<rparr>)) < MinInitialPacketSize"
    by (simp add: MinInitialPacketSize_def)
  have b: "\<not> errorChan_closed demo_server" by (simp add: demo_server_def)
  have c: "buffer (demo_packet\<lparr>data := replicate 1199 0\<rparr>) = 7" by (simp add: demo_packet_def)
  from handlePacketImpl_drops [of "demo_packet\<lparr>data := replicate 1199 0\<rparr>" demo_ext demo_server] a b c
  show ?thesis by simp
qed

section \<open>Version negotiation\<close>







text \<open>
  The result of the second \<open>Add\<close> is not looked at. When the connection ID that the
  server generates is already registered for another session, the new session is made,
  registered under the client's destination connection ID, started and handed the packet,
  while the generated ID still leads to the other session.
\<close>

theorem session_dispatched_with_taken_connection_ID:
  "fst (handleInitialImpl demo_ext demo_taken_server demo_packet demo_hdr) =
     Inr (Some \<lparr> sessID = 42, currentAddr = UDPAddr ''192.0.2.1'' 4433, origDestConnID = [],
                  clientDestConnID = [8, 7, 6, 5, 4, 3, 2, 1], destConnID = [1, 2, 3, 4],
                  srcConnID = [11, 12, 13, 14], statelessResetToken = demo_tag,
                  enable0RTT = False, version = 0xff00001b \<rparr>) \<and>
   last (trace (snd (handleInitialImpl demo_ext demo_taken_server demo_packet demo_hdr))) =
     HandlePacket \<lparr> sessID = 42, currentAddr = UDPAddr ''192.0.2.1'' 4433, origDestConnID = [],
                  clientDestConnID = [8, 7, 6, 5, 4, 3, 2, 1], destConnID = [1, 2, 3, 4],
                  srcConnID = [11, 12, 13, 14], statelessResetToken = demo_tag,
                  enable0RTT = False, version = 0xff00001b \<rparr> demo_packet \<and>
   handlers (snd (handleInitialImpl demo_ext demo_taken_server demo_packet demo_hdr))
     [11, 12, 13, 14] = Some demo_other_session \<and>
   sessID demo_other_session = 41"
proof -
  have cfg: "ConnectionIDLength (config demo_taken_server) = 4"
            "AcceptToken (config demo_taken_server) = Some (\<lambda>now a t. True)"
    by (simp_all add: demo_taken_server_def demo_open_server_def demo_server_def serverDefaults_def
          populateConfig_literal_def zeroConfig_def DefaultConnectionIDLength_def)
  have f: "handlers demo_taken_server = [[11, 12, 13, 14] \<mapsto> demo_other_session]"
          "sessionQueueLen demo_taken_server = 0" "trace demo_taken_server = []"
          "nextSession demo_taken_server = 42" "\<not> acceptEarlySessions demo_taken_server"
          "entropy demo_taken_server = [11, 12, 13, 14, 15, 16, 17, 18]"
    by (simp_all add: demo_taken_server_def demo_open_server_def demo_server_def)
  show ?thesis
    by (simp add: handleInitialImpl_def decodedToken_def createNewSession_def
        sessionHandler_Add_def newSession_def GenerateConnectionID_def emit_def Let_def
        demo_hdr_def demo_ext_def demo_packet_def cfg f demo_other_session_def
        MinConnectionIDLenInitial_def MaxAcceptQueueSize_def word_sle_eq)
qed

text \<open>
  Claim C1, amended. An Initial that passes the length, accept-token and queue checks, and
  for which a connection ID could be generated, reaches \<open>createNewSession\<close>. If the
  client's destination connection ID is not registered yet, the events are, in this
  order: the session is made, \<open>Add\<close> with the client's destination connection ID
  (which succeeds), \<open>Add\<close> with the generated source connection ID (whose result is
  not looked at), the two goroutines are started, and only then \<open>handlePacket\<close> is
  called on the session. The registry then maps the client's ID to the session; it maps
  the generated ID to the session when that ID was free (or is the client's ID), and
  otherwise still to the session that held it. Any later Initial with the same
  destination connection ID yields no session and leaves the registry as it is. If the
  client's ID is already registered, the first \<open>Add\<close> returns false: \<open>nil\<close> is
  returned, there is no second \<open>Add\<close> and no \<open>handlePacket\<close>, and the registry is
  unchanged.
\<close>

theorem createNewSession_registers_before_dispatch:
  fixes ext s p hdr connID s1 acceptToken
  assumes pass: "\<not> (length (Token hdr) = 0 \<and> length (DestConnectionID hdr) < MinConnectionIDLenInitial)"
      and acc: "AcceptToken (config s) = Some acceptToken"
               "acceptToken (clock s) (remoteAddr p) (fst (decodedToken ext hdr))"
      and queue: "\<not> MaxAcceptQueueSize \<le>s sessionQueueLen s"
      and gen: "GenerateConnectionID (ConnectionIDLength (config s)) s = (Inr connID, s1)"
  defines "sess \<equiv> newSession ext s (remoteAddr p) (snd (decodedToken ext hdr))
                     (DestConnectionID hdr) (SrcConnectionID hdr) connID (Version hdr)"
      and "s2 \<equiv> snd (handleInitialImpl ext s p hdr)"
  shows "(handlers s (DestConnectionID hdr) = None \<longrightarrow>
            fst (handleInitialImpl ext s p hdr) = Inr (Some sess) \<and>
            trace s2 = trace s @
              [NewSession sess,
               Add (DestConnectionID hdr) sess True,
               Add connID sess (connID \<noteq> DestConnectionID hdr \<and> handlers s connID = None),
               Go (RunSession sess), Go (HandleNewSession sess),
               HandlePacket sess p] \<and>
            handlers s2 (DestConnectionID hdr) = Some sess \<and>
            handlers s2 connID =
              (if connID = DestConnectionID hdr \<or> handlers s connID = None then Some sess
               else handlers s connID) \<and>
            (\<forall>p' hdr'. DestConnectionID hdr' = DestConnectionID hdr \<longrightarrow>
               (\<forall>sess'. fst (handleInitialImpl ext s2 p' hdr') \<noteq> Inr (Some sess')) \<and>
               handlers (snd (handleInitialImpl ext s2 p' hdr')) = handlers s2)) \<and>
         (handlers s (DestConnectionID hdr) \<noteq> None \<longrightarrow>
            fst (handleInitialImpl ext s p hdr) = Inr None \<and>
            trace s2 = trace s @ [NewSession sess, Add (DestConnectionID hdr) sess False] \<and>
            handlers s2 = handlers s)"
proof -
  note fr = GenerateConnectionID_frame [OF gen]
  define c where "c = createNewSession ext s1 (remoteAddr p) (snd (decodedToken ext hdr))
             (DestConnectionID hdr) (SrcConnectionID hdr) connID (Version hdr)"
  have sess1: "newSession ext s1 (remoteAddr p) (snd (decodedToken ext hdr))
                 (DestConnectionID hdr) (SrcConnectionID hdr) connID (Version hdr) = sess"
    unfolding sess_def by (rule newSession_cong) (simp_all add: fr)
  have cpair: "createNewSession ext s1 (remoteAddr p) (snd (decodedToken ext hdr))
             (DestConnectionID hdr) (SrcConnectionID hdr) connID (Version hdr) = (fst c, snd c)"
    by (simp add: c_def)
  note run = handleInitialImpl_admitted [OF pass acc queue gen cpair]
  have fresh: ?thesis if none: "handlers s (DestConnectionID hdr) = None"
  proof -
    have n1: "handlers s1 (DestConnectionID hdr) = None" using none fr by simp
    note a = createNewSession_added [OF n1, where ext = ext and remote = "remoteAddr p"
                 and origDest = "snd (decodedToken ext hdr)" and dest = "SrcConnectionID hdr"
                 and src = connID and ver = "Version hdr", folded c_def, unfolded sess1]
    have r1: "fst (handleInitialImpl ext s p hdr) = Inr (Some sess)"
      unfolding run using a(1) by simp
    have st: "s2 = emit [HandlePacket sess p] (snd c)"
      unfolding s2_def run using a(1) by simp
    have t2: "trace s2 = trace s @
              [NewSession sess, Add (DestConnectionID hdr) sess True,
               Add connID sess (connID \<noteq> DestConnectionID hdr \<and> handlers s connID = None),
               Go (RunSession sess), Go (HandleNewSession sess), HandlePacket sess p]"
      unfolding st using a(2) fr by (simp add: emit_def)
    have reg: "handlers s2 (DestConnectionID hdr) = Some sess"
      unfolding st using a(3) by (simp add: emit_def)
    have reg2: "handlers s2 connID =
              (if connID = DestConnectionID hdr \<or> handlers s connID = None then Some sess
               else handlers s connID)"
      unfolding st
      using createNewSession_second_Add [OF n1, where ext = ext and remote = "remoteAddr p"
                 and origDest = "snd (decodedToken ext hdr)" and dest = "SrcConnectionID hdr"
                 and src = connID and ver = "Version hdr", folded c_def, unfolded sess1] fr
      by (simp add: emit_def)
    have again: "(\<forall>sess'. fst (handleInitialImpl ext s2 p' hdr') \<noteq> Inr (Some sess')) \<and>
               handlers (snd (handleInitialImpl ext s2 p' hdr')) = handlers s2"
      if "DestConnectionID hdr' = DestConnectionID hdr" for p' hdr'
      by (rule handleInitialImpl_registered [of s2 hdr' sess]) (simp add: that reg)
    from r1 t2 reg reg2 again none show ?thesis
      by blast
  qed
  have dup: ?thesis if some: "handlers s (DestConnectionID hdr) \<noteq> None"
  proof -
    from some fr obtain other where o: "handlers s1 (DestConnectionID hdr) = Some other"
      by auto
    note a = createNewSession_refused [OF o, where ext = ext and remote = "remoteAddr p"
                 and origDest = "snd (decodedToken ext hdr)" and dest = "SrcConnectionID hdr"
                 and src = connID and ver = "Version hdr", folded c_def, unfolded sess1]
    have r1: "fst (handleInitialImpl ext s p hdr) = Inr None"
      unfolding run using a(1) by simp
    have st: "s2 = snd c"
      unfolding s2_def run using a(1) by simp
    have t2: "trace s2 = trace s @ [NewSession sess, Add (DestConnectionID hdr) sess False]"
      unfolding st using a(2) fr by simp
    have h2: "handlers s2 = handlers s"
      unfolding st using a(3) fr by simp
    from r1 t2 h2 some show ?thesis
      by blast
  qed
  show ?thesis
    using fresh dup by blast
qed

theorem createNewSession_registers_before_dispatch_witness:
  "fst (handleInitialImpl demo_ext demo_open_server demo_packet demo_hdr) =
     Inr (Some (newSession demo_ext demo_open_server (UDPAddr ''192.0.2.1'' 4433) []
                  [8, 7, 6, 5, 4, 3, 2, 1] [1, 2, 3, 4] [11, 12, 13, 14] 0xff00001b)) \<and>
   handlers (snd (handleInitialImpl demo_ext demo_open_server demo_packet demo_hdr))
       [8, 7, 6, 5, 4, 3, 2, 1] =
     Some (newSession demo_ext demo_open_server (UDPAddr ''192.0.2.1'' 4433) []
                  [8, 7, 6, 5, 4, 3, 2, 1] [1, 2, 3, 4] [11, 12, 13, 14] 0xff00001b) \<and>
   handlers (snd (handleInitialImpl demo_ext demo_open_server demo_packet demo_hdr))
       [11, 12, 13, 14] =
     Some (newSession demo_ext demo_open_server (UDPAddr ''192.0.2.1'' 4433) []
                  [8, 7, 6, 5, 4, 3, 2, 1] [1, 2, 3, 4] [11, 12, 13, 14] 0xff00001b) \<and>
   fst (handleInitialImpl demo_ext
          (snd (handleInitialImpl demo_ext demo_open_server demo_packet demo_hdr))
          demo_packet demo_hdr) \<noteq>
     Inr (Some (newSession demo_ext
                  (snd (handleInitialImpl demo_ext demo_open_server demo_packet demo_hdr))
                  (UDPAddr ''192.0.2.1'' 4433) []
                  [8, 7, 6, 5, 4, 3, 2, 1] [1, 2, 3, 4] [15, 16, 17, 18] 0xff00001b))"
proof -
  have cfg: "ConnectionIDLength (config demo_open_server) = 4"
    by (simp add: demo_open_server_def demo_server_def serverDefaults_def
          populateConfig_literal_def zeroConfig_def DefaultConnectionIDLength_def)
  have pass: "\<not> (length (Token demo_hdr) = 0 \<and>
                length (DestConnectionID demo_hdr) < MinConnectionIDLenInitial)"
    by (simp add: demo_hdr_def MinConnectionIDLenInitial_def)
  have acc: "AcceptToken (config demo_open_server) = Some (\<lambda>now a t. True)"
    by (simp add: demo_open_server_def)
  have queue: "\<not> MaxAcceptQueueSize \<le>s sessionQueueLen demo_open_server"
    by (simp add: demo_open_server_def demo_server_def MaxAcceptQueueSize_def word_sle_eq)
  have gen: "GenerateConnectionID (ConnectionIDLength (config demo_open_server)) demo_open_server =
               (Inr [11, 12, 13, 14], demo_open_server\<lparr>entropy := [15, 16, 17, 18]\<rparr>)"
    unfolding cfg by (simp add: GenerateConnectionID_def demo_open_server_def demo_server_def)
  have dt: "decodedToken demo_ext demo_hdr = (None, [])"
    by (simp add: decodedToken_def demo_hdr_def)
  have hd: "DestConnectionID demo_hdr = [8, 7, 6, 5, 4, 3, 2, 1]"
           "SrcConnectionID demo_hdr = [1, 2, 3, 4]" "Version demo_hdr = 0xff00001b"
           "remoteAddr demo_packet = UDPAddr ''192.0.2.1'' 4433"
    by (simp_all add: demo_hdr_def demo_packet_def)
  have none: "handlers demo_open_server [8, 7, 6, 5, 4, 3, 2, 1] = None"
             "handlers demo_open_server [11, 12, 13, 14] = None"
    by (simp_all add: demo_open_server_def demo_server_def)
  note main = createNewSession_registers_before_dispatch
         [of demo_hdr demo_open_server "\<lambda>now a t. True" demo_packet demo_ext "[11, 12, 13, 14]"
             "demo_open_server\<lparr>entropy := [15, 16, 17, 18]\<rparr>", OF pass acc TrueI queue gen,
          unfolded dt hd fst_conv snd_conv]
  from main none have first:
    "fst (handleInitialImpl demo_ext demo_open_server demo_packet demo_hdr) =
       Inr (Some (newSession demo_ext demo_open_server (UDPAddr ''192.0.2.1'' 4433) []
                  [8, 7, 6, 5, 4, 3, 2, 1] [1, 2, 3, 4] [11, 12, 13, 14] 0xff00001b))"
    and reg:
    "handlers (snd (handleInitialImpl demo_ext demo_open_server demo_packet demo_hdr))
       [8, 7, 6, 5, 4, 3, 2, 1] =
     Some (newSession demo_ext demo_open_server (UDPAddr ''192.0.2.1'' 4433) []
                  [8, 7, 6, 5, 4, 3, 2, 1] [1, 2, 3, 4] [11, 12, 13, 14] 0xff00001b)"
    and reg2:
    "handlers (snd (handleInitialImpl demo_ext demo_open_server demo_packet demo_hdr))
       [11, 12, 13, 14] =
     Some (newSession demo_ext demo_open_server (UDPAddr ''192.0.2.1'' 4433) []
                  [8, 7, 6, 5, 4, 3, 2, 1] [1, 2, 3, 4] [11, 12, 13, 14] 0xff00001b)"
    and again:
    "\<forall>p' hdr'. DestConnectionID hdr' = [8, 7, 6, 5, 4, 3, 2, 1] \<longrightarrow>
       (\<forall>sess'. fst (handleInitialImpl demo_ext
              (snd (handleInitialImpl demo_ext demo_open_server demo_packet demo_hdr)) p' hdr') \<noteq>
            Inr (Some sess'))"
    by simp_all
  from again hd(1) have second:
    "fst (handleInitialImpl demo_ext
              (snd (handleInitialImpl demo_ext demo_open_server demo_packet demo_hdr))
              demo_packet demo_hdr) \<noteq> Inr (Some sess')" for sess'
    by blast
  from first reg reg2 second show ?thesis
    by blast
qed

section \<open>The replies\<close>

lemma handleInitialImpl_retry:
  assumes pass: "\<not> (length (Token hdr) = 0 \<and> length (DestConnectionID hdr) < MinConnectionIDLenInitial)"
      and acc: "AcceptToken (config s) = Some acceptToken"
      and rej: "\<not> acceptToken (clock s) (remoteAddr p) (fst (decodedToken ext hdr))"
  shows "handleInitialImpl ext s p hdr = (Inr None, emit [Go (SendRetry (remoteAddr p) hdr)] s)"
proof -
  obtain tok od where dt: "decodedToken ext hdr = (tok, od)"
    by (cases "decodedToken ext hdr") simp
  show ?thesis
    using assms by (simp add: handleInitialImpl_def dt)
qed

lemma sendRetry_sent:
  assumes tok: "NewRetryToken ext remote (DestConnectionID hdr) = Inr token"
      and gen: "GenerateConnectionID (ConnectionIDLength (config s)) s = (Inr connID, s1)"
      and wr: "WriteHeader ext (retryHeader hdr connID token) (Version hdr) = Inr buf"
      and ok: "WriteTo ext (buf @ Rep_bytes16 (GetRetryIntegrityTag ext buf (DestConnectionID hdr))) remote = None"
  shows "sendRetry ext s remote hdr =
           (None, s1\<lparr>written := written s1 @
              [(buf @ Rep_bytes16 (GetRetryIntegrityTag ext buf (DestConnectionID hdr)), remote)]\<rparr>)"
  using assms by (simp add: sendRetry_def conn_WriteTo_ok)

lemma Rep_bytes16_length: "length (Rep_bytes16 t) = 16"
  using Rep_bytes16 [of t] by simp

text \<open>
  Claim C2. The accept-token predicate is consulted by \<open>handleInitialImpl\<close>, for an
  Initial that carries a token or whose destination connection ID has at least
  \<open>MinConnectionIDLenInitial\<close> bytes (any other Initial is turned away before, and the
  predicate is not called for it). When the predicate returns false,
  \<open>handleInitialImpl\<close> returns \<open>(nil, nil)\<close>, makes no session (nothing of the
  server changes but the record of started goroutines) and starts exactly one goroutine,
  \<open>sendRetry\<close>; \<open>handlePacketImpl\<close>, which hands it the Initials of supported
  versions in datagrams of at least \<open>MinInitialPacketSize\<close> bytes, returns false with
  the same state. When that goroutine runs and token minting, connection ID generation,
  header serialisation and the socket succeed, it writes one datagram to the remote
  address: the serialised header followed by the 16 bytes of the Retry integrity tag,
  computed over that header with the client's original destination connection ID. The
  header is a long header of type Retry with the client's version, a newly generated
  source connection ID of the configured length, the client's source connection ID as
  destination, and the token minted for the remote address and the client's destination
  connection ID.
\<close>

theorem retry_scheduled:
  assumes pass: "\<not> (length (Token hdr) = 0 \<and> length (DestConnectionID hdr) < MinConnectionIDLenInitial)"
      and acc: "AcceptToken (config s) = Some acceptToken"
      and rej: "\<not> acceptToken (clock s) (remoteAddr p) (fst (decodedToken ext hdr))"
  shows "handleInitialImpl ext s p hdr =
           (Inr None, s\<lparr>trace := trace s @ [Go (SendRetry (remoteAddr p) hdr)]\<rparr>) \<and>
         (MinInitialPacketSize \<le> length (data p) \<longrightarrow>
          ParsePacket ext (data p) (ConnectionIDLength (config s)) = Inr hdr \<longrightarrow>
          IsLongHeader hdr \<longrightarrow> IsSupportedVersion (Versions (config s)) (Version hdr) \<longrightarrow>
          Type hdr = PacketTypeInitial \<longrightarrow>
          handlePacketImpl ext s p =
            (Inr False, s\<lparr>trace := trace s @ [Go (SendRetry (remoteAddr p) hdr)]\<rparr>)) \<and>
         (\<forall>s' token connID s1 buf.
            config s' = config s \<longrightarrow>
            NewRetryToken ext (remoteAddr p) (DestConnectionID hdr) = Inr token \<longrightarrow>
            GenerateConnectionID (ConnectionIDLength (config s')) s' = (Inr connID, s1) \<longrightarrow>
            WriteHeader ext (retryHeader hdr connID token) (Version hdr) = Inr buf \<longrightarrow>
            WriteTo ext (buf @ Rep_bytes16 (GetRetryIntegrityTag ext buf (DestConnectionID hdr)))
               (remoteAddr p) = None \<longrightarrow>
            run_task ext s' (SendRetry (remoteAddr p) hdr) =
              s1\<lparr>written := written s' @
                 [(buf @ Rep_bytes16 (GetRetryIntegrityTag ext buf (DestConnectionID hdr)),
                   remoteAddr p)]\<rparr> \<and>
            length (Rep_bytes16 (GetRetryIntegrityTag ext buf (DestConnectionID hdr))) = 16 \<and>
            int (length connID) = ConnectionIDLength (config s) \<and>
            IsLongHeader (retryHeader hdr connID token) \<and>
            Type (retryHeader hdr connID token) = PacketTypeRetry \<and>
            Version (retryHeader hdr connID token) = Version hdr \<and>
            SrcConnectionID (retryHeader hdr connID token) = connID \<and>
            DestConnectionID (retryHeader hdr connID token) = SrcConnectionID hdr \<and>
            Token (retryHeader hdr connID token) = token)"
proof -
  have sent: "run_task ext s' (SendRetry (remoteAddr p) hdr) =
              s1\<lparr>written := written s' @
                 [(buf @ Rep_bytes16 (GetRetryIntegrityTag ext buf (DestConnectionID hdr)),
                   remoteAddr p)]\<rparr> \<and>
            int (length connID) = ConnectionIDLength (config s)"
    if "config s' = config s"
       "NewRetryToken ext (remoteAddr p) (DestConnectionID hdr) = Inr token"
       "GenerateConnectionID (ConnectionIDLength (config s')) s' = (Inr connID, s1)"
       "WriteHeader ext (retryHeader hdr connID token) (Version hdr) = Inr buf"
       "WriteTo ext (buf @ Rep_bytes16 (GetRetryIntegrityTag ext buf (DestConnectionID hdr)))
               (remoteAddr p) = None"
    for s' token connID s1 buf
    using sendRetry_sent [OF that(2) that(3) that(4) that(5)]
          GenerateConnectionID_frame [OF that(3)] GenerateConnectionID_length [OF that(3)] that(1)
    by (simp add: run_task_def)
  have hdr: "IsLongHeader (retryHeader hdr connID token) \<and>
            Type (retryHeader hdr connID token) = PacketTypeRetry \<and>
            Version (retryHeader hdr connID token) = Version hdr \<and>
            SrcConnectionID (retryHeader hdr connID token) = connID \<and>
            DestConnectionID (retryHeader hdr connID token) = SrcConnectionID hdr \<and>
            Token (retryHeader hdr connID token) = token" for connID token
    by (simp add: retryHeader_def)
  have sched: "handleInitialImpl ext s p hdr =
           (Inr None, s\<lparr>trace := trace s @ [Go (SendRetry (remoteAddr p) hdr)]\<rparr>)"
    using handleInitialImpl_retry [OF assms] by (simp add: emit_def)
  have whole: "handlePacketImpl ext s p =
            (Inr False, s\<lparr>trace := trace s @ [Go (SendRetry (remoteAddr p) hdr)]\<rparr>)"
    if "MinInitialPacketSize \<le> length (data p)"
       "ParsePacket ext (data p) (ConnectionIDLength (config s)) = Inr hdr"
       "IsLongHeader hdr" "IsSupportedVersion (Versions (config s)) (Version hdr)"
       "Type hdr = PacketTypeInitial"
    using that by (simp add: handlePacketImpl_def sched)
  from sched whole sent hdr Rep_bytes16_length
  show ?thesis by blast
qed

theorem retry_scheduled_witness:
  "\<not> defaultAcceptToken (clock demo_server) (remoteAddr demo_packet)
        (fst (decodedToken demo_ext demo_hdr)) \<and>
   handleInitialImpl demo_ext demo_server demo_packet demo_hdr =
     (Inr None, demo_server\<lparr>trace := [Go (SendRetry (UDPAddr ''192.0.2.1'' 4433) demo_hdr)]\<rparr>) \<and>
   handlePacketImpl demo_ext demo_server demo_packet =
     (Inr False, demo_server\<lparr>trace := [Go (SendRetry (UDPAddr ''192.0.2.1'' 4433) demo_hdr)]\<rparr>) \<and>
   written (run_task demo_ext demo_server (SendRetry (UDPAddr ''192.0.2.1'' 4433) demo_hdr)) =
     [([192, 0, 1, 2, 3, 4, 11, 12, 13, 14, 8, 7, 6, 5, 4, 3, 2, 1, 9] @ replicate 16 0,
       UDPAddr ''192.0.2.1'' 4433)]"
proof -
  have pass: "\<not> (length (Token demo_hdr) = 0 \<and>
                length (DestConnectionID demo_hdr) < MinConnectionIDLenInitial)"
    by (simp add: demo_hdr_def MinConnectionIDLenInitial_def)
  have dt: "decodedToken demo_ext demo_hdr = (None, [])"
    by (simp add: decodedToken_def demo_hdr_def)
  have rej: "\<not> defaultAcceptToken (clock demo_server) (remoteAddr demo_packet)
        (fst (decodedToken demo_ext demo_hdr))"
    unfolding dt by (simp add: defaultAcceptToken_def)
  have ra: "remoteAddr demo_packet = UDPAddr ''192.0.2.1'' 4433"
    by (simp add: demo_packet_def)
  note main = retry_scheduled [OF pass demo_server_config(2) rej, unfolded ra]
  have tok: "NewRetryToken demo_ext (UDPAddr ''192.0.2.1'' 4433) (DestConnectionID demo_hdr) =
               Inr [8, 7, 6, 5, 4, 3, 2, 1, 9]"
    by (simp add: demo_ext_def demo_hdr_def)
  have gen: "GenerateConnectionID (ConnectionIDLength (config demo_server)) demo_server =
               (Inr [11, 12, 13, 14], demo_server\<lparr>entropy := [15, 16, 17, 18]\<rparr>)"
    unfolding demo_server_config by (simp add: GenerateConnectionID_def demo_server_def)
  have wr: "WriteHeader demo_ext (retryHeader demo_hdr [11, 12, 13, 14] [8, 7, 6, 5, 4, 3, 2, 1, 9])
               (Version demo_hdr) =
             Inr [192, 0, 1, 2, 3, 4, 11, 12, 13, 14, 8, 7, 6, 5, 4, 3, 2, 1, 9]"
    by (simp add: demo_ext_def retryHeader_def demo_hdr_def)
  have ok: "WriteTo demo_ext b (UDPAddr ''192.0.2.1'' 4433) = None" for b
    by (simp add: demo_ext_def)
  have tag: "Rep_bytes16 (GetRetryIntegrityTag demo_ext b c) = replicate 16 0" for b c
    by (simp add: demo_ext_def demo_tag_bytes)
  from main [THEN conjunct2, THEN conjunct2, rule_format, OF refl tok gen wr ok]
  have wrt: "written (run_task demo_ext demo_server (SendRetry (UDPAddr ''192.0.2.1'' 4433) demo_hdr)) =
     [([192, 0, 1, 2, 3, 4, 11, 12, 13, 14, 8, 7, 6, 5, 4, 3, 2, 1, 9] @ replicate 16 0,
       UDPAddr ''192.0.2.1'' 4433)]"
    by (simp add: tag) (simp add: demo_server_def)
  have tr: "trace demo_server = []"
    by (simp add: demo_server_def)
  have pk: "MinInitialPacketSize \<le> length (data demo_packet)"
           "ParsePacket demo_ext (data demo_packet) (ConnectionIDLength (config demo_server)) =
              Inr demo_hdr"
           "IsLongHeader demo_hdr"
           "IsSupportedVersion (Versions (config demo_server)) (Version demo_hdr)"
           "Type demo_hdr = PacketTypeInitial"
    unfolding demo_server_config
    by (simp_all add: MinInitialPacketSize_def demo_packet_def demo_ext_def demo_hdr_def
          IsSupportedVersion_def)
  have whole: "handlePacketImpl demo_ext demo_server demo_packet =
     (Inr False, demo_server\<lparr>trace := trace demo_server @
        [Go (SendRetry (UDPAddr ''192.0.2.1'' 4433) demo_hdr)]\<rparr>)"
    using main [THEN conjunct2, THEN conjunct1] pk by blast
  with main [THEN conjunct1] rej tr wrt show ?thesis
    by simp
qed


lemma handleInitialImpl_busy:
  assumes pass: "\<not> (length (Token hdr) = 0 \<and> length (DestConnectionID hdr) < MinConnectionIDLenInitial)"
      and acc: "AcceptToken (config s) = Some acceptToken"
      and ok: "acceptToken (clock s) (remoteAddr p) (fst (decodedToken ext hdr))"
      and full: "MaxAcceptQueueSize \<le>s sessionQueueLen s"
  shows "handleInitialImpl ext s p hdr = (Inr None, emit [Go (SendServerBusy (remoteAddr p) hdr)] s)"
proof -
  obtain tok od where dt: "decodedToken ext hdr = (tok, od)"
    by (cases "decodedToken ext hdr") simp
  show ?thesis
    using assms by (simp add: handleInitialImpl_def dt)
qed

lemma write_at_end: "off = length xs \<Longrightarrow> write_at (xs @ ys) off new = xs @ new @ drop (length new) ys"
  by (simp add: write_at_def)

lemma sendServerBusy_sent:
  fixes ext hdr
  defines "sealer \<equiv> NewInitialAEAD ext (DestConnectionID hdr) PerspectiveServer"
  defines "replyHdr \<equiv> busyHeader ext hdr \<lparr>ErrorCode = ServerBusy\<rparr> sealer"
  assumes wh: "WriteHeader ext replyHdr (Version hdr) = Inr hdrBytes"
      and wf: "ccf_Write ext \<lparr>ErrorCode = ServerBusy\<rparr> (Version hdr) = Inr frameBytes"
      and len: "4 \<le> length hdrBytes"
      and aead: "length (Seal sealer frameBytes 0 hdrBytes) = length frameBytes + Overhead sealer"
      and sock: "\<forall>b. WriteTo ext b remote = None"
  shows "sendServerBusy ext s remote hdr =
     (None, s\<lparr>written := written s @
        [(write_at ((hdrBytes @ Seal sealer frameBytes 0 hdrBytes)
                      [0 := fst (EncryptHeader sealer (take 16 (Seal sealer frameBytes 0 hdrBytes))
                                   (hdrBytes ! 0) (drop (length hdrBytes - 4) hdrBytes))])
            (length hdrBytes - 4)
            (take 4 (snd (EncryptHeader sealer (take 16 (Seal sealer frameBytes 0 hdrBytes))
                                   (hdrBytes ! 0) (drop (length hdrBytes - 4) hdrBytes)))),
          remote)]\<rparr>)"
proof -
  have pn: "PacketNumberLen replyHdr = 4" "PacketNumber replyHdr = 0"
    by (simp_all add: replyHdr_def busyHeader_def)
  have raw: "take (length hdrBytes + length frameBytes + Overhead sealer)
               (write_at (hdrBytes @ frameBytes) (length hdrBytes) (Seal sealer frameBytes 0 hdrBytes)) =
             hdrBytes @ Seal sealer frameBytes 0 hdrBytes"
    by (simp add: write_at_end aead)
  have first: "(hdrBytes @ Seal sealer frameBytes 0 hdrBytes) ! 0 = hdrBytes ! 0"
    using len by (cases hdrBytes) simp_all
  have sample: "take 16 (drop (length hdrBytes - 4 + 4) (hdrBytes @ Seal sealer frameBytes 0 hdrBytes)) =
                take 16 (Seal sealer frameBytes 0 hdrBytes)"
    using len by simp
  have pnb: "take 4 (drop (length hdrBytes - 4) (hdrBytes @ Seal sealer frameBytes 0 hdrBytes)) =
             drop (length hdrBytes - 4) hdrBytes"
    using len by simp
  have l4: "length (drop (length hdrBytes - 4) hdrBytes) = 4"
    using len by simp
  show ?thesis
    unfolding sendServerBusy_def sealer_def [symmetric] replyHdr_def [symmetric] Let_def
    using len sock
    by (simp add: wh wf pn raw first sample pnb l4 conn_WriteTo_ok split: prod.splits)
qed


lemma write_at_length:
  "off + length new \<le> length arr \<Longrightarrow> length (write_at arr off new) = length arr"
  by (simp add: write_at_def)

lemma write_at_drop:
  "off + length new \<le> k \<Longrightarrow> k \<le> length arr \<Longrightarrow> drop k (write_at arr off new) = drop k arr"
  by (simp add: write_at_def)

lemma write_at_nth_before:
  "i < off \<Longrightarrow> off \<le> length arr \<Longrightarrow> write_at arr off new ! i = arr ! i"
  by (simp add: write_at_def nth_append)

lemma write_at_mid:
  "off \<le> length arr \<Longrightarrow> take (length new) (drop off (write_at arr off new)) = new"
  by (simp add: write_at_def)

lemma busy_datagram:
  fixes hdrBytes sealed :: bytes and firstByte :: byte and pn :: bytes
  assumes len: "4 < length hdrBytes"
  defines "dgram \<equiv> write_at ((hdrBytes @ sealed)[0 := firstByte]) (length hdrBytes - 4) (take 4 pn)"
  shows "length dgram = length hdrBytes + length sealed"
    and "drop (length hdrBytes) dgram = sealed"
    and "dgram ! 0 = firstByte"
    and "take (min 4 (length pn)) (drop (length hdrBytes - 4) dgram) = take 4 pn"
    and "\<forall>i. 0 < i \<and> i < length hdrBytes - 4 \<longrightarrow> dgram ! i = hdrBytes ! i"
    and "take 16 (drop (length hdrBytes - 4 + 4) dgram) = take 16 sealed"
proof -
  obtain h hs where hb: "hdrBytes = h # hs"
    using len by (cases hdrBytes) auto
  have arr: "(hdrBytes @ sealed)[0 := firstByte] = firstByte # hs @ sealed"
    by (simp add: hb)
  have la: "length (firstByte # hs @ sealed) = length hdrBytes + length sealed"
    by (simp add: hb)
  have fit: "length hdrBytes - 4 + length (take 4 pn) \<le> length hdrBytes"
    using len by simp
  have off: "length hdrBytes - 4 \<le> length (firstByte # hs @ sealed)"
    by (simp add: hb)
  have pos: "0 < length hdrBytes - 4" using len by simp
  show l: "length dgram = length hdrBytes + length sealed"
    unfolding dgram_def arr using fit la by (subst write_at_length) simp_all
  have da: "drop (length hdrBytes) (firstByte # hs @ sealed) = sealed"
    by (simp add: hb)
  show d: "drop (length hdrBytes) dgram = sealed"
    unfolding dgram_def arr using fit la by (subst write_at_drop) (simp_all add: da)
  show "dgram ! 0 = firstByte"
    unfolding dgram_def arr using write_at_nth_before [OF pos off] by simp
  have "take (length (take 4 pn)) (drop (length hdrBytes - 4) dgram) = take 4 pn"
    unfolding dgram_def arr by (rule write_at_mid [OF off])
  then show "take (min 4 (length pn)) (drop (length hdrBytes - 4) dgram) = take 4 pn"
    by (simp add: min.commute)
  show "\<forall>i. 0 < i \<and> i < length hdrBytes - 4 \<longrightarrow> dgram ! i = hdrBytes ! i"
  proof (intro allI impI)
    fix i assume i: "0 < i \<and> i < length hdrBytes - 4"
    then have "dgram ! i = (firstByte # hs @ sealed) ! i"
      unfolding dgram_def arr using write_at_nth_before [OF _ off] by simp
    also have "\<dots> = hdrBytes ! i"
      using i by (cases i) (auto simp: hb nth_append)
    finally show "dgram ! i = hdrBytes ! i" .
  qed
  show "take 16 (drop (length hdrBytes - 4 + 4) dgram) = take 16 sealed"
    using len d by simp
qed


text \<open>
  Claim C4. For an Initial that passes the accept-token check while the accept-queue
  counter, read as a signed 32-bit value, is at least \<open>MaxAcceptQueueSize\<close>,
  \<open>handleInitialImpl\<close> returns \<open>(nil, nil)\<close>, makes no session and starts exactly
  the goroutine \<open>sendServerBusy\<close>. The reply header is a long header of type Initial
  with packet number length 4, source the client's destination connection ID and
  destination the client's source connection ID; the only frame is a
  \<open>ConnectionCloseFrame\<close> with error code \<open>ServerBusy\<close>. When the goroutine
  runs (header and frame serialise, the header is longer than 4 bytes, the sealer adds
  its overhead, the socket accepts), the datagram written to the remote address has,
  after the header, the frame sealed by the Initial AEAD of the client's destination
  connection ID with the unprotected header as associated data; its first byte and its
  last four header bytes (the packet number) are what \<open>EncryptHeader\<close> yields for
  the 16 bytes that start 4 bytes after the packet number offset; the header bytes in
  between are unchanged.
\<close>

theorem server_busy_scheduled:
  fixes ext hdr
  defines "sealer \<equiv> NewInitialAEAD ext (DestConnectionID hdr) PerspectiveServer"
  defines "replyHdr \<equiv> busyHeader ext hdr \<lparr>ErrorCode = ServerBusy\<rparr> sealer"
  assumes pass: "\<not> (length (Token hdr) = 0 \<and> length (DestConnectionID hdr) < MinConnectionIDLenInitial)"
      and acc: "AcceptToken (config s) = Some acceptToken"
      and ok: "acceptToken (clock s) (remoteAddr p) (fst (decodedToken ext hdr))"
      and full: "MaxAcceptQueueSize \<le>s sessionQueueLen s"
  shows "handleInitialImpl ext s p hdr =
           (Inr None, s\<lparr>trace := trace s @ [Go (SendServerBusy (remoteAddr p) hdr)]\<rparr>) \<and>
         IsLongHeader replyHdr \<and> Type replyHdr = PacketTypeInitial \<and>
         PacketNumberLen replyHdr = 4 \<and> Version replyHdr = Version hdr \<and>
         SrcConnectionID replyHdr = DestConnectionID hdr \<and>
         DestConnectionID replyHdr = SrcConnectionID hdr \<and>
         Length replyHdr = 4 + ccf_Length ext \<lparr>ErrorCode = ServerBusy\<rparr> (Version hdr) + Overhead sealer \<and>
         (\<forall>s' hdrBytes frameBytes.
            WriteHeader ext replyHdr (Version hdr) = Inr hdrBytes \<longrightarrow>
            ccf_Write ext \<lparr>ErrorCode = ServerBusy\<rparr> (Version hdr) = Inr frameBytes \<longrightarrow>
            4 < length hdrBytes \<longrightarrow>
            length (Seal sealer frameBytes 0 hdrBytes) = length frameBytes + Overhead sealer \<longrightarrow>
            (\<forall>b. WriteTo ext b (remoteAddr p) = None) \<longrightarrow>
            (\<exists>dgram.
               run_task ext s' (SendServerBusy (remoteAddr p) hdr) =
                 s'\<lparr>written := written s' @ [(dgram, remoteAddr p)]\<rparr> \<and>
               length dgram = length hdrBytes + length frameBytes + Overhead sealer \<and>
               drop (length hdrBytes) dgram = Seal sealer frameBytes 0 hdrBytes \<and>
               dgram ! 0 =
                 fst (EncryptHeader sealer (take 16 (drop (length hdrBytes - 4 + 4) dgram))
                        (hdrBytes ! 0) (drop (length hdrBytes - 4) hdrBytes)) \<and>
               take (min 4 (length (snd (EncryptHeader sealer
                        (take 16 (drop (length hdrBytes - 4 + 4) dgram))
                        (hdrBytes ! 0) (drop (length hdrBytes - 4) hdrBytes)))))
                    (drop (length hdrBytes - 4) dgram) =
                 take 4 (snd (EncryptHeader sealer (take 16 (drop (length hdrBytes - 4 + 4) dgram))
                        (hdrBytes ! 0) (drop (length hdrBytes - 4) hdrBytes))) \<and>
               (\<forall>i. 0 < i \<and> i < length hdrBytes - 4 \<longrightarrow> dgram ! i = hdrBytes ! i)))"
proof -
  have sched: "handleInitialImpl ext s p hdr =
                 (Inr None, s\<lparr>trace := trace s @ [Go (SendServerBusy (remoteAddr p) hdr)]\<rparr>)"
    using handleInitialImpl_busy [OF pass acc ok full] by (simp add: emit_def)
  have hdrf: "IsLongHeader replyHdr" "Type replyHdr = PacketTypeInitial"
         "PacketNumberLen replyHdr = 4" "Version replyHdr = Version hdr"
         "SrcConnectionID replyHdr = DestConnectionID hdr"
         "DestConnectionID replyHdr = SrcConnectionID hdr"
         "Length replyHdr = 4 + ccf_Length ext \<lparr>ErrorCode = ServerBusy\<rparr> (Version hdr) + Overhead sealer"
    by (simp_all add: replyHdr_def busyHeader_def)
  have sent: "\<exists>dgram.
               run_task ext s' (SendServerBusy (remoteAddr p) hdr) =
                 s'\<lparr>written := written s' @ [(dgram, remoteAddr p)]\<rparr> \<and>
               length dgram = length hdrBytes + length frameBytes + Overhead sealer \<and>
               drop (length hdrBytes) dgram = Seal sealer frameBytes 0 hdrBytes \<and>
               dgram ! 0 =
                 fst (EncryptHeader sealer (take 16 (drop (length hdrBytes - 4 + 4) dgram))
                        (hdrBytes ! 0) (drop (length hdrBytes - 4) hdrBytes)) \<and>
               take (min 4 (length (snd (EncryptHeader sealer
                        (take 16 (drop (length hdrBytes - 4 + 4) dgram))
                        (hdrBytes ! 0) (drop (length hdrBytes - 4) hdrBytes)))))
                    (drop (length hdrBytes - 4) dgram) =
                 take 4 (snd (EncryptHeader sealer (take 16 (drop (length hdrBytes - 4 + 4) dgram))
                        (hdrBytes ! 0) (drop (length hdrBytes - 4) hdrBytes))) \<and>
               (\<forall>i. 0 < i \<and> i < length hdrBytes - 4 \<longrightarrow> dgram ! i = hdrBytes ! i)"
    if wh: "WriteHeader ext replyHdr (Version hdr) = Inr hdrBytes"
       and wf: "ccf_Write ext \<lparr>ErrorCode = ServerBusy\<rparr> (Version hdr) = Inr frameBytes"
       and len: "4 < length hdrBytes"
       and aead: "length (Seal sealer frameBytes 0 hdrBytes) = length frameBytes + Overhead sealer"
       and sock: "\<forall>b. WriteTo ext b (remoteAddr p) = None"
    for s' hdrBytes frameBytes
  proof -
    define sealed where "sealed = Seal sealer frameBytes 0 hdrBytes"
    define prot where "prot = EncryptHeader sealer (take 16 sealed) (hdrBytes ! 0)
                                 (drop (length hdrBytes - 4) hdrBytes)"
    define dgram where "dgram = write_at ((hdrBytes @ sealed)[0 := fst prot])
                                   (length hdrBytes - 4) (take 4 (snd prot))"
    have len4: "4 \<le> length hdrBytes" using len by simp
    have run: "run_task ext s' (SendServerBusy (remoteAddr p) hdr) =
                 s'\<lparr>written := written s' @ [(dgram, remoteAddr p)]\<rparr>"
      unfolding run_task_def dgram_def prot_def sealed_def
      using sendServerBusy_sent [OF wh [unfolded replyHdr_def sealer_def] wf len4
              aead [unfolded sealer_def] sock, of s']
      by (simp add: sealer_def)
    note lay = busy_datagram [OF len, where sealed = sealed and firstByte = "fst prot"
                 and pn = "snd prot", folded dgram_def]
    have sample: "EncryptHeader sealer (take 16 (drop (length hdrBytes - 4 + 4) dgram))
                        (hdrBytes ! 0) (drop (length hdrBytes - 4) hdrBytes) = prot"
      unfolding lay(6) prot_def by (rule refl)
    have f2: "length dgram = length hdrBytes + length frameBytes + Overhead sealer"
      using lay(1) aead by (simp add: sealed_def)
    have f3: "drop (length hdrBytes) dgram = Seal sealer frameBytes 0 hdrBytes"
      using lay(2) by (simp add: sealed_def)
    have f4: "dgram ! 0 =
                 fst (EncryptHeader sealer (take 16 (drop (length hdrBytes - 4 + 4) dgram))
                        (hdrBytes ! 0) (drop (length hdrBytes - 4) hdrBytes))"
      unfolding sample by (rule lay(3))
    have f5: "take (min 4 (length (snd (EncryptHeader sealer
                        (take 16 (drop (length hdrBytes - 4 + 4) dgram))
                        (hdrBytes ! 0) (drop (length hdrBytes - 4) hdrBytes)))))
                    (drop (length hdrBytes - 4) dgram) =
                 take 4 (snd (EncryptHeader sealer (take 16 (drop (length hdrBytes - 4 + 4) dgram))
                        (hdrBytes ! 0) (drop (length hdrBytes - 4) hdrBytes)))"
      unfolding sample by (rule lay(4))
    have f6: "\<forall>i. 0 < i \<and> i < length hdrBytes - 4 \<longrightarrow> dgram ! i = hdrBytes ! i"
      by (rule lay(5))
    show ?thesis
      by (rule exI [of _ dgram]) (intro conjI; fact)
  qed
  have sentall: "\<forall>s' hdrBytes frameBytes.
            WriteHeader ext replyHdr (Version hdr) = Inr hdrBytes \<longrightarrow>
            ccf_Write ext \<lparr>ErrorCode = ServerBusy\<rparr> (Version hdr) = Inr frameBytes \<longrightarrow>
            4 < length hdrBytes \<longrightarrow>
            length (Seal sealer frameBytes 0 hdrBytes) = length frameBytes + Overhead sealer \<longrightarrow>
            (\<forall>b. WriteTo ext b (remoteAddr p) = None) \<longrightarrow>
            (\<exists>dgram.
               run_task ext s' (SendServerBusy (remoteAddr p) hdr) =
                 s'\<lparr>written := written s' @ [(dgram, remoteAddr p)]\<rparr> \<and>
               length dgram = length hdrBytes + length frameBytes + Overhead sealer \<and>
               drop (length hdrBytes) dgram = Seal sealer frameBytes 0 hdrBytes \<and>
               dgram ! 0 =
                 fst (EncryptHeader sealer (take 16 (drop (length hdrBytes - 4 + 4) dgram))
                        (hdrBytes ! 0) (drop (length hdrBytes - 4) hdrBytes)) \<and>
               take (min 4 (length (snd (EncryptHeader sealer
                        (take 16 (drop (length hdrBytes - 4 + 4) dgram))
                        (hdrBytes ! 0) (drop (length hdrBytes - 4) hdrBytes)))))
                    (drop (length hdrBytes - 4) dgram) =
                 take 4 (snd (EncryptHeader sealer (take 16 (drop (length hdrBytes - 4 + 4) dgram))
                        (hdrBytes ! 0) (drop (length hdrBytes - 4) hdrBytes))) \<and>
               (\<forall>i. 0 < i \<and> i < length hdrBytes - 4 \<longrightarrow> dgram ! i = hdrBytes ! i))"
    by (intro allI impI) (rule sent; assumption)
  show ?thesis
    by (intro conjI; (fact | rule hdrf))
qed

theorem server_busy_scheduled_witness:
  "MaxAcceptQueueSize \<le>s sessionQueueLen (demo_open_server\<lparr>sessionQueueLen := 32\<rparr>) \<and>
   handleInitialImpl demo_ext (demo_open_server\<lparr>sessionQueueLen := 32\<rparr>) demo_packet demo_hdr =
     (Inr None, (demo_open_server\<lparr>sessionQueueLen := 32\<rparr>)
                  \<lparr>trace := trace (demo_open_server\<lparr>sessionQueueLen := 32\<rparr>) @
                     [Go (SendServerBusy (UDPAddr ''192.0.2.1'' 4433) demo_hdr)]\<rparr>) \<and>
   trace (demo_open_server\<lparr>sessionQueueLen := 32\<rparr>) = [] \<and>
   (\<exists>dgram. written (run_task demo_ext demo_open_server
                        (SendServerBusy (UDPAddr ''192.0.2.1'' 4433) demo_hdr)) =
              [(dgram, UDPAddr ''192.0.2.1'' 4433)] \<and>
            length dgram = 33 \<and>
            drop 14 dgram = [29, 3, 1] @ replicate 16 170 \<and>
            dgram ! 0 = 193)"
proof -
  define s where "s = demo_open_server\<lparr>sessionQueueLen := 32\<rparr>"
  have pass: "\<not> (length (Token demo_hdr) = 0 \<and>
                length (DestConnectionID demo_hdr) < MinConnectionIDLenInitial)"
    by (simp add: demo_hdr_def MinConnectionIDLenInitial_def)
  have acc: "AcceptToken (config s) = Some (\<lambda>now a t. True)"
    by (simp add: s_def demo_open_server_def)
  have full: "MaxAcceptQueueSize \<le>s sessionQueueLen s"
    by (simp add: s_def MaxAcceptQueueSize_def word_sle_eq)
  have ra: "remoteAddr demo_packet = UDPAddr ''192.0.2.1'' 4433"
    by (simp add: demo_packet_def)
  note main = server_busy_scheduled [of demo_hdr s "\<lambda>now a t. True" demo_packet demo_ext,
                 OF pass acc TrueI full, unfolded ra]
  have sl: "NewInitialAEAD demo_ext (DestConnectionID demo_hdr) PerspectiveServer = demo_sealer"
    by (simp add: demo_ext_def)
  have wh: "WriteHeader demo_ext
              (busyHeader demo_ext demo_hdr \<lparr>ErrorCode = ServerBusy\<rparr>
                 (NewInitialAEAD demo_ext (DestConnectionID demo_hdr) PerspectiveServer))
              (Version demo_hdr) = Inr [192, 0, 1, 2, 3, 4, 8, 7, 6, 5, 4, 3, 2, 1]"
    by (simp add: demo_ext_def busyHeader_def demo_hdr_def)
  have wf: "ccf_Write demo_ext \<lparr>ErrorCode = ServerBusy\<rparr> (Version demo_hdr) = Inr [28, 2, 0]"
    by (simp add: demo_ext_def)
  have seal: "Seal (NewInitialAEAD demo_ext (DestConnectionID demo_hdr) PerspectiveServer)
                [28, 2, 0] 0 [192, 0, 1, 2, 3, 4, 8, 7, 6, 5, 4, 3, 2, 1] =
              [29, 3, 1] @ replicate 16 170"
    unfolding sl by (simp add: demo_sealer_def)
  have ov: "Overhead (NewInitialAEAD demo_ext (DestConnectionID demo_hdr) PerspectiveServer) = 16"
    unfolding sl by (simp add: demo_sealer_def)
  have aead: "length (Seal (NewInitialAEAD demo_ext (DestConnectionID demo_hdr) PerspectiveServer)
                [28, 2, 0] 0 [192, 0, 1, 2, 3, 4, 8, 7, 6, 5, 4, 3, 2, 1]) =
              length [28, 2, 0 :: byte] +
              Overhead (NewInitialAEAD demo_ext (DestConnectionID demo_hdr) PerspectiveServer)"
    unfolding seal ov by simp
  have sock: "WriteTo demo_ext b (UDPAddr ''192.0.2.1'' 4433) = None" for b
    by (simp add: demo_ext_def)
  have l4: "4 < length [192, 0, 1, 2, 3, 4, 8, 7, 6, 5, 4, 3, 2, 1 :: byte]" by simp
  from main [THEN conjunct2, THEN conjunct2, THEN conjunct2, THEN conjunct2, THEN conjunct2,
             THEN conjunct2, THEN conjunct2, THEN conjunct2, rule_format,
             OF wh wf l4 aead sock, where s' = demo_open_server]
  obtain dgram where
      r: "run_task demo_ext demo_open_server (SendServerBusy (UDPAddr ''192.0.2.1'' 4433) demo_hdr) =
            demo_open_server\<lparr>written := written demo_open_server @
                                [(dgram, UDPAddr ''192.0.2.1'' 4433)]\<rparr>"
      and l0: "length dgram = length [192, 0, 1, 2, 3, 4, 8, 7, 6, 5, 4, 3, 2, 1 :: byte] +
                 length [28, 2, 0 :: byte] +
                 Overhead (NewInitialAEAD demo_ext (DestConnectionID demo_hdr) PerspectiveServer)"
      and d0: "drop (length [192, 0, 1, 2, 3, 4, 8, 7, 6, 5, 4, 3, 2, 1 :: byte]) dgram =
                 Seal (NewInitialAEAD demo_ext (DestConnectionID demo_hdr) PerspectiveServer)
                   [28, 2, 0] 0 [192, 0, 1, 2, 3, 4, 8, 7, 6, 5, 4, 3, 2, 1]"
      and f0: "dgram ! 0 = fst (EncryptHeader
                 (NewInitialAEAD demo_ext (DestConnectionID demo_hdr) PerspectiveServer)
                 (take 16 (drop (length [192, 0, 1, 2, 3, 4, 8, 7, 6, 5, 4, 3, 2, 1 :: byte] - 4 + 4) dgram))
                 ([192, 0, 1, 2, 3, 4, 8, 7, 6, 5, 4, 3, 2, 1] ! 0)
                 (drop (length [192, 0, 1, 2, 3, 4, 8, 7, 6, 5, 4, 3, 2, 1 :: byte] - 4)
                    [192, 0, 1, 2, 3, 4, 8, 7, 6, 5, 4, 3, 2, 1]))"
    by blast
  have l14: "length [192, 0, 1, 2, 3, 4, 8, 7, 6, 5, 4, 3, 2, 1 :: byte] = 14"
    by simp
  have l: "length dgram = 33"
    using l0 unfolding ov l14 by simp
  have d: "drop 14 dgram = [29, 3, 1] @ replicate 16 170"
    using d0 unfolding seal l14 by simp
  have f': "dgram ! 0 = 193"
    unfolding f0 sl l14 by (simp add: demo_sealer_def)
  have w: "written demo_open_server = []"
    by (simp add: demo_open_server_def demo_server_def)
  from r l d f' w have ex: "\<exists>dgram. written (run_task demo_ext demo_open_server
                        (SendServerBusy (UDPAddr ''192.0.2.1'' 4433) demo_hdr)) =
              [(dgram, UDPAddr ''192.0.2.1'' 4433)] \<and>
            length dgram = 33 \<and>
            drop 14 dgram = [29, 3, 1] @ replicate 16 170 \<and>
            dgram ! 0 = 193"
    by (intro exI [of _ dgram]) simp
  have tr: "trace s = []"
    by (simp add: s_def demo_open_server_def demo_server_def)
  with main [THEN conjunct1] full ex show ?thesis
    unfolding s_def by simp
qed


section \<open>Construction of the listener\<close>

lemma listen_config:
  assumes "valid_ptr h confp"
  shows "populateServerConfig pd h confp =
           (fst (populateServerConfig pd h confp), snd (populateServerConfig pd h confp)) \<and>
         fst (populateServerConfig pd h confp) ! snd (populateServerConfig pd h confp) =
           serverDefaults (populateConfig_literal pd (config_at h confp))"
  unfolding populateServerConfig_result [OF assms] by simp

lemma listen_cases:
  assumes v: "valid_ptr h confp"
  shows "listen ext pd h rnd now tlsc confp acceptEarly =
     (case tlsc of
        None \<Rightarrow> Inl (Error ''quic: tls.Config not set'')
      | Some tc \<Rightarrow>
          (case find (\<lambda>v. \<not> IsValidVersion ext v) (listen_versions pd h confp) of
             Some v \<Rightarrow> Inl (Error (VersionString ext v @ '' is not a valid QUIC version''))
           | None \<Rightarrow>
               (case AddConn ext
                       (ConnectionIDLength (serverDefaults (populateConfig_literal pd (config_at h confp))))
                       (StatelessResetKey (config_at h confp)) of
                  Inl err \<Rightarrow> Inl err
                | Inr sessionHandler \<Rightarrow>
                    (case NewTokenGenerator ext of
                       Some err \<Rightarrow> Inl err
                     | None \<Rightarrow>
                         Inr (fst (populateServerConfig pd h confp),
                           \<lparr> acceptEarlySessions = acceptEarly, tlsConf = tc,
                             config = serverDefaults (populateConfig_literal pd (config_at h confp)),
                             createdPacketConn = False, serverError = None,
                             errorChan_closed = False, closed = False, sessionQueueLen = 0,
                             handlers = sessionHandler, entropy = rnd, clock = now,
                             written = [], nextSession = 0,
                             trace = [Go RunLoop, SetServer] \<rparr>)))))"
proof -
  note c = listen_config [OF v, of pd]
  have vs: "Versions (serverDefaults (populateConfig_literal pd (config_at h confp))) =
              listen_versions pd h confp"
    by (simp add: serverDefaults_fields literal_fields listen_versions_def)
  have k: "StatelessResetKey (serverDefaults (populateConfig_literal pd (config_at h confp))) =
             StatelessResetKey (config_at h confp)"
    by (simp add: serverDefaults_fields literal_fields)
  obtain h1 cp where p: "populateServerConfig pd h confp = (h1, cp)"
    by (cases "populateServerConfig pd h confp") simp
  have cell: "h1 ! cp = serverDefaults (populateConfig_literal pd (config_at h confp))"
    using c p by simp
  show ?thesis
    unfolding listen_def p
    by (simp add: cell vs k split: option.splits sum.splits)
qed


text \<open>
  Claim C8, as stated, fails: \<open>listen\<close> never looks at the application protocols of
  the TLS configuration. With a TLS configuration that advertises none (and a multiplexer
  and token generator that can be set up) it returns a running server.
\<close>

theorem listen_accepts_tls_config_without_ALPN:
  "NextProtos \<lparr>NextProtos = []\<rparr> = [] \<and>
   \<not> isl (listen demo_ext demo_defaults [] [] 0 (Some \<lparr>NextProtos = []\<rparr>) None False) \<and>
   trace (snd (projr (listen demo_ext demo_defaults [] [] 0 (Some \<lparr>NextProtos = []\<rparr>) None False))) =
     [Go RunLoop, SetServer] \<and>
   closed (snd (projr (listen demo_ext demo_defaults [] [] 0 (Some \<lparr>NextProtos = []\<rparr>) None False))) =
     False"
proof -
  have v: "valid_ptr [] None" by (simp add: valid_ptr_def)
  have vs: "listen_versions demo_defaults [] None = [0xff00001b]"
    by (simp add: listen_versions_def config_at_def zeroConfig_def demo_defaults_def)
  show ?thesis
    unfolding listen_cases [OF v] vs
    by (simp add: demo_ext_def)
qed

text \<open>
  Claim C8, amended. \<open>listen\<close> returns the error ``quic: tls.Config not set'' when the
  TLS configuration is nil, and an error naming the version when one of the versions of
  the defaulted configuration is not a valid QUIC version. It does not inspect the
  application protocols: whether it fails does not depend on the contents of a non-nil
  TLS configuration. Whenever it returns a server, the TLS configuration was not nil and
  every configured version is valid; the server has the defaulted configuration, is
  neither closed nor in error, has an empty accept queue, and its intake goroutine has
  been started and registered with the multiplexer; the caller's configs are untouched.
\<close>

theorem listen_fails_fast:
  assumes v: "valid_ptr h confp"
  shows "(tlsc = None \<longrightarrow>
            listen ext pd h rnd now tlsc confp acceptEarly =
              Inl (Error ''quic: tls.Config not set'')) \<and>
         (tlsc \<noteq> None \<longrightarrow>
            (\<exists>v \<in> set (listen_versions pd h confp). \<not> IsValidVersion ext v) \<longrightarrow>
            (\<exists>v \<in> set (listen_versions pd h confp). \<not> IsValidVersion ext v \<and>
               listen ext pd h rnd now tlsc confp acceptEarly =
                 Inl (Error (VersionString ext v @ '' is not a valid QUIC version'')))) \<and>
         (\<forall>h' s. listen ext pd h rnd now tlsc confp acceptEarly = Inr (h', s) \<longrightarrow>
            tlsc \<noteq> None \<and>
            (\<forall>v \<in> set (listen_versions pd h confp). IsValidVersion ext v) \<and>
            Versions (config s) = listen_versions pd h confp \<and>
            AcceptToken (config s) \<noteq> None \<and>
            \<not> closed s \<and> \<not> errorChan_closed s \<and> serverError s = None \<and>
            sessionQueueLen s = 0 \<and> trace s = [Go RunLoop, SetServer] \<and>
            take (length h) h' = h) \<and>
         (\<forall>tc tc'. isl (listen ext pd h rnd now (Some tc) confp acceptEarly) =
                   isl (listen ext pd h rnd now (Some tc') confp acceptEarly))"
proof -
  note lc = listen_cases [OF v]
  have nil: "listen ext pd h rnd now tlsc confp acceptEarly =
              Inl (Error ''quic: tls.Config not set'')" if "tlsc = None"
    using that by (simp add: listen_def)
  have bad: "\<exists>v \<in> set (listen_versions pd h confp). \<not> IsValidVersion ext v \<and>
               listen ext pd h rnd now tlsc confp acceptEarly =
                 Inl (Error (VersionString ext v @ '' is not a valid QUIC version''))"
    if t: "tlsc \<noteq> None"
      and e: "\<exists>v \<in> set (listen_versions pd h confp). \<not> IsValidVersion ext v"
  proof -
    from e obtain w where w: "find (\<lambda>v. \<not> IsValidVersion ext v) (listen_versions pd h confp) = Some w"
      by (cases "find (\<lambda>v. \<not> IsValidVersion ext v) (listen_versions pd h confp)")
         (auto simp: find_None_iff)
    then have "w \<in> set (listen_versions pd h confp) \<and> \<not> IsValidVersion ext w"
      by (auto simp: find_Some_iff)
    moreover from t w have "listen ext pd h rnd now tlsc confp acceptEarly =
                 Inl (Error (VersionString ext w @ '' is not a valid QUIC version''))"
      unfolding lc by auto
    ultimately show ?thesis by blast
  qed
  have good: "tlsc \<noteq> None \<and>
            (\<forall>v \<in> set (listen_versions pd h confp). IsValidVersion ext v) \<and>
            Versions (config s) = listen_versions pd h confp \<and>
            AcceptToken (config s) \<noteq> None \<and>
            \<not> closed s \<and> \<not> errorChan_closed s \<and> serverError s = None \<and>
            sessionQueueLen s = 0 \<and> trace s = [Go RunLoop, SetServer] \<and>
            take (length h) h' = h"
    if r: "listen ext pd h rnd now tlsc confp acceptEarly = Inr (h', s)" for h' s
  proof -
    from r have t: "tlsc \<noteq> None"
      unfolding lc by (auto split: option.splits)
    from r have f: "find (\<lambda>v. \<not> IsValidVersion ext v) (listen_versions pd h confp) = None"
      unfolding lc by (auto split: option.splits)
    then have allv: "\<forall>v \<in> set (listen_versions pd h confp). IsValidVersion ext v"
      by (auto simp: find_None_iff)
    from r have h': "h' = fst (populateServerConfig pd h confp)"
      unfolding lc by (auto split: option.splits sum.splits)
    have fr: "take (length h) h' = h"
      unfolding h' by (rule populateServerConfig_frame [OF v])
    from r have cfg: "config s = serverDefaults (populateConfig_literal pd (config_at h confp))"
      and st: "\<not> closed s" "\<not> errorChan_closed s" "serverError s = None"
              "sessionQueueLen s = 0" "trace s = [Go RunLoop, SetServer]"
      unfolding lc by (auto split: option.splits sum.splits)
    have vs: "Versions (config s) = listen_versions pd h confp"
      unfolding cfg by (simp add: serverDefaults_fields literal_fields listen_versions_def)
    have at: "AcceptToken (config s) \<noteq> None"
      unfolding cfg by (simp add: serverDefaults_fields)
    from t allv vs at st fr show ?thesis by simp
  qed
  have alpn: "isl (listen ext pd h rnd now (Some tc) confp acceptEarly) =
              isl (listen ext pd h rnd now (Some tc') confp acceptEarly)" for tc tc'
    unfolding lc by (simp split: option.splits sum.splits)
  from nil bad good alpn show ?thesis
    by (intro conjI allI impI) auto
qed


theorem listen_fails_fast_witness:
  "valid_ptr [zeroConfig\<lparr>Versions := [0xff00001b, 5]\<rparr>] (Some 0) \<and>
   listen demo_ext demo_defaults [zeroConfig\<lparr>Versions := [0xff00001b, 5]\<rparr>] [] 0 None (Some 0) False =
     Inl (Error ''quic: tls.Config not set'') \<and>
   listen demo_ext demo_defaults [zeroConfig\<lparr>Versions := [0xff00001b, 5]\<rparr>] [] 0
       (Some \<lparr>NextProtos = [''h3'']\<rparr>) (Some 0) False =
     Inl (Error ''draft is not a valid QUIC version'')"
proof -
  have v: "valid_ptr [zeroConfig\<lparr>Versions := [0xff00001b, 5]\<rparr>] (Some 0)"
    by (simp add: valid_ptr_def)
  have vs: "listen_versions demo_defaults [zeroConfig\<lparr>Versions := [0xff00001b, 5]\<rparr>] (Some 0) =
              [0xff00001b, 5]"
    by (simp add: listen_versions_def config_at_def)
  have bad: "\<exists>v \<in> set (listen_versions demo_defaults [zeroConfig\<lparr>Versions := [0xff00001b, 5]\<rparr>] (Some 0)).
               \<not> IsValidVersion demo_ext v"
    unfolding vs by (simp add: demo_ext_def)
  have str: "VersionString demo_ext w @ '' is not a valid QUIC version'' =
              ''draft is not a valid QUIC version''" for w
    by (simp add: demo_ext_def)
  note a = listen_fails_fast [OF v, where tlsc = None and ext = demo_ext and pd = demo_defaults
                                and rnd = "[]" and now = 0 and acceptEarly = False]
  note b = listen_fails_fast [OF v, where tlsc = "Some \<lparr>NextProtos = [''h3'']\<rparr>" and ext = demo_ext
                                and pd = demo_defaults and rnd = "[]" and now = 0 and acceptEarly = False]
  from a have 1: "listen demo_ext demo_defaults [zeroConfig\<lparr>Versions := [0xff00001b, 5]\<rparr>] [] 0 None (Some 0) False =
     Inl (Error ''quic: tls.Config not set'')"
    by simp
  from b bad have 2: "listen demo_ext demo_defaults [zeroConfig\<lparr>Versions := [0xff00001b, 5]\<rparr>] [] 0
       (Some \<lparr>NextProtos = [''h3'']\<rparr>) (Some 0) False =
     Inl (Error ''draft is not a valid QUIC version'')"
    unfolding str by auto
  from v 1 2 show ?thesis by simp
qed

section \<open>The client session cache\<close>
lemma revision_bytes: "PutUint32 clientSessionStateRevision = [0, 0, 0, 1]"
  by (simp add: PutUint32_def clientSessionStateRevision_def)

lemma revision_read: "Uint32 (take 4 (PutUint32 clientSessionStateRevision @ d)) = clientSessionStateRevision"
  unfolding revision_bytes by (simp add: Uint32_def clientSessionStateRevision_def)

lemma Put_stores:
  assumes "Marshal a \<lparr>Nonce = nonce cs, AppData = getAppData c, RTT = smoothedRTT c\<rparr> = Inr d"
  shows "Put a k (Some cs) c =
           (None, inner_Put k (Some (cs\<lparr>nonce := PutUint32 clientSessionStateRevision @ d\<rparr>)) c)"
  using assms by (simp add: Put_def)

lemma Get_restores:
  assumes e: "ClientSessionCache c' k = (Some (cs\<lparr>nonce := PutUint32 clientSessionStateRevision @ d\<rparr>), ok)"
      and u: "Unmarshal a d = Inr (nf, [])"
  shows "Get a k c' =
           ((Some (cs\<lparr>nonce := Nonce nf\<rparr>), ok),
            c'\<lparr>setAppData := setAppData c' @ [AppData nf], smoothedRTT := RTT nf\<rparr>)"
proof -
  define n where "n = PutUint32 clientSessionStateRevision @ d"
  have l: "\<not> length n < 4"
    unfolding n_def revision_bytes by simp
  have dr: "drop 4 n = d"
    unfolding n_def revision_bytes by simp
  have rd: "Uint32 (take 4 n) = clientSessionStateRevision"
    unfolding n_def by (rule revision_read)
  have nn: "nonce (cs\<lparr>nonce := n\<rparr>) = n" by simp
  show ?thesis
    unfolding Get_def e n_def [symmetric]
    by (simp add: l dr rd u SetInitialRTT_def)
qed

lemma Get_rejects:
  assumes e: "ClientSessionCache c' k = (Some s, ok)"
      and bad: "length (nonce s) < 4 \<or>
                Uint32 (take 4 (nonce s)) \<noteq> clientSessionStateRevision \<or>
                (case Unmarshal a (drop 4 (nonce s)) of Inl err \<Rightarrow> True | Inr (nf, rest) \<Rightarrow> rest \<noteq> [])"
  shows "Get a k c' = ((None, False), c')"
  using bad unfolding Get_def e
  by (auto split: sum.splits prod.splits)


lemma demo_marshal:
  "Marshal demo_asn1 \<lparr>Nonce = nonce demo_session_state, AppData = getAppData demo_cache,
      RTT = smoothedRTT demo_cache\<rparr> =
   Inr [48, 13, 4, 3, 7, 7, 7, 4, 3, 102, 111, 111, 2, 1, 10]"
  by (simp add: demo_asn1_def der_marshal_def der_octets_def demo_session_state_def demo_cache_def)

lemma demo_unmarshal:
  "Unmarshal demo_asn1 [48, 13, 4, 3, 7, 7, 7, 4, 3, 102, 111, 111, 2, 1, 10] =
   Inr (\<lparr>Nonce = nonce demo_session_state, AppData = getAppData demo_cache,
      RTT = smoothedRTT demo_cache\<rparr>, [])"
  by (simp add: demo_asn1_def der_unmarshal_def der_take_octets_def demo_session_state_def
        demo_cache_def)

text \<open>
  Claim C10. The client session cache round-trips: \<open>Put\<close> stores under the key the session
  state whose nonce is the four bytes of revision 1 (big endian) followed by the ASN.1 encoding of
  the original nonce, the application data and the smoothed RTT; a later \<open>Get\<close> of that entry gives
  back the session state with its original nonce, hands the application data to the setter and
  restores the RTT. \<open>Get\<close> answers \<open>(nil, false)\<close>, touching nothing, when the stored nonce is
  shorter than four bytes, carries another revision, does not decode, or decodes with bytes left
  over. The ASN.1 codec is a parameter; the hypotheses say that it encodes the triple and decodes
  the encoding back.
\<close>
theorem session_cache_roundtrip:
  assumes m: "Marshal a \<lparr>Nonce = nonce cs, AppData = getAppData c, RTT = smoothedRTT c\<rparr> = Inr d"
      and u: "Unmarshal a d =
                Inr (\<lparr>Nonce = nonce cs, AppData = getAppData c, RTT = smoothedRTT c\<rparr>, [])"
  shows "Put a k (Some cs) c = (None, inner_Put k (Some (cs\<lparr>nonce := 0 # 0 # 0 # 1 # d\<rparr>)) c) \<and>
         ClientSessionCache (snd (Put a k (Some cs) c)) k =
           (Some (cs\<lparr>nonce := 0 # 0 # 0 # 1 # d\<rparr>), True) \<and>
         (\<forall>c'. ClientSessionCache c' k = ClientSessionCache (snd (Put a k (Some cs) c)) k \<longrightarrow>
            Get a k c' =
              ((Some cs, True),
               c'\<lparr>setAppData := setAppData c' @ [getAppData c], smoothedRTT := smoothedRTT c\<rparr>)) \<and>
         (\<forall>c' s ok. ClientSessionCache c' k = (Some s, ok) \<longrightarrow>
            (length (nonce s) < 4 \<or>
             Uint32 (take 4 (nonce s)) \<noteq> clientSessionStateRevision \<or>
             (case Unmarshal a (drop 4 (nonce s)) of
                Inl err \<Rightarrow> True | Inr (nf, rest) \<Rightarrow> rest \<noteq> [])) \<longrightarrow>
            Get a k c' = ((None, False), c'))"
proof -
  have put: "Put a k (Some cs) c =
               (None, inner_Put k (Some (cs\<lparr>nonce := 0 # 0 # 0 # 1 # d\<rparr>)) c)"
    using Put_stores [OF m, of k] by (simp add: revision_bytes)
  have stored: "ClientSessionCache (snd (Put a k (Some cs) c)) k =
                  (Some (cs\<lparr>nonce := 0 # 0 # 0 # 1 # d\<rparr>), True)"
    unfolding put by (simp add: inner_Put_def)
  have get: "Get a k c' =
              ((Some cs, True),
               c'\<lparr>setAppData := setAppData c' @ [getAppData c], smoothedRTT := smoothedRTT c\<rparr>)"
    if "ClientSessionCache c' k = ClientSessionCache (snd (Put a k (Some cs) c)) k" for c'
  proof -
    have e: "ClientSessionCache c' k =
               (Some (cs\<lparr>nonce := PutUint32 clientSessionStateRevision @ d\<rparr>), True)"
      using that stored by (simp add: revision_bytes)
    show ?thesis
      using Get_restores [OF e u] by simp
  qed
  have rej: "Get a k c' = ((None, False), c')"
    if "ClientSessionCache c' k = (Some s, ok)"
       "length (nonce s) < 4 \<or>
             Uint32 (take 4 (nonce s)) \<noteq> clientSessionStateRevision \<or>
             (case Unmarshal a (drop 4 (nonce s)) of
                Inl err \<Rightarrow> True | Inr (nf, rest) \<Rightarrow> rest \<noteq> [])" for c' s ok
    using that by (rule Get_rejects)
  have rejall: "\<forall>c' s ok. ClientSessionCache c' k = (Some s, ok) \<longrightarrow>
            (length (nonce s) < 4 \<or>
             Uint32 (take 4 (nonce s)) \<noteq> clientSessionStateRevision \<or>
             (case Unmarshal a (drop 4 (nonce s)) of
                Inl err \<Rightarrow> True | Inr (nf, rest) \<Rightarrow> rest \<noteq> [])) \<longrightarrow>
            Get a k c' = ((None, False), c')"
    by (intro allI impI) (rule rej; assumption)
  have getall: "\<forall>c'. ClientSessionCache c' k = ClientSessionCache (snd (Put a k (Some cs) c)) k \<longrightarrow>
            Get a k c' =
              ((Some cs, True),
               c'\<lparr>setAppData := setAppData c' @ [getAppData c], smoothedRTT := smoothedRTT c\<rparr>)"
    by (intro allI impI) (rule get; assumption)
  show ?thesis
    by (intro conjI; fact)
qed

theorem session_cache_roundtrip_witness:
  "nonce (the (fst (ClientSessionCache
        (snd (Put demo_asn1 ''localhost'' (Some demo_session_state) demo_cache)) ''localhost''))) =
     [0, 0, 0, 1, 48, 13, 4, 3, 7, 7, 7, 4, 3, 102, 111, 111, 2, 1, 10] \<and>
   Get demo_asn1 ''localhost''
       (snd (Put demo_asn1 ''localhost'' (Some demo_session_state) demo_cache)) =
     ((Some demo_session_state, True),
      (snd (Put demo_asn1 ''localhost'' (Some demo_session_state) demo_cache))
         \<lparr>setAppData := [[102, 111, 111]], smoothedRTT := 10\<rparr>)"
proof -
  note main = session_cache_roundtrip [OF demo_marshal demo_unmarshal, of "''localhost''"]
  from main have 1: "ClientSessionCache
        (snd (Put demo_asn1 ''localhost'' (Some demo_session_state) demo_cache)) ''localhost'' =
        (Some (demo_session_state\<lparr>nonce :=
           0 # 0 # 0 # 1 # [48, 13, 4, 3, 7, 7, 7, 4, 3, 102, 111, 111, 2, 1, 10]\<rparr>), True)"
    by (rule conjunct2 [THEN conjunct1])
  from main have 2: "Get demo_asn1 ''localhost''
       (snd (Put demo_asn1 ''localhost'' (Some demo_session_state) demo_cache)) =
     ((Some demo_session_state, True),
      (snd (Put demo_asn1 ''localhost'' (Some demo_session_state) demo_cache))
         \<lparr>setAppData := setAppData (snd (Put demo_asn1 ''localhost'' (Some demo_session_state) demo_cache))
               @ [getAppData demo_cache],
          smoothedRTT := smoothedRTT demo_cache\<rparr>)"
    by blast
  have 3: "setAppData (snd (Put demo_asn1 ''localhost'' (Some demo_session_state) demo_cache)) = []"
    using main by (simp add: inner_Put_def demo_cache_def)
  have 4: "getAppData demo_cache = [102, 111, 111]" "smoothedRTT demo_cache = 10"
    by (simp_all add: demo_cache_def)
  show ?thesis
    unfolding 1 using 2 unfolding 3 4 by simp
qed

section \<open>The accept queue\<close>

text \<open>
  What the packet loop leaves untouched, and the events it adds: it starts a
  \<open>handleNewSession\<close> only when it found the counter below \<open>MaxAcceptQueueSize\<close>.
\<close>


lemma createNewSession_control:
  "sessionQueueLen (snd (createNewSession ext s remote od cd d src ver)) = sessionQueueLen s \<and>
   closed (snd (createNewSession ext s remote od cd d src ver)) = closed s \<and>
   errorChan_closed (snd (createNewSession ext s remote od cd d src ver)) = errorChan_closed s \<and>
   serverError (snd (createNewSession ext s remote od cd d src ver)) = serverError s"
  by (simp add: createNewSession_def sessionHandler_Add_def emit_def Let_def split: option.splits)

lemma createNewSession_events:
  "\<exists>es. trace (snd (createNewSession ext s remote od cd d src ver)) = trace s @ es"
  by (simp add: createNewSession_def sessionHandler_Add_def emit_def Let_def split: option.splits)

lemma GenerateConnectionID_control:
  "sessionQueueLen (snd (GenerateConnectionID len s)) = sessionQueueLen s \<and>
   closed (snd (GenerateConnectionID len s)) = closed s \<and>
   errorChan_closed (snd (GenerateConnectionID len s)) = errorChan_closed s \<and>
   serverError (snd (GenerateConnectionID len s)) = serverError s \<and>
   trace (snd (GenerateConnectionID len s)) = trace s"
  by (simp add: GenerateConnectionID_def)

lemma handleInitialImpl_control:
  "sessionQueueLen (snd (handleInitialImpl ext s p hdr)) = sessionQueueLen s \<and>
   closed (snd (handleInitialImpl ext s p hdr)) = closed s \<and>
   errorChan_closed (snd (handleInitialImpl ext s p hdr)) = errorChan_closed s \<and>
   serverError (snd (handleInitialImpl ext s p hdr)) = serverError s"
proof -
  obtain tok od where dt: "decodedToken ext hdr = (tok, od)"
    by (cases "decodedToken ext hdr") simp
  obtain r s1 where gen: "GenerateConnectionID (ConnectionIDLength (config s)) s = (r, s1)"
    by (cases "GenerateConnectionID (ConnectionIDLength (config s)) s") simp
  have g: "sessionQueueLen s1 = sessionQueueLen s" "closed s1 = closed s"
    "errorChan_closed s1 = errorChan_closed s" "serverError s1 = serverError s"
    using GenerateConnectionID_control [of "ConnectionIDLength (config s)" s] gen by simp_all
  show ?thesis
  proof (cases r)
    case (Inl err)
    then show ?thesis
      using gen g by (simp add: handleInitialImpl_def dt emit_def split: option.splits)
  next
    case (Inr connID)
    obtain r2 s2 where cns: "createNewSession ext s1 (remoteAddr p) od
             (DestConnectionID hdr) (SrcConnectionID hdr) connID (Version hdr) = (r2, s2)"
      by (cases "createNewSession ext s1 (remoteAddr p) od
             (DestConnectionID hdr) (SrcConnectionID hdr) connID (Version hdr)") simp
    have c: "sessionQueueLen s2 = sessionQueueLen s1" "closed s2 = closed s1"
      "errorChan_closed s2 = errorChan_closed s1" "serverError s2 = serverError s1"
      using createNewSession_control [of ext s1 "remoteAddr p" od "DestConnectionID hdr"
          "SrcConnectionID hdr" connID "Version hdr"] cns by simp_all
    show ?thesis
      using gen Inr cns g c
      by (simp add: handleInitialImpl_def dt emit_def split: option.splits)
  qed
qed

lemma handleInitialImpl_events:
  "\<exists>es. trace (snd (handleInitialImpl ext s p hdr)) = trace s @ es \<and>
        (started es \<noteq> [] \<longrightarrow> \<not> MaxAcceptQueueSize \<le>s sessionQueueLen s)"
proof -
  obtain tok od where dt: "decodedToken ext hdr = (tok, od)"
    by (cases "decodedToken ext hdr") simp
  obtain r s1 where gen: "GenerateConnectionID (ConnectionIDLength (config s)) s = (r, s1)"
    by (cases "GenerateConnectionID (ConnectionIDLength (config s)) s") simp
  have g: "trace s1 = trace s"
    using GenerateConnectionID_control [of "ConnectionIDLength (config s)" s] gen by simp
  show ?thesis
  proof (cases r)
    case (Inl err)
    then show ?thesis
      using gen g by (simp add: handleInitialImpl_def dt emit_def split: option.splits)
  next
    case (Inr connID)
    obtain r2 s2 where cns: "createNewSession ext s1 (remoteAddr p) od
             (DestConnectionID hdr) (SrcConnectionID hdr) connID (Version hdr) = (r2, s2)"
      by (cases "createNewSession ext s1 (remoteAddr p) od
             (DestConnectionID hdr) (SrcConnectionID hdr) connID (Version hdr)") simp
    obtain es where c: "trace s2 = trace s @ es"
      using createNewSession_events [of ext s1 "remoteAddr p" od "DestConnectionID hdr"
          "SrcConnectionID hdr" connID "Version hdr"] cns g by auto
    show ?thesis
      using gen Inr cns g c
      by (simp add: handleInitialImpl_def dt emit_def split: option.splits)
  qed
qed

lemma handlePacketImpl_cases:
  "snd (handlePacketImpl ext s p) = s \<or>
   (\<exists>hdr. snd (handlePacketImpl ext s p) = emit [Go (SendVersionNegotiationPacket p hdr)] s) \<or>
   (\<exists>hdr. snd (handlePacketImpl ext s p) = snd (handleInitialImpl ext s p hdr))"
proof (cases "ParsePacket ext (data p) (ConnectionIDLength (config s))")
  case (Inl err)
  then show ?thesis by (simp add: handlePacketImpl_def)
next
  case (Inr hdr)
  obtain r s1 where h: "handleInitialImpl ext s p hdr = (r, s1)"
    by (cases "handleInitialImpl ext s p hdr") simp
  have "snd (handlePacketImpl ext s p) = s \<or>
        snd (handlePacketImpl ext s p) = emit [Go (SendVersionNegotiationPacket p hdr)] s \<or>
        snd (handlePacketImpl ext s p) = snd (handleInitialImpl ext s p hdr)"
    using Inr h by (simp add: handlePacketImpl_def split: sum.splits error.splits option.splits)
  then show ?thesis by blast
qed

lemma run_packet_cases:
  "snd (run_packet ext s p) = snd (handlePacketImpl ext s p) \<or>
   snd (run_packet ext s p) = emit [Release (buffer p)] (snd (handlePacketImpl ext s p))"
  by (simp add: run_packet_def split: sum.splits prod.splits)

lemma handlePacketImpl_control:
  "sessionQueueLen (snd (handlePacketImpl ext s p)) = sessionQueueLen s \<and>
   closed (snd (handlePacketImpl ext s p)) = closed s \<and>
   errorChan_closed (snd (handlePacketImpl ext s p)) = errorChan_closed s \<and>
   serverError (snd (handlePacketImpl ext s p)) = serverError s"
  using handlePacketImpl_cases [of ext s p] handleInitialImpl_control [of ext s p]
  by (auto simp: emit_def)

lemma run_packet_control:
  "sessionQueueLen (snd (run_packet ext s p)) = sessionQueueLen s \<and>
   closed (snd (run_packet ext s p)) = closed s \<and>
   errorChan_closed (snd (run_packet ext s p)) = errorChan_closed s \<and>
   serverError (snd (run_packet ext s p)) = serverError s"
  using run_packet_cases [of ext s p] handlePacketImpl_control [of ext s p]
  by (auto simp: emit_def)

lemma handlePacketImpl_events:
  "\<exists>es. trace (snd (handlePacketImpl ext s p)) = trace s @ es \<and>
        (started es \<noteq> [] \<longrightarrow> \<not> MaxAcceptQueueSize \<le>s sessionQueueLen s)"
  using handlePacketImpl_cases [of ext s p] handleInitialImpl_events [of ext s p]
  by (auto simp: emit_def)

lemma started_Release: "started (es @ [Release n]) = started es"
  by (induction es rule: started.induct) simp_all

lemma run_packet_events:
  "\<exists>es. trace (snd (run_packet ext s p)) = trace s @ es \<and>
        (started es \<noteq> [] \<longrightarrow> \<not> MaxAcceptQueueSize \<le>s sessionQueueLen s)"
proof -
  obtain es where e: "trace (snd (handlePacketImpl ext s p)) = trace s @ es"
     "started es \<noteq> [] \<longrightarrow> \<not> MaxAcceptQueueSize \<le>s sessionQueueLen s"
    using handlePacketImpl_events [of ext s p] by blast
  have "snd (run_packet ext s p) = snd (handlePacketImpl ext s p) \<or>
        snd (run_packet ext s p) = emit [Release (buffer p)] (snd (handlePacketImpl ext s p))"
    by (simp add: run_packet_def split: sum.splits prod.splits)
  then show ?thesis
  proof
    assume "snd (run_packet ext s p) = snd (handlePacketImpl ext s p)"
    then show ?thesis using e by simp
  next
    assume "snd (run_packet ext s p) = emit [Release (buffer p)] (snd (handlePacketImpl ext s p))"
    then have "trace (snd (run_packet ext s p)) = trace s @ (es @ [Release (buffer p)])"
      using e by (simp add: emit_def)
    then show ?thesis using e(2) started_Release by metis
  qed
qed

section \<open>The counter of the accept queue\<close>


lemma filter_update_count:
  "i < length xs \<Longrightarrow>
   length (filter P (xs[i := v])) + (if P (xs ! i) then 1 else 0) =
   length (filter P xs) + (if P v then 1 else 0)"
proof (induction xs arbitrary: i)
  case Nil
  then show ?case by simp
next
  case (Cons x xs)
  show ?case
  proof (cases i)
    case 0
    then show ?thesis by simp
  next
    case (Suc k)
    then have "k < length xs" using Cons.prems by simp
    from Cons.IH [OF this] show ?thesis using Suc by simp
  qed
qed

lemma counter_step:
  fixes q q1 :: "32 word"
  assumes w: "q1 + (if a then 1 else 0) = q + (if b then 1 else 0)"
      and n: "n1 + (if a then 1 else 0) = n + (if b then (1::nat) else 0)"
      and q: "q = of_nat (n + m)"
  shows "q1 = of_nat (n1 + m)"
proof -
  have "(of_nat (n1 + (if a then 1 else 0)) :: 32 word) = of_nat (n + (if b then 1 else 0))"
    using n by simp
  then have n': "(of_nat n1 :: 32 word) + (if a then 1 else 0) = of_nat n + (if b then 1 else 0)"
    by (simp split: if_splits)
  have "q1 + (if a then 1 else 0) = (of_nat n1 + (if a then 1 else 0)) + of_nat m"
    unfolding n' using w q by (simp add: algebra_simps)
  then show ?thesis by (simp add: algebra_simps)
qed

lemma Close_control:
  "sessionQueueLen (snd (Close ext s)) = sessionQueueLen s"
  by (simp add: Close_def emit_def Let_def split: prod.splits)

lemma setCloseError_control:
  "sessionQueueLen (setCloseError e s) = sessionQueueLen s"
  by (simp add: setCloseError_def)

lemma handleNewSession_counted:
  assumes "handleNewSession b pc s = Some (pc1, s1)"
  shows "sessionQueueLen s1 + (if counted_handoff (sess, pc) then 1 else 0) =
         sessionQueueLen s + (if counted_handoff (sess, pc1) then 1 else 0)"
  using assms by (cases "(b, pc, s)" rule: handleNewSession.cases) (auto simp: counted_handoff_def)

lemma accept_counted:
  assumes "accept b pc s = Some (pc1, s1)"
  shows "sessionQueueLen s1 + (if counted_call pc then 1 else 0) =
         sessionQueueLen s + (if counted_call pc1 then 1 else 0)"
  using assms by (cases "(b, pc, s)" rule: accept.cases) (auto split: if_splits)

lemma step_counted:
  assumes "step ext a st = Some st1"
      and "sessionQueueLen (server st) = of_nat (counted st)"
  shows "sessionQueueLen (server st1) = of_nat (counted st1)"
proof (cases a)
  case Poll
  then show ?thesis using assms by (auto simp: step_def counted_def split: if_splits)
next
  case (Receive p)
  obtain r s1 where rp: "run_packet ext (server st) p = (r, s1)"
    by (cases "run_packet ext (server st) p") simp
  have q: "sessionQueueLen s1 = sessionQueueLen (server st)"
    using run_packet_control [of ext "server st" p] rp by simp
  have f: "filter counted_handoff (map (\<lambda>sess. (sess, AwaitReady)) l) = []" for l
    by (induction l) (simp_all add: counted_handoff_def)
  show ?thesis
    using assms Receive rp q f
    by (cases r) (auto simp: step_def counted_def split: if_splits)
next
  case Quit
  then show ?thesis using assms by (auto simp: step_def counted_def split: if_splits)
next
  case (Handoff i b)
  from assms(1) Handoff obtain pc s1 where
    i: "i < length (handoffs st)" and
    h: "handleNewSession b (snd (handoffs st ! i)) (server st) = Some (pc, s1)" and
    st1: "st1 = st\<lparr>server := s1, handoffs := (handoffs st)[i := (fst (handoffs st ! i), pc)]\<rparr>"
    by (auto simp: step_def split: if_splits option.splits)
  have c: "sessionQueueLen s1 + (if counted_handoff (handoffs st ! i) then 1 else 0) =
         sessionQueueLen (server st) + (if counted_handoff (fst (handoffs st ! i), pc) then 1 else 0)"
    using handleNewSession_counted [OF h, of "fst (handoffs st ! i)"] by simp
  have u: "length (filter counted_handoff ((handoffs st)[i := (fst (handoffs st ! i), pc)])) +
             (if counted_handoff (handoffs st ! i) then 1 else 0) =
           length (filter counted_handoff (handoffs st)) +
             (if counted_handoff (fst (handoffs st ! i), pc) then 1 else 0)"
    by (rule filter_update_count [OF i])
  have "sessionQueueLen s1 =
          of_nat (length (filter counted_handoff ((handoffs st)[i := (fst (handoffs st ! i), pc)])) +
                  length (filter counted_call (calls st)))"
    using c u assms(2) unfolding counted_def by (rule counter_step)
  then show ?thesis
    unfolding st1 counted_def by simp
next
  case Call
  then show ?thesis using assms by (auto simp: step_def counted_def split: if_splits)
next
  case (Accept j b)
  from assms(1) Accept obtain pc s1 where
    j: "j < length (calls st)" and
    h: "accept b (calls st ! j) (server st) = Some (pc, s1)" and
    st1: "st1 = st\<lparr>server := s1, calls := (calls st)[j := pc]\<rparr>"
    by (auto simp: step_def split: if_splits option.splits)
  note c = accept_counted [OF h]
  have u: "length (filter counted_call ((calls st)[j := pc])) +
             (if counted_call (calls st ! j) then 1 else 0) =
           length (filter counted_call (calls st)) + (if counted_call pc then 1 else 0)"
    by (rule filter_update_count [OF j])
  have "sessionQueueLen s1 =
          of_nat (length (filter counted_call ((calls st)[j := pc])) +
                  length (filter counted_handoff (handoffs st)))"
    using c u by (rule counter_step) (use assms(2) in \<open>simp add: counted_def add.commute\<close>)
  then show ?thesis
    unfolding st1 counted_def by (simp add: add.commute)
next
  case (Deliver i j)
  from assms(1) Deliver have
    i: "i < length (handoffs st)" and o: "snd (handoffs st ! i) = Offering" and
    j: "j < length (calls st)" and c: "calls st ! j = InSelect" and
    st1: "st1 = st\<lparr>handoffs := (handoffs st)[i := (fst (handoffs st ! i), Finished)],
                        calls := (calls st)[j := BeforeSub (fst (handoffs st ! i))]\<rparr>"
    by (auto simp: step_def split: if_splits)
  have u1: "length (filter counted_handoff ((handoffs st)[i := (fst (handoffs st ! i), Finished)])) + 1 =
           length (filter counted_handoff (handoffs st))"
    using filter_update_count [OF i, of counted_handoff "(fst (handoffs st ! i), Finished)"] o
    by (simp add: counted_handoff_def)
  have u2: "length (filter counted_call ((calls st)[j := BeforeSub (fst (handoffs st ! i))])) =
           length (filter counted_call (calls st)) + 1"
    using filter_update_count [OF j, of counted_call "BeforeSub (fst (handoffs st ! i))"] c
    by simp
  have "counted st1 = counted st"
    unfolding st1 counted_def using u1 u2 by simp
  then show ?thesis using assms(2) unfolding st1 by simp
next
  case CallClose
  then show ?thesis using assms Close_control [of ext "server st"]
    by (auto simp: step_def counted_def split: if_splits)
next
  case (CallSetCloseError e)
  then show ?thesis using assms setCloseError_control [of e "server st"]
    by (auto simp: step_def counted_def split: if_splits)
qed

lemma exec_counted:
  "exec ext acts st = Some st1 \<Longrightarrow> sessionQueueLen (server st) = of_nat (counted st) \<Longrightarrow>
   sessionQueueLen (server st1) = of_nat (counted st1)"
proof (induction acts arbitrary: st)
  case Nil
  then show ?case by simp
next
  case (Cons a acts)
  then obtain st2 where s: "step ext a st = Some st2" and e: "exec ext acts st2 = Some st1"
    by (auto split: option.splits)
  show ?case
    by (rule Cons.IH [OF e step_counted [OF s Cons.prems(2)]])
qed

lemma step_admits:
  assumes "step ext (Receive p) st = Some st1" and "length (handoffs st) < length (handoffs st1)"
  shows "\<not> MaxAcceptQueueSize \<le>s sessionQueueLen (server st)"
proof -
  obtain r s1 where rp: "run_packet ext (server st) p = (r, s1)"
    by (cases "run_packet ext (server st) p") simp
  obtain es where e: "trace s1 = trace (server st) @ es"
     "started es \<noteq> [] \<longrightarrow> \<not> MaxAcceptQueueSize \<le>s sessionQueueLen (server st)"
    using run_packet_events [of ext "server st" p] rp by auto
  show ?thesis
    using assms rp e by (cases r) (auto simp: step_def split: if_splits)
qed

lemma flood_server_config:
  "ConnectionIDLength (config flood_server) = 4"
  "AcceptToken (config flood_server) = Some (\<lambda>now a t. True)"
  "Versions (config flood_server) = [0xff00001b]"
  by (simp_all add: flood_server_def demo_open_server_def demo_server_def serverDefaults_def
        populateConfig_literal_def zeroConfig_def DefaultConnectionIDLength_def demo_defaults_def)

lemma flood_server_entropy: "length (entropy flood_server) = 132"
  by (simp add: flood_server_def length_concat comp_def sum_list_triv)

lemma flood_receive:
  assumes cfg: "config s = config flood_server"
      and q: "sessionQueueLen s = 0"
      and ent: "4 \<le> length (entropy s)"
      and free: "handlers s (replicate 8 (of_nat k)) = None"
  shows "\<exists>s1 sess. run_packet flood_ext s (flood_packet k) = (Inr (), s1) \<and>
           started (drop (length (trace s)) (trace s1)) = [sess] \<and>
           config s1 = config s \<and>
           length (entropy s1) + 4 = length (entropy s) \<and>
           (\<forall>c. length c = 8 \<longrightarrow> c \<noteq> replicate 8 (of_nat k) \<longrightarrow> handlers s1 c = handlers s c)"
proof -
  note c = flood_server_config [folded cfg]
  have l: "length (take 4 (entropy s)) = 4" using ent by simp
  have ne: "take 4 (entropy s) \<noteq> c" if "length c = 8" for c
    using that l by auto
  show ?thesis
    using ent free ne
    by (auto simp: run_packet_def handlePacketImpl_def handleInitialImpl_def decodedToken_def
        createNewSession_def sessionHandler_Add_def newSession_def GenerateConnectionID_def
        emit_def Let_def flood_ext_def flood_packet_def demo_hdr_def demo_ext_def c q
        MinInitialPacketSize_def MinConnectionIDLenInitial_def MaxAcceptQueueSize_def
        IsSupportedVersion_def word_sle_eq split: option.splits)
qed


lemma exec_append:
  "exec ext (as @ bs) st = (case exec ext as st of None \<Rightarrow> None | Some st1 \<Rightarrow> exec ext bs st1)"
  by (induction as arbitrary: st) (simp_all split: option.splits)

lemma flood_byte_inj:
  assumes "j < 256" "k < 256" "replicate 8 (of_nat j :: byte) = replicate 8 (of_nat k)"
  shows "j = k"
proof -
  have "(of_nat j :: byte) = of_nat k" using assms(3) by simp
  then have "unat (of_nat j :: byte) = unat (of_nat k :: byte)" by simp
  then show ?thesis using assms(1,2) by (simp add: unat_of_nat)
qed

lemma arrivals_run:
  assumes n: "n \<le> 256"
      and cfg: "config s0 = config flood_server"
      and q: "sessionQueueLen s0 = 0"
      and opn: "\<not> errorChan_closed s0"
      and ent: "4 * n \<le> length (entropy s0)"
      and free: "handlers s0 = Map.empty"
  shows "k \<le> n \<Longrightarrow>
         \<exists>st. exec flood_ext (arrivals k) (start s0) = Some st \<and>
              intake st = FirstSelect \<and> \<not> errorChan_closed (server st) \<and>
              sessionQueueLen (server st) = 0 \<and> config (server st) = config flood_server \<and>
              4 * (n - k) \<le> length (entropy (server st)) \<and>
              (\<forall>j. k \<le> j \<longrightarrow> j < n \<longrightarrow> handlers (server st) (replicate 8 (of_nat j)) = None) \<and>
              length (handoffs st) = k \<and> (\<forall>h \<in> set (handoffs st). snd h = AwaitReady) \<and>
              calls st = []"
proof (induction k)
  case 0
  show ?case
    using cfg q opn ent free by (simp add: start_def)
next
  case (Suc k)
  then have kn: "k < n" by simp
  with Suc.IH obtain st where
    e: "exec flood_ext (arrivals k) (start s0) = Some st" and
    i: "intake st = FirstSelect" and o: "\<not> errorChan_closed (server st)" and
    c: "sessionQueueLen (server st) = 0" and g: "config (server st) = config flood_server" and
    l: "4 * (n - k) \<le> length (entropy (server st))" and
    f: "\<forall>j. k \<le> j \<longrightarrow> j < n \<longrightarrow> handlers (server st) (replicate 8 (of_nat j)) = None" and
    h: "length (handoffs st) = k" "\<forall>h \<in> set (handoffs st). snd h = AwaitReady" and
    a: "calls st = []"
    by auto
  have l4: "4 \<le> length (entropy (server st))" using l kn by simp
  have fk: "handlers (server st) (replicate 8 (of_nat k)) = None" using f kn by simp
  obtain s1 sess where
    r: "run_packet flood_ext (server st) (flood_packet k) = (Inr (), s1)" and
    s: "started (drop (length (trace (server st))) (trace s1)) = [sess]" and
    g1: "config s1 = config (server st)" and
    l1: "length (entropy s1) + 4 = length (entropy (server st))" and
    f1: "\<forall>c. length c = 8 \<longrightarrow> c \<noteq> replicate 8 (of_nat k) \<longrightarrow> handlers s1 c = handlers (server st) c"
    using flood_receive [OF g c l4 fk] by blast
  have ctl: "sessionQueueLen s1 = 0" "\<not> errorChan_closed s1"
    using run_packet_control [of flood_ext "server st" "flood_packet k"] r c o by simp_all
  define st1 where "st1 = st\<lparr>server := s1, intake := FirstSelect,
                      handoffs := handoffs st @ [(sess, AwaitReady)]\<rparr>"
  have p: "step flood_ext Poll st = Some (st\<lparr>intake := SecondSelect\<rparr>)"
    using i o by (simp add: step_def)
  have v: "step flood_ext (Receive (flood_packet k)) (st\<lparr>intake := SecondSelect\<rparr>) = Some st1"
    using r s by (simp add: step_def st1_def)
  have e1: "exec flood_ext (arrivals (Suc k)) (start s0) = Some st1"
    using e p v by (simp add: exec_append)
  have f2: "handlers (server st1) (replicate 8 (of_nat j)) = None" if "Suc k \<le> j" "j < n" for j
  proof -
    have "replicate 8 (of_nat j :: byte) \<noteq> replicate 8 (of_nat k)"
      using flood_byte_inj [of j k] that kn n by auto
    then have "handlers s1 (replicate 8 (of_nat j)) = handlers (server st) (replicate 8 (of_nat j))"
      using f1 by simp
    then show ?thesis using f that by (simp add: st1_def)
  qed
  have l2: "4 * (n - Suc k) \<le> length (entropy (server st1))"
    using l l1 kn by (simp add: st1_def)
  have rest: "intake st1 = FirstSelect" "\<not> errorChan_closed (server st1)"
    "sessionQueueLen (server st1) = 0" "config (server st1) = config flood_server"
    "length (handoffs st1) = Suc k" "\<forall>h \<in> set (handoffs st1). snd h = AwaitReady"
    "calls st1 = []"
    using ctl g g1 h a by (simp_all add: st1_def)
  show ?case
    using e1 rest l2 f2 by (intro exI [of _ st1]) simp
qed

lemma completions_run:
  assumes "intake st \<noteq> Panicked"
      and "\<forall>i < length (handoffs st). snd (handoffs st ! i) = AwaitReady"
  shows "k \<le> length (handoffs st) \<Longrightarrow>
         \<exists>st1. exec ext (completions k) st = Some st1 \<and> intake st1 = intake st \<and>
              length (handoffs st1) = length (handoffs st) \<and>
              (\<forall>i < k. snd (handoffs st1 ! i) = Offering) \<and>
              (\<forall>i. k \<le> i \<longrightarrow> i < length (handoffs st) \<longrightarrow> snd (handoffs st1 ! i) = AwaitReady) \<and>
              calls st1 = calls st"
proof (induction k)
  case 0
  show ?case using assms by simp
next
  case (Suc k)
  then have kn: "k < length (handoffs st)" by simp
  with Suc.IH obtain st1 where
    e: "exec ext (completions k) st = Some st1" and i: "intake st1 = intake st" and
    l: "length (handoffs st1) = length (handoffs st)" and
    d: "\<forall>i < k. snd (handoffs st1 ! i) = Offering" and
    w: "\<forall>i. k \<le> i \<longrightarrow> i < length (handoffs st) \<longrightarrow> snd (handoffs st1 ! i) = AwaitReady" and
    c: "calls st1 = calls st"
    by auto
  have wk: "snd (handoffs st1 ! k) = AwaitReady" using w kn by simp
  have k1: "k < length (handoffs st1)" using kn l by simp
  define st2 where "st2 = st1\<lparr>handoffs := (handoffs st1)[k := (fst (handoffs st1 ! k), BeforeAdd)]\<rparr>"
  define st3 where "st3 = st2\<lparr>server := (server st2)\<lparr>sessionQueueLen := sessionQueueLen (server st2) + 1\<rparr>,
                          handoffs := (handoffs st2)[k := (fst (handoffs st2 ! k), Offering)]\<rparr>"
  have s2: "step ext (Handoff k Ready) st1 = Some st2"
    using assms(1) i k1 wk by (simp add: step_def st2_def)
  have s3: "step ext (Handoff k AddInt32) st2 = Some st3"
    using assms(1) i k1 by (simp add: step_def st2_def st3_def)
  have e3: "exec ext (completions (Suc k)) st = Some st3"
    using e s2 s3 by (simp add: exec_append)
  have h3: "handoffs st3 = (handoffs st1)[k := (fst (handoffs st1 ! k), Offering)]"
    using k1 by (simp add: st3_def st2_def)
  have a: "\<forall>i < Suc k. snd (handoffs st3 ! i) = Offering"
    using d k1 unfolding h3 by (auto simp: nth_list_update less_Suc_eq)
  have b: "\<forall>i. Suc k \<le> i \<longrightarrow> i < length (handoffs st) \<longrightarrow> snd (handoffs st3 ! i) = AwaitReady"
    using w unfolding h3 by (auto simp: nth_list_update)
  have r: "intake st3 = intake st" "length (handoffs st3) = length (handoffs st)" "calls st3 = calls st"
    using i l c unfolding h3 by (simp_all add: st3_def st2_def)
  show ?case
    using e3 r a b by (intro exI [of _ st3]) simp
qed



lemma filter_disj_count:
  "\<forall>x \<in> set xs. \<not> (P x \<and> Q x) \<Longrightarrow>
   length (filter (\<lambda>x. P x \<or> Q x) xs) = length (filter P xs) + length (filter Q xs)"
  by (induction xs) auto

lemma counted_split: "counted st = length (offered st) + pending st"
proof -
  have "length (filter counted_handoff (handoffs st)) =
          length (filter (\<lambda>h. snd h = Offering) (handoffs st)) +
          length (filter (\<lambda>h. snd h = BeforeWithdraw) (handoffs st))"
    unfolding counted_handoff_def by (rule filter_disj_count) simp
  then show ?thesis
    by (simp add: counted_def offered_def pending_def)
qed

lemma sint_count:
  assumes "n < 2 ^ 31"
  shows "sint (of_nat n :: 32 word) = int n"
proof -
  have "int n < 2 ^ 31" using assms by (simp flip: of_nat_less_iff)
  moreover have "- (2 ^ 31) \<le> int n" by (rule order_trans [of _ 0]) simp_all
  ultimately have "signed_take_bit 31 (int n) = int n"
    by (intro signed_take_bit_int_eq_self) simp_all
  then show ?thesis
    by (simp add: signed_of_nat)
qed

lemma flood_run:
  assumes "n \<le> 33"
  shows "\<exists>st. exec flood_ext (flood n) (start flood_server) = Some st \<and>
              intake st = FirstSelect \<and> length (handoffs st) = n \<and>
              (\<forall>i < n. snd (handoffs st ! i) = Offering) \<and> calls st = [] \<and>
              sessionQueueLen (server st) = of_nat n"
proof -
  have s0: "sessionQueueLen flood_server = 0" "\<not> errorChan_closed flood_server"
    "handlers flood_server = Map.empty"
    by (simp_all add: flood_server_def demo_open_server_def demo_server_def)
  have ent: "4 * 33 \<le> length (entropy flood_server)"
    by (simp add: flood_server_entropy)
  obtain st1 where
    e1: "exec flood_ext (arrivals n) (start flood_server) = Some st1" and
    i1: "intake st1 = FirstSelect" and
    l1: "length (handoffs st1) = n" and
    w1: "\<forall>h \<in> set (handoffs st1). snd h = AwaitReady" and
    c1: "calls st1 = []"
    using arrivals_run [of 33 flood_server n, OF _ refl s0(1) s0(2) ent s0(3)] assms by auto
  have p1: "intake st1 \<noteq> Panicked" using i1 by simp
  have a1: "\<forall>i < length (handoffs st1). snd (handoffs st1 ! i) = AwaitReady"
    using w1 by simp
  obtain st2 where
    e2: "exec flood_ext (completions n) st1 = Some st2" and
    i2: "intake st2 = FirstSelect" and
    l2: "length (handoffs st2) = n" and
    o2: "\<forall>i < n. snd (handoffs st2 ! i) = Offering" and
    c2: "calls st2 = []"
    using completions_run [OF p1 a1, of n flood_ext] l1 i1 c1 by auto
  have e: "exec flood_ext (flood n) (start flood_server) = Some st2"
    using e1 e2 by (simp add: flood_def exec_append)
  have "\<forall>h \<in> set (handoffs st2). snd h = Offering"
    using o2 l2 by (metis in_set_conv_nth)
  then have "filter counted_handoff (handoffs st2) = handoffs st2"
    unfolding filter_id_conv by (simp add: counted_handoff_def)
  then have cn: "counted st2 = n"
    using l2 c2 by (simp add: counted_def)
  have "sessionQueueLen (server (start flood_server)) = of_nat (counted (start flood_server))"
    using s0(1) by (simp add: start_def counted_def)
  then have "sessionQueueLen (server st2) = of_nat (counted st2)"
    by (rule exec_counted [OF e])
  then have q: "sessionQueueLen (server st2) = of_nat n"
    unfolding cn .
  show ?thesis
    using e i2 l2 o2 c2 q by blast
qed


text \<open>
  The counter is compared with \<open>MaxAcceptQueueSize\<close> when a session is created, and
  incremented only when the session becomes ready. Thirty-three Initials that arrive while
  no session is ready are all admitted with the counter at 0; when the thirty-three
  sessions become ready, each \<open>handleNewSession\<close> increments it, and thirty-three
  sessions are on offer.
\<close>

theorem sessionQueueLen_exceeds_MaxAcceptQueueSize:
  "map_option (sessionQueueLen \<circ> server) (exec flood_ext (flood 33) (start flood_server)) = Some 33 \<and>
   map_option (length \<circ> offered) (exec flood_ext (flood 33) (start flood_server)) = Some 33 \<and>
   \<not> (33 :: 32 word) \<le>s MaxAcceptQueueSize"
proof -
  obtain st where
    e: "exec flood_ext (flood 33) (start flood_server) = Some st" and
    l: "length (handoffs st) = 33" and
    o: "\<forall>i < 33. snd (handoffs st ! i) = Offering" and
    q: "sessionQueueLen (server st) = of_nat 33"
    using flood_run [of 33] by auto
  have "\<forall>h \<in> set (handoffs st). snd h = Offering"
    using o l by (metis in_set_conv_nth)
  then have "filter (\<lambda>h. snd h = Offering) (handoffs st) = handoffs st"
    unfolding filter_id_conv by simp
  then have f: "length (offered st) = 33"
    using l by (simp add: offered_def)
  have m: "\<not> (33 :: 32 word) \<le>s MaxAcceptQueueSize"
    by (simp add: MaxAcceptQueueSize_def word_sle_eq)
  show ?thesis
    using e q f m by simp
qed

text \<open>
  Claim C6, amended. In every state that the listener reaches from the state
  \<open>listen\<close> leaves, \<open>sessionQueueLen\<close> is the number of sessions on offer on the
  session queue plus the number of decrements that are due (a session received by
  \<open>accept\<close>, or withdrawn after its death, whose \<open>atomic.AddInt32(-1)\<close> has not run
  yet); the equality is one of \<open>int32\<close> values, and of numbers below \<open>2^31\<close>.
  The counter is not bounded by \<open>MaxAcceptQueueSize\<close>: what holds is that the packet
  loop starts a \<open>handleNewSession\<close> only in a state where the counter is below it.
\<close>

theorem sessionQueueLen_counts:
  assumes "exec ext acts (start s) = Some st" and "sessionQueueLen s = 0"
  shows "sessionQueueLen (server st) = of_nat (length (offered st) + pending st) \<and>
         (length (offered st) + pending st < 2 ^ 31 \<longrightarrow>
            sint (sessionQueueLen (server st)) = int (length (offered st) + pending st)) \<and>
         (\<forall>p st1. step ext (Receive p) st = Some st1 \<longrightarrow>
                  length (handoffs st) < length (handoffs st1) \<longrightarrow>
                  \<not> MaxAcceptQueueSize \<le>s sessionQueueLen (server st))"
proof -
  have "sessionQueueLen (server (start s)) = of_nat (counted (start s))"
    using assms(2) by (simp add: start_def counted_def)
  then have "sessionQueueLen (server st) = of_nat (counted st)"
    by (rule exec_counted [OF assms(1)])
  then have a: "sessionQueueLen (server st) = of_nat (length (offered st) + pending st)"
    unfolding counted_split .
  have b: "sint (sessionQueueLen (server st)) = int (length (offered st) + pending st)"
    if "length (offered st) + pending st < 2 ^ 31"
    unfolding a using that by (rule sint_count)
  have c: "\<not> MaxAcceptQueueSize \<le>s sessionQueueLen (server st)"
    if "step ext (Receive p) st = Some st1" "length (handoffs st) < length (handoffs st1)" for p st1
    using that by (rule step_admits)
  show ?thesis
    using a b c by blast
qed


theorem sessionQueueLen_counts_witness:
  "sessionQueueLen flood_server = 0 \<and>
   map_option (sessionQueueLen \<circ> server)
     (exec flood_ext (flood 2 @ [Call, Deliver 0 0]) (start flood_server)) = Some 2 \<and>
   map_option (length \<circ> offered)
     (exec flood_ext (flood 2 @ [Call, Deliver 0 0]) (start flood_server)) = Some 1 \<and>
   map_option pending
     (exec flood_ext (flood 2 @ [Call, Deliver 0 0]) (start flood_server)) = Some 1"
proof -
  have s0: "sessionQueueLen flood_server = 0"
    by (simp add: flood_server_def demo_open_server_def demo_server_def)
  obtain st where
    e: "exec flood_ext (flood 2) (start flood_server) = Some st" and
    i: "intake st = FirstSelect" and
    l: "length (handoffs st) = 2" and
    o: "\<forall>i < 2. snd (handoffs st ! i) = Offering" and
    c: "calls st = []"
    using flood_run [of 2] by auto
  obtain a b where h: "handoffs st = [a, b]"
    using l by (auto simp: length_Suc_conv numeral_2_eq_2)
  have ab: "snd a = Offering" "snd b = Offering"
    using o h by (auto simp: less_Suc_eq numeral_2_eq_2)
  define st2 where "st2 = st\<lparr>calls := [BeforeSub (fst a)], handoffs := [(fst a, Finished), b]\<rparr>"
  have "step flood_ext Call st = Some (st\<lparr>calls := [InSelect]\<rparr>)"
    using i c by (simp add: step_def)
  moreover have "step flood_ext (Deliver 0 0) (st\<lparr>calls := [InSelect]\<rparr>) = Some st2"
    using i h ab by (simp add: step_def st2_def)
  ultimately have e2: "exec flood_ext (flood 2 @ [Call, Deliver 0 0]) (start flood_server) = Some st2"
    using e by (simp add: exec_append)
  have f: "length (offered st2) = 1" "pending st2 = 1"
    using ab by (simp_all add: offered_def pending_def st2_def)
  have "sessionQueueLen (server st2) = of_nat (length (offered st2) + pending st2)"
    using sessionQueueLen_counts [OF e2 s0] by (rule conjunct1)
  then have "sessionQueueLen (server st2) = 2"
    unfolding f by simp
  then show ?thesis
    using s0 e2 f by simp
qed

section \<open>Accepting after Close\<close>


lemma Close_closed:
  "closed (snd (Close ext s))"
  "closed s = errorChan_closed s \<Longrightarrow> errorChan_closed (snd (Close ext s))"
  "closed s \<Longrightarrow> snd (Close ext s) = s"
  "\<not> closed s \<Longrightarrow> serverError (snd (Close ext s)) =
      (case serverError s of None \<Rightarrow> Some (Error ''server closed'') | Some e \<Rightarrow> Some e)"
  by (auto simp: Close_def emit_def Let_def split: prod.splits option.splits)

lemma setCloseError_closed:
  "closed (setCloseError e s)"
  "closed s = errorChan_closed s \<Longrightarrow> errorChan_closed (setCloseError e s)"
  "closed s \<Longrightarrow> setCloseError e s = s"
  by (auto simp: setCloseError_def)

lemma handleNewSession_control:
  assumes "handleNewSession b pc s = Some (pc1, s1)"
  shows "closed s1 = closed s \<and> errorChan_closed s1 = errorChan_closed s \<and>
         serverError s1 = serverError s"
  using assms by (cases "(b, pc, s)" rule: handleNewSession.cases) auto

lemma accept_control:
  assumes "accept b pc s = Some (pc1, s1)"
  shows "closed s1 = closed s \<and> errorChan_closed s1 = errorChan_closed s \<and>
         serverError s1 = serverError s \<and>
         (\<forall>e. pc1 = Returned (ServerError e) \<longrightarrow> e = serverError s \<and> errorChan_closed s)"
  using assms by (cases "(b, pc, s)" rule: accept.cases) (auto split: if_splits)

text \<open>The two flags are set together.\<close>

lemma step_flags:
  assumes "step ext a st = Some st1" and "closed (server st) = errorChan_closed (server st)"
  shows "closed (server st1) = errorChan_closed (server st1)"
proof (cases a)
  case (Receive p)
  obtain r s1 where rp: "run_packet ext (server st) p = (r, s1)"
    by (cases "run_packet ext (server st) p") simp
  have "closed s1 = closed (server st)" "errorChan_closed s1 = errorChan_closed (server st)"
    using run_packet_control [of ext "server st" p] rp by simp_all
  then show ?thesis
    using assms Receive rp by (cases r) (auto simp: step_def split: if_splits)
next
  case (Handoff i b)
  then show ?thesis
    using assms handleNewSession_control
    by (fastforce simp: step_def split: if_splits option.splits)
next
  case (Accept j b)
  then show ?thesis
    using assms accept_control
    by (fastforce simp: step_def split: if_splits option.splits)
next
  case CallClose
  then show ?thesis
    using assms Close_closed(1,2) [where s = "server st" and ext = ext]
    by (auto simp: step_def split: if_splits)
next
  case (CallSetCloseError e)
  then show ?thesis
    using assms setCloseError_closed(1,2) [where s = "server st" and e = e]
    by (auto simp: step_def split: if_splits)
qed (use assms in \<open>auto simp: step_def split: if_splits\<close>)

lemma exec_flags:
  "exec ext acts st = Some st1 \<Longrightarrow> closed (server st) = errorChan_closed (server st) \<Longrightarrow>
   closed (server st1) = errorChan_closed (server st1)"
proof (induction acts arbitrary: st)
  case Nil
  then show ?case by simp
next
  case (Cons a acts)
  then obtain st2 where s: "step ext a st = Some st2" and e: "exec ext acts st2 = Some st1"
    by (auto split: option.splits)
  show ?case
    by (rule Cons.IH [OF e step_flags [OF s Cons.prems(2)]])
qed


text \<open>
  Once the server is closed, it stays so, its error does not change, and a call of
  \<open>accept\<close> that returns an error from then on returns that one.
\<close>

lemma step_closed:
  assumes s: "step ext a st = Some st1"
      and c: "closed (server st)" "errorChan_closed (server st)"
  shows "closed (server st1) \<and> errorChan_closed (server st1) \<and>
         serverError (server st1) = serverError (server st) \<and>
         length (calls st) \<le> length (calls st1) \<and>
         (\<forall>j e. j < length (calls st1) \<longrightarrow> calls st1 ! j = Returned (ServerError e) \<longrightarrow>
            (j < length (calls st) \<and> calls st ! j = Returned (ServerError e)) \<or>
            e = serverError (server st))"
proof (cases a)
  case (Receive p)
  obtain r s1 where rp: "run_packet ext (server st) p = (r, s1)"
    by (cases "run_packet ext (server st) p") simp
  have "closed s1 = closed (server st)" "errorChan_closed s1 = errorChan_closed (server st)"
       "serverError s1 = serverError (server st)"
    using run_packet_control [of ext "server st" p] rp by simp_all
  then show ?thesis
    using s c Receive rp by (cases r) (auto simp: step_def split: if_splits)
next
  case (Handoff i b)
  from s Handoff obtain pc s1 where
    h: "handleNewSession b (snd (handoffs st ! i)) (server st) = Some (pc, s1)" and
    st1: "st1 = st\<lparr>server := s1, handoffs := (handoffs st)[i := (fst (handoffs st ! i), pc)]\<rparr>"
    by (auto simp: step_def split: if_splits option.splits)
  show ?thesis
    using handleNewSession_control [OF h] c unfolding st1 by simp
next
  case Call
  then have st1: "st1 = st\<lparr>calls := calls st @ [InSelect]\<rparr>"
    using s by (auto simp: step_def split: if_splits)
  show ?thesis
    using c unfolding st1 by (auto simp: nth_append less_Suc_eq)
next
  case (Accept j b)
  from s Accept obtain pc s1 where
    j: "j < length (calls st)" and
    h: "accept b (calls st ! j) (server st) = Some (pc, s1)" and
    st1: "st1 = st\<lparr>server := s1, calls := (calls st)[j := pc]\<rparr>"
    by (auto simp: step_def split: if_splits option.splits)
  show ?thesis
    using accept_control [OF h] c j unfolding st1 by (auto simp: nth_list_update split: if_splits)
next
  case (Deliver i j)
  from s Deliver have
    j: "j < length (calls st)" and
    st1: "st1 = st\<lparr>handoffs := (handoffs st)[i := (fst (handoffs st ! i), Finished)],
                        calls := (calls st)[j := BeforeSub (fst (handoffs st ! i))]\<rparr>"
    by (auto simp: step_def split: if_splits)
  show ?thesis
    using c j unfolding st1 by (auto simp: nth_list_update split: if_splits)
next
  case CallClose
  then have "st1 = st"
    using s c Close_closed(3) [where s = "server st" and ext = ext]
    by (auto simp: step_def split: if_splits)
  then show ?thesis using c by simp
next
  case (CallSetCloseError e)
  then have "st1 = st"
    using s c setCloseError_closed(3) [where s = "server st" and e = e]
    by (auto simp: step_def split: if_splits)
  then show ?thesis using c by simp
qed (use s c in \<open>auto simp: step_def split: if_splits\<close>)

lemma exec_closed:
  "exec ext acts st = Some st1 \<Longrightarrow> closed (server st) \<Longrightarrow> errorChan_closed (server st) \<Longrightarrow>
   closed (server st1) \<and> errorChan_closed (server st1) \<and>
   serverError (server st1) = serverError (server st) \<and>
   length (calls st) \<le> length (calls st1) \<and>
   (\<forall>j e. j < length (calls st1) \<longrightarrow> calls st1 ! j = Returned (ServerError e) \<longrightarrow>
      (j < length (calls st) \<and> calls st ! j = Returned (ServerError e)) \<or>
      e = serverError (server st))"
proof (induction acts arbitrary: st)
  case Nil
  then show ?case by simp
next
  case (Cons a acts)
  then obtain st2 where s: "step ext a st = Some st2" and e: "exec ext acts st2 = Some st1"
    by (auto split: option.splits)
  note one = step_closed [OF s Cons.prems(2,3)]
  from one have c2: "closed (server st2)" "errorChan_closed (server st2)" by simp_all
  note more = Cons.IH [OF e c2]
  have err: "serverError (server st2) = serverError (server st)" using one by simp
  have calls: "(j < length (calls st) \<and> calls st ! j = Returned (ServerError e)) \<or>
               e = serverError (server st)"
    if "j < length (calls st1)" "calls st1 ! j = Returned (ServerError e)" for j e
  proof -
    from more that have "(j < length (calls st2) \<and> calls st2 ! j = Returned (ServerError e)) \<or>
               e = serverError (server st2)" by blast
    then show ?thesis
    proof
      assume "j < length (calls st2) \<and> calls st2 ! j = Returned (ServerError e)"
      then show ?thesis using one by blast
    next
      assume "e = serverError (server st2)"
      then show ?thesis using err by simp
    qed
  qed
  have l: "length (calls st) \<le> length (calls st1)"
    using one more by simp
  have f: "closed (server st1)" "errorChan_closed (server st1)"
     "serverError (server st1) = serverError (server st)"
    using more err by simp_all
  show ?case
    using f l calls by blast
qed

lemma flood_first:
  "\<exists>s1. run_packet flood_ext flood_server (flood_packet 0) = (Inr (), s1) \<and>
        started (drop (length (trace flood_server)) (trace s1)) = [flood_session]"
proof -
  have ent: "entropy flood_server = [0, 0, 1, 0] @ concat (map (\<lambda>i. [0, 0, 1, of_nat i]) [1..<33])"
    by (simp add: flood_server_def upt_conv_Cons)
  have f: "handlers flood_server = Map.empty" "sessionQueueLen flood_server = 0"
    "trace flood_server = []" "nextSession flood_server = 0" "\<not> acceptEarlySessions flood_server"
    by (simp_all add: flood_server_def demo_open_server_def demo_server_def)
  have rp: "replicate 8 (0 :: byte) = [0, 0, 0, 0, 0, 0, 0, 0]"
    by (simp add: numeral_eq_Suc)
  show ?thesis
    by (simp add: run_packet_def handlePacketImpl_def handleInitialImpl_def decodedToken_def
        createNewSession_def sessionHandler_Add_def newSession_def GenerateConnectionID_def
        emit_def Let_def flood_ext_def flood_packet_def demo_hdr_def demo_ext_def
        flood_server_config ent f flood_session_def
        MinInitialPacketSize_def MinConnectionIDLenInitial_def MaxAcceptQueueSize_def
        IsSupportedVersion_def word_sle_eq rp)
qed

lemma flood_one:
  "\<exists>s1. exec flood_ext (flood 1) (start flood_server) =
           Some \<lparr>server = s1, intake = FirstSelect, handoffs = [(flood_session, Offering)],
                 calls = []\<rparr> \<and>
        \<not> closed s1 \<and> \<not> errorChan_closed s1 \<and> serverError s1 = None"
proof -
  obtain s1 where
    r: "run_packet flood_ext flood_server (flood_packet 0) = (Inr (), s1)" and
    s: "started (drop (length (trace flood_server)) (trace s1)) = [flood_session]"
    using flood_first by blast
  have f: "\<not> closed flood_server" "\<not> errorChan_closed flood_server" "serverError flood_server = None"
    by (simp_all add: flood_server_def demo_open_server_def demo_server_def)
  have c: "\<not> closed s1" "\<not> errorChan_closed s1" "serverError s1 = None"
    using run_packet_control [of flood_ext flood_server "flood_packet 0"] r f by simp_all
  have "exec flood_ext (flood 1) (start flood_server) =
          Some \<lparr>server = s1\<lparr>sessionQueueLen := sessionQueueLen s1 + 1\<rparr>, intake = FirstSelect,
                handoffs = [(flood_session, Offering)], calls = []\<rparr>"
    using r s f by (simp add: flood_def start_def step_def)
  then show ?thesis
    using c by simp
qed


text \<open>
  Where the session of a call of \<open>accept\<close> comes from: the call held it already, or a
  \<open>handleNewSession\<close> that was offering it delivered it.
\<close>


lemma step_session_source:
  assumes s: "step ext a st = Some st1"
      and j: "j < length (calls st1)"
      and c: "calls st1 ! j = BeforeSub sess \<or> calls st1 ! j = Returned (Session sess)"
  shows "(j < length (calls st) \<and>
          (calls st ! j = BeforeSub sess \<or> calls st ! j = Returned (Session sess))) \<or>
         (\<exists>i. a = Deliver i j \<and> i < length (handoffs st) \<and> handoffs st ! i = (sess, Offering))"
proof (cases a)
  case (Receive p)
  obtain r s1 where rp: "run_packet ext (server st) p = (r, s1)"
    by (cases "run_packet ext (server st) p") simp
  show ?thesis
    using s j c Receive rp by (cases r) (auto simp: step_def split: if_splits)
next
  case (Handoff i b)
  then have "calls st1 = calls st"
    using s by (auto simp: step_def split: if_splits option.splits)
  then show ?thesis using j c by simp
next
  case Call
  then have st1: "calls st1 = calls st @ [InSelect]"
    using s by (auto simp: step_def split: if_splits)
  show ?thesis
    using j c unfolding st1 by (auto simp: nth_append less_Suc_eq split: if_splits)
next
  case (Accept k b)
  from s Accept obtain pc s1 where
    k: "k < length (calls st)" and
    h: "accept b (calls st ! k) (server st) = Some (pc, s1)" and
    st1: "calls st1 = (calls st)[k := pc]"
    by (auto simp: step_def split: if_splits option.splits)
  have src: "pc = BeforeSub sess \<or> pc = Returned (Session sess) \<Longrightarrow>
             calls st ! k = BeforeSub sess"
    using h by (cases "(b, calls st ! k, server st)" rule: accept.cases) (auto split: if_splits)
  show ?thesis
    using j c k src unfolding st1 by (auto simp: nth_list_update split: if_splits)
next
  case (Deliver i k)
  from s Deliver have
    i: "i < length (handoffs st)" and o: "snd (handoffs st ! i) = Offering" and
    k: "k < length (calls st)" and
    st1: "calls st1 = (calls st)[k := BeforeSub (fst (handoffs st ! i))]"
    by (auto simp: step_def split: if_splits)
  have h: "handoffs st ! i = (fst (handoffs st ! i), Offering)"
    using o by (cases "handoffs st ! i") simp
  show ?thesis
  proof (cases "j = k")
    case True
    then have "sess = fst (handoffs st ! i)"
      using c k unfolding st1 by simp
    then show ?thesis
      using Deliver True i h by simp
  next
    case False
    then show ?thesis
      using j c unfolding st1 by simp
  qed
qed (use s j c in \<open>auto simp: step_def split: if_splits\<close>)

lemma exec_session_source:
  "exec ext acts st = Some st1 \<Longrightarrow> j < length (calls st1) \<Longrightarrow>
   calls st1 ! j = BeforeSub sess \<or> calls st1 ! j = Returned (Session sess) \<Longrightarrow>
   (j < length (calls st) \<and>
      (calls st ! j = BeforeSub sess \<or> calls st ! j = Returned (Session sess))) \<or>
   (\<exists>l1 l2 i sta. acts = l1 @ Deliver i j # l2 \<and> exec ext l1 st = Some sta \<and>
      i < length (handoffs sta) \<and> handoffs sta ! i = (sess, Offering))"
proof (induction acts arbitrary: st)
  case Nil
  then show ?case by simp
next
  case (Cons a acts)
  then obtain st2 where s: "step ext a st = Some st2" and e: "exec ext acts st2 = Some st1"
    by (auto split: option.splits)
  from Cons.IH [OF e Cons.prems(2,3)]
  show ?case
  proof
    assume h: "j < length (calls st2) \<and>
      (calls st2 ! j = BeforeSub sess \<or> calls st2 ! j = Returned (Session sess))"
    from step_session_source [OF s] h
    have "(j < length (calls st) \<and>
          (calls st ! j = BeforeSub sess \<or> calls st ! j = Returned (Session sess))) \<or>
         (\<exists>i. a = Deliver i j \<and> i < length (handoffs st) \<and> handoffs st ! i = (sess, Offering))"
      by blast
    then show ?thesis
    proof
      assume "j < length (calls st) \<and>
          (calls st ! j = BeforeSub sess \<or> calls st ! j = Returned (Session sess))"
      then show ?thesis by blast
    next
      assume "\<exists>i. a = Deliver i j \<and> i < length (handoffs st) \<and> handoffs st ! i = (sess, Offering)"
      then obtain i where i: "a = Deliver i j" "i < length (handoffs st)"
          "handoffs st ! i = (sess, Offering)" by blast
      have "a # acts = [] @ Deliver i j # acts \<and> exec ext [] st = Some st \<and>
            i < length (handoffs st) \<and> handoffs st ! i = (sess, Offering)"
        using i by simp
      then show ?thesis by blast
    qed
  next
    assume "\<exists>l1 l2 i sta. acts = l1 @ Deliver i j # l2 \<and> exec ext l1 st2 = Some sta \<and>
      i < length (handoffs sta) \<and> handoffs sta ! i = (sess, Offering)"
    then obtain l1 l2 i sta where k: "acts = l1 @ Deliver i j # l2" "exec ext l1 st2 = Some sta"
      "i < length (handoffs sta)" "handoffs sta ! i = (sess, Offering)" by blast
    have "a # acts = (a # l1) @ Deliver i j # l2 \<and> exec ext (a # l1) st = Some sta \<and>
          i < length (handoffs sta) \<and> handoffs sta ! i = (sess, Offering)"
      using k s by simp
    then show ?thesis by blast
  qed
qed

text \<open>
  A session whose handshake completed before \<open>Close\<close> is still on offer after it: a
  call of \<open>accept\<close> made after \<open>Close\<close> has returned finds two ready cases in its
  \<open>select\<close>, the receive from \<open>sessionQueue\<close> and the closed \<open>errorChan\<close>, and
  the receive may be the one taken.
\<close>

theorem accept_returns_session_after_Close:
  "map_option (closed \<circ> server)
     (exec flood_ext (flood 1 @ [CallClose]) (start flood_server)) = Some True \<and>
   map_option calls
     (exec flood_ext (flood 1 @ [CallClose]) (start flood_server)) = Some [] \<and>
   map_option calls
     (exec flood_ext (flood 1 @ [CallClose, Call, Deliver 0 0, Accept 0 SubInt32])
        (start flood_server)) = Some [Returned (Session flood_session)]"
proof -
  obtain s1 where
    e: "exec flood_ext (flood 1) (start flood_server) =
           Some \<lparr>server = s1, intake = FirstSelect, handoffs = [(flood_session, Offering)],
                 calls = []\<rparr>"
    using flood_one by blast
  have c: "closed (snd (Close flood_ext s1))"
    by (rule Close_closed(1))
  have a: "exec flood_ext (flood 1 @ [CallClose]) (start flood_server) =
             Some \<lparr>server = snd (Close flood_ext s1), intake = FirstSelect,
                   handoffs = [(flood_session, Offering)], calls = []\<rparr>"
    using e by (simp add: exec_append step_def)
  have b: "map_option calls
     (exec flood_ext (flood 1 @ [CallClose, Call, Deliver 0 0, Accept 0 SubInt32])
        (start flood_server)) = Some [Returned (Session flood_session)]"
    using e by (simp add: exec_append step_def)
  show ?thesis
    using a b c by simp
qed

text \<open>
  Claim C7, amended. After \<open>Close\<close> has returned the server stays closed with its error
  channel closed, and \<open>serverError\<close> keeps the value that \<open>Close\<close> left (the error
  ``server closed'' when the server was open with no error recorded). Every call of
  \<open>accept\<close>, pending or later, that returns the server's error returns that value, and
  the error case is ready for every call that waits in its \<open>select\<close>, so no call
  blocks. A call returns a session after \<open>Close\<close> in two cases only: it had received
  the session before \<open>Close\<close> returned, or, in a later step, a \<open>handleNewSession\<close>
  that was offering the session at that moment delivered it to the call.
\<close>

theorem accept_after_Close:
  assumes init: "closed s = errorChan_closed s"
      and pre: "exec ext earlier (start s) = Some st0"
      and cl: "step ext CallClose st0 = Some st1"
      and post: "exec ext later st1 = Some st"
  shows "closed (server st) \<and> errorChan_closed (server st) \<and>
         serverError (server st) = serverError (server st1) \<and>
         (\<not> closed (server st0) \<longrightarrow>
            serverError (server st1) =
              (case serverError (server st0) of
                 None \<Rightarrow> Some (Error ''server closed'') | Some e \<Rightarrow> Some e)) \<and>
         (\<forall>j e. j < length (calls st) \<longrightarrow> calls st ! j = Returned (ServerError e) \<longrightarrow>
            (j < length (calls st1) \<and> calls st1 ! j = Returned (ServerError e)) \<or>
            e = serverError (server st1)) \<and>
         (\<forall>j. j < length (calls st) \<longrightarrow> calls st ! j = InSelect \<longrightarrow> intake st \<noteq> Panicked \<longrightarrow>
            step ext (Accept j ErrorChan) st =
              Some (st\<lparr>calls := (calls st)[j := Returned (ServerError (serverError (server st1)))]\<rparr>)) \<and>
         (\<forall>j sess. j < length (calls st) \<longrightarrow> calls st ! j = Returned (Session sess) \<longrightarrow>
            (j < length (calls st1) \<and>
               (calls st1 ! j = BeforeSub sess \<or> calls st1 ! j = Returned (Session sess))) \<or>
            (\<exists>l1 l2 i sta. later = l1 @ Deliver i j # l2 \<and> exec ext l1 st1 = Some sta \<and>
               i < length (handoffs sta) \<and> handoffs sta ! i = (sess, Offering)))"
proof -
  have "closed (server (start s)) = errorChan_closed (server (start s))"
    using init by (simp add: start_def)
  then have f0: "closed (server st0) = errorChan_closed (server st0)"
    by (rule exec_flags [OF pre])
  have st1: "st1 = st0\<lparr>server := snd (Close ext (server st0))\<rparr>"
    using cl by (auto simp: step_def split: if_splits)
  have c1: "closed (server st1)" "errorChan_closed (server st1)"
    unfolding st1 using Close_closed(1,2) [where s = "server st0" and ext = ext] f0 by simp_all
  have e1: "serverError (server st1) =
              (case serverError (server st0) of
                 None \<Rightarrow> Some (Error ''server closed'') | Some e \<Rightarrow> Some e)"
    if "\<not> closed (server st0)"
    unfolding st1 using Close_closed(4) [OF that, of ext] by simp
  note stable = exec_closed [OF post c1]
  from stable have a: "closed (server st)" "errorChan_closed (server st)"
    "serverError (server st) = serverError (server st1)"
    by simp_all
  from stable have b: "\<forall>j e. j < length (calls st) \<longrightarrow> calls st ! j = Returned (ServerError e) \<longrightarrow>
            (j < length (calls st1) \<and> calls st1 ! j = Returned (ServerError e)) \<or>
            e = serverError (server st1)"
    by blast
  have d: "step ext (Accept j ErrorChan) st =
              Some (st\<lparr>calls := (calls st)[j := Returned (ServerError (serverError (server st1)))]\<rparr>)"
    if "j < length (calls st)" "calls st ! j = InSelect" "intake st \<noteq> Panicked" for j
    using that a by (simp add: step_def)
  have dall: "\<forall>j. j < length (calls st) \<longrightarrow> calls st ! j = InSelect \<longrightarrow> intake st \<noteq> Panicked \<longrightarrow>
            step ext (Accept j ErrorChan) st =
              Some (st\<lparr>calls := (calls st)[j := Returned (ServerError (serverError (server st1)))]\<rparr>)"
    using d by blast
  have gall: "\<forall>j sess. j < length (calls st) \<longrightarrow> calls st ! j = Returned (Session sess) \<longrightarrow>
            (j < length (calls st1) \<and>
               (calls st1 ! j = BeforeSub sess \<or> calls st1 ! j = Returned (Session sess))) \<or>
            (\<exists>l1 l2 i sta. later = l1 @ Deliver i j # l2 \<and> exec ext l1 st1 = Some sta \<and>
               i < length (handoffs sta) \<and> handoffs sta ! i = (sess, Offering))"
    using exec_session_source [OF post] by blast
  have eall: "\<not> closed (server st0) \<longrightarrow>
            serverError (server st1) =
              (case serverError (server st0) of
                 None \<Rightarrow> Some (Error ''server closed'') | Some e \<Rightarrow> Some e)"
    using e1 by blast
  show ?thesis
    by (intro conjI; (fact a | fact b | fact dall | fact gall | fact eall))
qed

theorem accept_after_Close_witness:
  "closed flood_server = errorChan_closed flood_server \<and>
   map_option (closed \<circ> server)
     (exec flood_ext (flood 1 @ [CallClose, Call, Accept 0 ErrorChan]) (start flood_server)) =
     Some True \<and>
   map_option calls
     (exec flood_ext (flood 1 @ [CallClose, Call, Accept 0 ErrorChan]) (start flood_server)) =
     Some [Returned (ServerError (Some (Error ''server closed'')))]"
proof -
  have init: "closed flood_server = errorChan_closed flood_server"
    by (simp add: flood_server_def demo_open_server_def demo_server_def)
  obtain s1 where
    e: "exec flood_ext (flood 1) (start flood_server) =
           Some \<lparr>server = s1, intake = FirstSelect, handoffs = [(flood_session, Offering)],
                 calls = []\<rparr>" and
    o: "\<not> closed s1" "serverError s1 = None"
    using flood_one by blast
  define st0 where "st0 = \<lparr>server = s1, intake = FirstSelect,
                           handoffs = [(flood_session, Offering)], calls = []\<rparr>"
  define st1 where "st1 = st0\<lparr>server := snd (Close flood_ext s1)\<rparr>"
  define st where "st = st1\<lparr>calls := [InSelect]\<rparr>"
  have pre: "exec flood_ext (flood 1) (start flood_server) = Some st0"
    using e by (simp add: st0_def)
  have cl: "step flood_ext CallClose st0 = Some st1"
    by (simp add: step_def st0_def st1_def)
  have post: "exec flood_ext [Call] st1 = Some st"
    by (simp add: step_def st0_def st1_def st_def)
  note main = accept_after_Close [OF init pre cl post]
  have err: "serverError (server st1) = Some (Error ''server closed'')"
    using main o by (simp add: st0_def)
  have "step flood_ext (Accept 0 ErrorChan) st =
          Some (st\<lparr>calls := (calls st)[0 := Returned (ServerError (serverError (server st1)))]\<rparr>)"
    using main by (simp add: st_def st1_def st0_def)
  then have last: "step flood_ext (Accept 0 ErrorChan) st =
          Some (st\<lparr>calls := [Returned (ServerError (Some (Error ''server closed'')))]\<rparr>)"
    unfolding err by (simp add: st_def)
  have cls: "closed (server st)"
    using main by simp
  have call: "step flood_ext Call st1 = Some st"
    using post by (simp split: option.splits)
  have "exec flood_ext [CallClose, Call, Accept 0 ErrorChan] st0 =
          Some (st\<lparr>calls := [Returned (ServerError (Some (Error ''server closed'')))]\<rparr>)"
    by (simp add: cl call last)
  then have "exec flood_ext (flood 1 @ [CallClose, Call, Accept 0 ErrorChan]) (start flood_server) =
          Some (st\<lparr>calls := [Returned (ServerError (Some (Error ''server closed'')))]\<rparr>)"
    unfolding exec_append pre by simp
  then show ?thesis
    using init cls by simp
qed

end
